theory Spec2Isabelle
  imports
    Complex_Main
    "HOL-Library.AList"
    "HOL-Library.Multiset"
    "HOL-Library.Sublist"
    "HOL-Library.Char_ord"
    "HOL-Library.List_Lexorder"
begin

section \<open>JavaScript numbers\<close>

text \<open>
  The engine computes with JavaScript numbers. A number of the model is a real (the sign
  of zero is dropped) or one of the three special values an arithmetic operation of the
  source can produce: the two infinities and NaN. Division by zero, the square root of a
  negative number and every operation on NaN are written out as ECMAScript defines
  them, so that a NaN the code would compute is a NaN of the model and not some real
  number. The operations \<open>+\<close>, \<open>-\<close>, \<open>*\<close>, \<open>/\<close> and \<open>Math_sqrt\<close> below are exact; the
  operations that round their result to a double as IEEE 754 does follow them. The
  recommenders are written with the exact operations: a score of the model is the real
  number that the double of the source approximates.
\<close>

datatype number = Num real | PosInf | NegInf | NaN

fun num_neg :: "number \<Rightarrow> number" where
  "num_neg (Num a) = Num (- a)"
| "num_neg PosInf = NegInf"
| "num_neg NegInf = PosInf"
| "num_neg NaN = NaN"

fun num_add :: "number \<Rightarrow> number \<Rightarrow> number" where
  "num_add NaN _ = NaN"
| "num_add _ NaN = NaN"
| "num_add (Num a) (Num b) = Num (a + b)"
| "num_add PosInf NegInf = NaN"
| "num_add NegInf PosInf = NaN"
| "num_add PosInf _ = PosInf"
| "num_add NegInf _ = NegInf"
| "num_add (Num a) PosInf = PosInf"
| "num_add (Num a) NegInf = NegInf"

definition inf_of_sign :: "real \<Rightarrow> number" where
  "inf_of_sign s = (if s = 0 then NaN else if 0 < s then PosInf else NegInf)"

fun num_sign :: "number \<Rightarrow> real" where
  "num_sign (Num a) = sgn a"
| "num_sign PosInf = 1"
| "num_sign NegInf = - 1"
| "num_sign NaN = 0"

fun num_mul :: "number \<Rightarrow> number \<Rightarrow> number" where
  "num_mul NaN _ = NaN"
| "num_mul _ NaN = NaN"
| "num_mul (Num a) (Num b) = Num (a * b)"
| "num_mul x y = inf_of_sign (num_sign x * num_sign y)"

fun num_div :: "number \<Rightarrow> number \<Rightarrow> number" where
  "num_div NaN _ = NaN"
| "num_div _ NaN = NaN"
| "num_div (Num a) (Num b) = (if b = 0 then inf_of_sign a else Num (a / b))"
| "num_div (Num a) _ = Num 0"
| "num_div PosInf (Num b) = (if b < 0 then NegInf else PosInf)"
| "num_div NegInf (Num b) = (if b < 0 then PosInf else NegInf)"
| "num_div _ _ = NaN"

instantiation number :: "{plus, minus, times, inverse, uminus}"
begin

definition plus_number :: "number \<Rightarrow> number \<Rightarrow> number" where
  "plus_number = num_add"

definition minus_number :: "number \<Rightarrow> number \<Rightarrow> number" where
  "minus_number a b = num_add a (num_neg b)"

definition times_number :: "number \<Rightarrow> number \<Rightarrow> number" where
  "times_number = num_mul"

definition divide_number :: "number \<Rightarrow> number \<Rightarrow> number" where
  "divide_number = num_div"

definition inverse_number :: "number \<Rightarrow> number" where
  "inverse_number = num_div (Num 1)"

definition uminus_number :: "number \<Rightarrow> number" where
  "uminus_number = num_neg"

instance ..

end

text \<open>Comparisons: every comparison with NaN is false.\<close>

fun num_gt :: "number \<Rightarrow> number \<Rightarrow> bool" where
  "num_gt NaN _ = False"
| "num_gt _ NaN = False"
| "num_gt (Num a) (Num b) = (b < a)"
| "num_gt PosInf PosInf = False"
| "num_gt PosInf _ = True"
| "num_gt _ PosInf = False"
| "num_gt NegInf _ = False"
| "num_gt (Num a) NegInf = True"

definition num_ge :: "number \<Rightarrow> number \<Rightarrow> bool" where
  "num_ge a b = (a \<noteq> NaN \<and> b \<noteq> NaN \<and> (num_gt a b \<or> a = b))"

definition num_le :: "number \<Rightarrow> number \<Rightarrow> bool" where
  "num_le a b = num_ge b a"

text \<open>\<open>Math.sqrt\<close>: NaN on a negative argument.\<close>

fun Math_sqrt :: "number \<Rightarrow> number" where
  "Math_sqrt (Num a) = (if a < 0 then NaN else Num (sqrt a))"
| "Math_sqrt PosInf = PosInf"
| "Math_sqrt NegInf = NaN"
| "Math_sqrt NaN = NaN"

text \<open>\<open>Math.min\<close> and \<open>Math.max\<close> of two numbers: NaN if either is NaN.\<close>

definition Math_min :: "number \<Rightarrow> number \<Rightarrow> number" where
  "Math_min a b = (if a = NaN \<or> b = NaN then NaN else if num_gt a b then b else a)"

definition Math_max :: "number \<Rightarrow> number \<Rightarrow> number" where
  "Math_max a b = (if a = NaN \<or> b = NaN then NaN else if num_gt a b then a else b)"

text \<open>A number is truthy unless it is zero or NaN.\<close>

fun num_truthy :: "number \<Rightarrow> bool" where
  "num_truthy (Num a) = (a \<noteq> 0)"
| "num_truthy NaN = False"
| "num_truthy _ = True"

subsection \<open>Binary64 rounding\<close>

text \<open>
  \<open>fl\<close> rounds a real to the nearest double, ties to the even mantissa: \<open>ilog2\<close> finds
  the binary exponent (its first argument bounds the search; 2200 steps cover every
  result of one operation on doubles, and a value beyond overflows or is subnormal
  anyway), the exponent is kept at least \<open>-1022\<close> so that subnormal results are multiples
  of \<open>pow2 (- 1074)\<close>, the mantissa has 53 bits, and a rounded value of magnitude
  \<open>2 ^ 1024\<close> or more is an infinity. An operation on doubles is the exact
  operation followed by this rounding.
\<close>

definition pow2 :: "int \<Rightarrow> real" where
  "pow2 e = (if 0 \<le> e then 2 ^ nat e else 1 / 2 ^ nat (- e))"

fun ilog2 :: "nat \<Rightarrow> real \<Rightarrow> int" where
  "ilog2 0 x = 0"
| "ilog2 (Suc n) x =
     (if 2 \<le> x then ilog2 n (x / 2) + 1 else if x < 1 then ilog2 n (x * 2) - 1 else 0)"

definition rne :: "real \<Rightarrow> int" where
  "rne x = (let n = \<lfloor>x\<rfloor>; f = x - of_int n
            in if f < 1 / 2 then n else if 1 / 2 < f then n + 1
               else if even n then n else n + 1)"

definition fl :: "real \<Rightarrow> number" where
  "fl x =
     (if x = 0 then Num 0
      else let e = max (ilog2 2200 \<bar>x\<bar>) (- 1022);
               q = pow2 (e - 52);
               r = of_int (rne (x / q)) * q
           in if 2 ^ 1024 \<le> \<bar>r\<bar> then (if 0 < x then PosInf else NegInf) else Num r)"

definition rounded :: "number \<Rightarrow> number" where
  "rounded a = (case a of Num x \<Rightarrow> fl x | _ \<Rightarrow> a)"

definition dadd :: "number \<Rightarrow> number \<Rightarrow> number" where "dadd a b = rounded (a + b)"
definition dsub :: "number \<Rightarrow> number \<Rightarrow> number" where "dsub a b = rounded (a - b)"
definition dmul :: "number \<Rightarrow> number \<Rightarrow> number" where "dmul a b = rounded (a * b)"
definition ddiv :: "number \<Rightarrow> number \<Rightarrow> number" where "ddiv a b = rounded (a / b)"
definition dsqrt :: "number \<Rightarrow> number" where "dsqrt a = rounded (Math_sqrt a)"

section \<open>Arrays\<close>

text \<open>
  \<open>Array.prototype.sort(cmp)\<close> is stable. The comparator's result \<open>v\<close> puts the
  first argument after the second when \<open>v > 0\<close>; a NaN result counts as \<open>+0\<close>. The model
  is the stable insertion sort. For a comparator that is not consistent (it is not when a
  score is NaN) ECMAScript leaves the order to the implementation, and the model fixes
  the order this insertion produces.
\<close>

fun js_insort :: "('a \<Rightarrow> 'a \<Rightarrow> number) \<Rightarrow> 'a \<Rightarrow> 'a list \<Rightarrow> 'a list" where
  "js_insort cmp x [] = [x]"
| "js_insort cmp x (y # ys) =
     (if num_gt (cmp x y) (Num 0) then y # js_insort cmp x ys else x # y # ys)"

definition js_sort :: "('a \<Rightarrow> 'a \<Rightarrow> number) \<Rightarrow> 'a list \<Rightarrow> 'a list" where
  "js_sort cmp xs = foldr (js_insort cmp) xs []"

text \<open>
  \<open>xs.slice(0, limit)\<close> for an integer \<open>limit\<close>: a negative end counts from the end of
  the array.
\<close>

definition slice0 :: "'a list \<Rightarrow> int \<Rightarrow> 'a list" where
  "slice0 xs limit =
     (if limit < 0 then take (length xs - nat (- limit)) xs else take (nat limit) xs)"

text \<open>Decimal rendering of a count, as template strings print it.\<close>

definition digit_char :: "nat \<Rightarrow> char" where
  "digit_char d = char_of (48 + d)"

fun show_nat :: "nat \<Rightarrow> string" where
  "show_nat n = (if n < 10 then [digit_char n] else show_nat (n div 10) @ [digit_char (n mod 10)])"

declare show_nat.simps [simp del]

section \<open>Data model (\<open>types/index.ts\<close>)\<close>

text \<open>
  The fields the engine reads. \<open>director\<close> and the movie's \<open>rating\<close> are optional in
  the source; \<open>year\<close> and a user's star rating are integers in the database schema and
  are read as numbers.
\<close>

record movie =
  movie_id :: string
  title :: string
  genre :: "string list"
  year :: int
  director :: "string option"
  movie_rating :: "real option"

record user =
  user_id :: string
  username :: string

record rating =
  userId :: string
  movieId :: string
  stars :: real
  liked :: bool

text \<open>
  A \<open>Recommendation\<close>. The engine builds its \<open>reason\<close> as a string; the reason of
  an item parsed from the AI collaborator's answer is whatever JavaScript value the answer
  held, so the type of the field is a parameter.
\<close>

record 'r recommendation =
  movie :: movie
  score :: number
  reason :: 'r

text \<open>An element of the neighbourhood: \<open>{ user, similarity }\<close>.\<close>

record similar_user =
  user :: user
  similarity :: number

text \<open>
  The storage collaborator (\<open>services/database.ts\<close>) as the engine sees it: the result
  of each query, \<open>None\<close> when the promise is rejected. \<open>getMovieById\<close> resolves to
  \<open>null\<close> (\<open>Some None\<close>) for an unknown identifier.
\<close>

record database =
  getAllRatings :: "rating list option"
  getAllUsers :: "user list option"
  getUserRatings :: "string \<Rightarrow> rating list option"
  getMovieById :: "string \<Rightarrow> movie option option"
  getMovies :: "movie list option"
  getUserById :: "string \<Rightarrow> user option option"

section \<open>The recommendation engine (\<open>services/recommendationEngine.ts\<close>)\<close>

subsection \<open>User similarity\<close>

definition calculateUserSimilarity :: "rating list \<Rightarrow> rating list \<Rightarrow> number" where
  "calculateUserSimilarity user1Ratings user2Ratings =
     (let commonMovies =
            filter (\<lambda>r1. list_ex (\<lambda>r2. movieId r2 = movieId r1) user2Ratings) user1Ratings
      in if length commonMovies < 2 then Num 0
         else
           let user1CommonRatings = map stars commonMovies;
               user2CommonRatings =
                 map (\<lambda>r1. case find (\<lambda>r2. movieId r2 = movieId r1) user2Ratings of
                              Some r2 \<Rightarrow> stars r2
                            | None \<Rightarrow> 0) commonMovies;
               n = real (length user1CommonRatings);
               sum1 = foldl (\<lambda>a b. a + b) 0 user1CommonRatings;
               sum2 = foldl (\<lambda>a b. a + b) 0 user2CommonRatings;
               sum1Sq = foldl (\<lambda>a b. a + b * b) 0 user1CommonRatings;
               sum2Sq = foldl (\<lambda>a b. a + b * b) 0 user2CommonRatings;
               pSum = foldl (\<lambda>acc (r1, r2). acc + r1 * r2) 0
                        (zip user1CommonRatings user2CommonRatings);
               num = pSum - (sum1 * sum2 / n);
               den = Math_sqrt (Num ((sum1Sq - sum1 * sum1 / n) * (sum2Sq - sum2 * sum2 / n)))
           in if den = Num 0 then Num 0 else Num num / den)"


text \<open>
  The same function with every operation rounded to a double, as the source computes
  it.
\<close>

definition calculateUserSimilarity64 :: "rating list \<Rightarrow> rating list \<Rightarrow> number" where
  "calculateUserSimilarity64 user1Ratings user2Ratings =
     (let commonMovies =
            filter (\<lambda>r1. list_ex (\<lambda>r2. movieId r2 = movieId r1) user2Ratings) user1Ratings
      in if length commonMovies < 2 then Num 0
         else
           let user1CommonRatings = map (\<lambda>r. Num (stars r)) commonMovies;
               user2CommonRatings =
                 map (\<lambda>r1. case find (\<lambda>r2. movieId r2 = movieId r1) user2Ratings of
                              Some r2 \<Rightarrow> Num (stars r2)
                            | None \<Rightarrow> Num 0) commonMovies;
               n = Num (real (length user1CommonRatings));
               sum1 = foldl (\<lambda>a b. dadd a b) (Num 0) user1CommonRatings;
               sum2 = foldl (\<lambda>a b. dadd a b) (Num 0) user2CommonRatings;
               sum1Sq = foldl (\<lambda>a b. dadd a (dmul b b)) (Num 0) user1CommonRatings;
               sum2Sq = foldl (\<lambda>a b. dadd a (dmul b b)) (Num 0) user2CommonRatings;
               pSum = foldl (\<lambda>acc (r1, r2). dadd acc (dmul r1 r2)) (Num 0)
                        (zip user1CommonRatings user2CommonRatings);
               num = dsub pSum (ddiv (dmul sum1 sum2) n);
               den = dsqrt (dmul (dsub sum1Sq (ddiv (dmul sum1 sum1) n))
                                 (dsub sum2Sq (ddiv (dmul sum2 sum2) n)))
           in if den = Num 0 then Num 0 else ddiv num den)"

subsection \<open>Neighbourhood\<close>

definition findSimilarUsers :: "string \<Rightarrow> rating list \<Rightarrow> user list \<Rightarrow> similar_user list" where
  "findSimilarUsers targetUserId allRatings allUsers =
     (let targetUserRatings = filter (\<lambda>r. userId r = targetUserId) allRatings
      in slice0
           (js_sort (\<lambda>a b. similarity b - similarity a)
              (filter (\<lambda>item. num_gt (similarity item) (Num 0.3))
                 (map (\<lambda>u.
                         let userRatings = filter (\<lambda>r. userId r = user_id u) allRatings;
                             sim = calculateUserSimilarity targetUserRatings userRatings
                         in \<lparr>user = u, similarity = sim\<rparr>)
                    (filter (\<lambda>u. user_id u \<noteq> targetUserId) allUsers))))
           10)"

subsection \<open>Collaborative scoring\<close>

text \<open>
  \<open>movieScores\<close> is a \<open>Map\<close> from movie identifier to \<open>{ score, count }\<close>; a
  \<open>Map\<close> iterates in insertion order and \<open>set\<close> on a present key keeps its place, which
  is what \<open>AList.update\<close> does on an association list. The pair is \<open>(score, count)\<close>,
  the count written \<open>cnt\<close>.
\<close>

definition addVote :: "number \<Rightarrow> (string \<times> number \<times> nat) list \<Rightarrow> rating
    \<Rightarrow> (string \<times> number \<times> nat) list" where
  "addVote sim movieScores r =
     (let current = (case map_of movieScores (movieId r) of
                       Some c \<Rightarrow> c
                     | None \<Rightarrow> (Num 0, 0))
      in AList.update (movieId r)
           (fst current + Num (stars r) * sim, snd current + 1) movieScores)"

definition collectVotes :: "string set \<Rightarrow> rating list \<Rightarrow> (string \<times> number \<times> nat) list
    \<Rightarrow> similar_user \<Rightarrow> (string \<times> number \<times> nat) list" where
  "collectVotes watchedMovieIds allRatings movieScores su =
     (let userRatings =
            filter (\<lambda>r. userId r = user_id (user su) \<and> liked r \<and> 4 \<le> stars r
                        \<and> movieId r \<notin> watchedMovieIds) allRatings
      in foldl (addVote (similarity su)) movieScores userRatings)"

definition similarUsersReason :: "nat \<Rightarrow> string" where
  "similarUsersReason cnt =
     ''Recommended by '' @ show_nat cnt @ '' similar user'' @ (if 1 < cnt then ''s'' else [])"

definition getRecommendationsFromSimilarUsers ::
    "string \<Rightarrow> similar_user list \<Rightarrow> rating list \<Rightarrow> movie list \<Rightarrow> int
     \<Rightarrow> string recommendation list" where
  "getRecommendationsFromSimilarUsers targetUserId similarUsers allRatings allMovies limit =
     (let targetUserRatings = filter (\<lambda>r. userId r = targetUserId) allRatings;
          watchedMovieIds = set (map movieId targetUserRatings);
          movieScores = foldl (collectVotes watchedMovieIds allRatings) [] similarUsers;
          recommendations =
            concat (map (\<lambda>(mid, sc, cnt).
                           case find (\<lambda>m. movie_id m = mid) allMovies of
                             Some m \<Rightarrow> [\<lparr>movie = m, score = sc / Num (real cnt),
                                         reason = similarUsersReason cnt\<rparr>]
                           | None \<Rightarrow> [])
                      movieScores)
      in slice0 (js_sort (\<lambda>a b. score b - score a) recommendations) limit)"

subsection \<open>Content scoring\<close>

text \<open>A string is truthy unless it is empty; an optional field is falsy when absent.\<close>

definition str_truthy :: "string option \<Rightarrow> bool" where
  "str_truthy s = (case s of Some t \<Rightarrow> t \<noteq> [] | None \<Rightarrow> False)"

definition rating_truthy :: "real option \<Rightarrow> bool" where
  "rating_truthy r = (case r of Some x \<Rightarrow> x \<noteq> 0 | None \<Rightarrow> False)"

text \<open>The body of the \<open>forEach\<close> in \<open>calculateContentSimilarity\<close>: one liked movie.\<close>

definition likedMovieSimilarity :: "movie \<Rightarrow> movie \<Rightarrow> number" where
  "likedMovieSimilarity m likedMovie =
     (let similarity0 = Num 0;
          genreOverlap = length (filter (\<lambda>g. g \<in> set (genre likedMovie)) (genre m));
          genreUnion = length (remdups (genre m @ genre likedMovie));
          similarity1 = similarity0 + (Num (real genreOverlap) / Num (real genreUnion)) * Num 0.5;
          similarity2 =
            (if str_truthy (director m) \<and> str_truthy (director likedMovie)
                \<and> director m = director likedMovie
             then similarity1 + Num 0.2 else similarity1);
          yearDiff = \<bar>year m - year likedMovie\<bar>;
          similarity3 =
            (if yearDiff \<le> 5 then similarity2 + Num 0.15
             else if yearDiff \<le> 15 then similarity2 + Num 0.1
             else similarity2);
          similarity4 =
            (if rating_truthy (movie_rating m) \<and> rating_truthy (movie_rating likedMovie)
             then (let ratingDiff = \<bar>the (movie_rating m) - the (movie_rating likedMovie)\<bar>
                   in if ratingDiff \<le> 1 then similarity3 + Num 0.15 else similarity3)
             else similarity3)
      in similarity4)"

definition calculateContentSimilarity :: "movie \<Rightarrow> movie list \<Rightarrow> number" where
  "calculateContentSimilarity m likedMovies =
     (let totalSimilarity =
            foldl (\<lambda>total likedMovie. total + likedMovieSimilarity m likedMovie) (Num 0) likedMovies
      in if 0 < length likedMovies
         then totalSimilarity / Num (real (length likedMovies))
         else Num 0)"

fun join :: "string \<Rightarrow> string list \<Rightarrow> string" where
  "join sep [] = []"
| "join sep [x] = x"
| "join sep (x # y # ys) = x @ sep @ join sep (y # ys)"

definition generateContentReason :: "movie \<Rightarrow> movie list \<Rightarrow> string" where
  "generateContentReason m likedMovies =
     (let commonGenres =
            filter (\<lambda>g. list_ex (\<lambda>l. g \<in> set (genre l)) likedMovies) (genre m);
          reasons1 =
            (if 0 < length commonGenres
             then [''shares '' @ join '', '' commonGenres @ '' genre''
                     @ (if 1 < length commonGenres then ''s'' else [])]
             else []);
          commonDirectors =
            filter (\<lambda>l. str_truthy (director m) \<and> director l = director m) likedMovies;
          reasons2 =
            (if 0 < length commonDirectors
             then reasons1 @ [''same director as liked movies'']
             else reasons1)
      in if 0 < length reasons2
         then ''Recommended because it '' @ join '' and '' reasons2
         else ''Similar to your preferences'')"

subsection \<open>Popularity fallback\<close>

definition getPopularMovies :: "movie list \<Rightarrow> int \<Rightarrow> string recommendation list" where
  "getPopularMovies allMovies limit =
     map (\<lambda>(index, m).
            \<lparr>movie = m, score = Num (0.8 - real index * 0.05),
             reason = ''Popular highly-rated movie''\<rparr>)
       (enumerate 0
          (slice0
             (js_sort (\<lambda>a b. Num (case movie_rating b of Some x \<Rightarrow> x | None \<Rightarrow> 0)
                              - Num (case movie_rating a of Some x \<Rightarrow> x | None \<Rightarrow> 0))
                (filter (\<lambda>m. rating_truthy (movie_rating m) \<and> 7 \<le> the (movie_rating m))
                   allMovies))
             limit))"

subsection \<open>The three recommenders\<close>

text \<open>
  Each recommender awaits the storage collaborator inside \<open>try\<close>; a rejected query is
  caught and answered with the popularity fallback.
\<close>

definition generateCollaborativeRecommendations ::
    "database \<Rightarrow> string \<Rightarrow> movie list \<Rightarrow> int \<Rightarrow> string recommendation list" where
  "generateCollaborativeRecommendations db targetUserId allMovies limit =
     (case getAllRatings db of
        None \<Rightarrow> getPopularMovies allMovies limit
      | Some allRatings \<Rightarrow>
          (case getAllUsers db of
             None \<Rightarrow> getPopularMovies allMovies limit
           | Some allUsers \<Rightarrow>
               (let targetUserRatings = filter (\<lambda>r. userId r = targetUserId) allRatings
                in if length targetUserRatings = 0 then getPopularMovies allMovies limit
                   else
                     (let similarUsers = findSimilarUsers targetUserId allRatings allUsers;
                          recommendations =
                            getRecommendationsFromSimilarUsers targetUserId similarUsers
                              allRatings allMovies limit
                      in recommendations))))"

text \<open>The loop that looks each liked rating's movie up; \<open>None\<close> when a lookup is rejected.\<close>

fun collectLikedMovies :: "database \<Rightarrow> rating list \<Rightarrow> movie list \<Rightarrow> movie list option" where
  "collectLikedMovies db [] likedMovies = Some likedMovies"
| "collectLikedMovies db (r # rs) likedMovies =
     (case getMovieById db (movieId r) of
        None \<Rightarrow> None
      | Some None \<Rightarrow> collectLikedMovies db rs likedMovies
      | Some (Some m) \<Rightarrow> collectLikedMovies db rs (likedMovies @ [m]))"

definition generateContentBasedRecommendations ::
    "database \<Rightarrow> string \<Rightarrow> movie list \<Rightarrow> int \<Rightarrow> string recommendation list" where
  "generateContentBasedRecommendations db targetUserId allMovies limit =
     (case getUserRatings db targetUserId of
        None \<Rightarrow> getPopularMovies allMovies limit
      | Some userRatings \<Rightarrow>
          (case collectLikedMovies db (filter (\<lambda>r. liked r \<and> 4 \<le> stars r) userRatings) [] of
             None \<Rightarrow> getPopularMovies allMovies limit
           | Some likedMovies \<Rightarrow>
               if length likedMovies = 0 then getPopularMovies allMovies limit
               else
                 (let recommendations =
                        slice0
                          (js_sort (\<lambda>a b. score b - score a)
                             (map (\<lambda>m. let sim = calculateContentSimilarity m likedMovies
                                        in \<lparr>movie = m, score = sim,
                                            reason = generateContentReason m likedMovies\<rparr>)
                                (filter (\<lambda>m. \<not> list_ex (\<lambda>r. movieId r = movie_id m) userRatings)
                                   allMovies)))
                          limit
                  in recommendations)))"

text \<open>
  The hybrid recommender merges both lists in a \<open>Map\<close> keyed by movie identifier.
  \<open>Math.ceil(limit * 0.6)\<close> is computed exactly. Both calls catch their own failures, so
  the \<open>catch\<close> of the hybrid recommender itself is never entered.
\<close>

definition addCollaborative :: "(string \<times> string recommendation) list \<Rightarrow> string recommendation
    \<Rightarrow> (string \<times> string recommendation) list" where
  "addCollaborative combinedRecs r =
     AList.update (movie_id (movie r))
       (r\<lparr>score := score r * Num 0.6, reason := reason r @ '' (collaborative filtering)''\<rparr>)
       combinedRecs"

definition addContentBased :: "(string \<times> string recommendation) list \<Rightarrow> string recommendation
    \<Rightarrow> (string \<times> string recommendation) list" where
  "addContentBased combinedRecs r =
     (case map_of combinedRecs (movie_id (movie r)) of
        Some existing \<Rightarrow>
          AList.update (movie_id (movie r))
            (existing\<lparr>score := (score existing + score r * Num 0.4) / Num 1.4,
                       reason := reason existing @ '' + content similarity''\<rparr>)
            combinedRecs
      | None \<Rightarrow>
          AList.update (movie_id (movie r))
            (r\<lparr>score := score r * Num 0.4, reason := reason r @ '' (content-based)''\<rparr>)
            combinedRecs)"

definition combineRecs :: "string recommendation list \<Rightarrow> string recommendation list
    \<Rightarrow> (string \<times> string recommendation) list" where
  "combineRecs collaborativeRecs contentBasedRecs =
     foldl addContentBased (foldl addCollaborative [] collaborativeRecs) contentBasedRecs"

definition generateHybridRecommendations ::
    "database \<Rightarrow> string \<Rightarrow> movie list \<Rightarrow> int \<Rightarrow> string recommendation list" where
  "generateHybridRecommendations db targetUserId allMovies limit =
     (let collaborativeRecs =
            generateCollaborativeRecommendations db targetUserId allMovies
              \<lceil>real_of_int limit * 0.6\<rceil>;
          contentBasedRecs =
            generateContentBasedRecommendations db targetUserId allMovies
              \<lceil>real_of_int limit * 0.4\<rceil>;
          combinedRecs = combineRecs collaborativeRecs contentBasedRecs
      in slice0 (js_sort (\<lambda>a b. score b - score a) (map snd combinedRecs)) limit)"


section \<open>JavaScript values\<close>

text \<open>
  The values \<open>JSON.parse\<close> and the query-string parser produce, and \<open>undefined\<close>,
  which a read of a missing property gives. The properties of an object are an association
  list with one entry per name.
\<close>

datatype jsvalue =
    JUndefined
  | JNull
  | JBool bool
  | JNum number
  | JStr string
  | JArr "jsvalue list"
  | JObj "(string \<times> jsvalue) list"

text \<open>
  Operations of the ECMAScript library that the repository calls without defining them.
  They are parameters of the model:
  \<^item> \<open>StringToNumber\<close>: the number a string converts to (\<open>Number(s)\<close>), NaN if it
    is not a numeric literal;
  \<^item> \<open>ArrayToNumber\<close>: the number an array converts to (through \<open>join\<close> and
    \<open>StringToNumber\<close>), \<open>None\<close> when the conversion throws;
  \<^item> \<open>parseCleaned\<close>: \<open>JSON.parse\<close> applied to the answer once the code fences
    are removed and the text is trimmed, \<open>None\<close> when \<open>JSON.parse\<close> throws.
\<close>

record ecmascript =
  StringToNumber :: "string \<Rightarrow> number"
  ArrayToNumber :: "jsvalue list \<Rightarrow> number option"
  parseCleaned :: "string \<Rightarrow> jsvalue option"

fun truthy :: "jsvalue \<Rightarrow> bool" where
  "truthy JUndefined = False"
| "truthy JNull = False"
| "truthy (JBool b) = b"
| "truthy (JNum n) = num_truthy n"
| "truthy (JStr s) = (s \<noteq> [])"
| "truthy (JArr _) = True"
| "truthy (JObj _) = True"

text \<open>
  \<open>ToNumber\<close>, \<open>None\<close> when it throws a \<open>TypeError\<close>. An object converts through
  \<open>valueOf\<close> and \<open>toString\<close>: the inherited \<open>toString\<close> gives a string that is not
  numeric, and an own property of that name, never callable in parsed JSON, leaves no
  method to call.
\<close>

fun ToNumber :: "ecmascript \<Rightarrow> jsvalue \<Rightarrow> number option" where
  "ToNumber rt JUndefined = Some NaN"
| "ToNumber rt JNull = Some (Num 0)"
| "ToNumber rt (JBool b) = Some (Num (if b then 1 else 0))"
| "ToNumber rt (JNum n) = Some n"
| "ToNumber rt (JStr s) = Some (StringToNumber rt s)"
| "ToNumber rt (JArr xs) = ArrayToNumber rt xs"
| "ToNumber rt (JObj kvs) = (if ''toString'' \<in> set (map fst kvs) then None else Some NaN)"

text \<open>
  Reading one of the properties \<open>movieId\<close>, \<open>score\<close>, \<open>reason\<close>: a \<open>TypeError\<close>
  (\<open>None\<close>) on \<open>null\<close> and \<open>undefined\<close>, \<open>undefined\<close> on a value that has no such
  property.
\<close>

fun getProp :: "jsvalue \<Rightarrow> string \<Rightarrow> jsvalue option" where
  "getProp JUndefined k = None"
| "getProp JNull k = None"
| "getProp (JObj kvs) k = Some (case map_of kvs k of Some v \<Rightarrow> v | None \<Rightarrow> JUndefined)"
| "getProp _ k = Some JUndefined"

section \<open>The AI service (\<open>services/aiService.ts\<close>)\<close>

text \<open>
  The callback of \<open>map\<close> in \<open>parseAIResponse\<close>: \<open>None\<close> when it throws,
  \<open>Some None\<close> when it returns \<open>null\<close>.
\<close>

definition parseItem :: "ecmascript \<Rightarrow> movie list \<Rightarrow> jsvalue \<Rightarrow> jsvalue recommendation option option" where
  "parseItem rt allMovies r =
     (case getProp r ''movieId'' of
        None \<Rightarrow> None
      | Some mid \<Rightarrow>
          (case find (\<lambda>m. JStr (movie_id m) = mid) allMovies of
             None \<Rightarrow> Some None
           | Some m \<Rightarrow>
               (let sc = (case getProp r ''score'' of Some v \<Rightarrow> v | None \<Rightarrow> JUndefined);
                    rs = (case getProp r ''reason'' of Some v \<Rightarrow> v | None \<Rightarrow> JUndefined)
                in case ToNumber rt (if truthy sc then sc else JNum (Num 0.5)) of
                     None \<Rightarrow> None
                   | Some n \<Rightarrow>
                       Some (Some \<lparr>movie = m,
                                   score = Math_max (Num 0.1) (Math_min (Num 1.0) n),
                                   reason = (if truthy rs then rs
                                             else JStr ''AI recommended based on your preferences'')\<rparr>))))"

definition parseAIResponse :: "ecmascript \<Rightarrow> string \<Rightarrow> movie list \<Rightarrow> jsvalue recommendation list" where
  "parseAIResponse rt response allMovies =
     (case parseCleaned rt response of
        None \<Rightarrow> []
      | Some aiRecommendations \<Rightarrow>
          (case aiRecommendations of
             JArr recs \<Rightarrow>
               (case those (map (parseItem rt allMovies) recs) of
                  None \<Rightarrow> []
                | Some items \<Rightarrow>
                    js_sort (\<lambda>a b. score b - score a) (List.map_filter (\<lambda>i. i) items))
           | _ \<Rightarrow> []))"

text \<open>
  \<open>extractGenres\<close> counts genres in an object; its keys are listed in the order of
  first insertion (genre names are taken not to be array indices or properties of
  \<open>Object.prototype\<close>).
\<close>

definition countGenre :: "(string \<times> nat) list \<Rightarrow> string \<Rightarrow> (string \<times> nat) list" where
  "countGenre genreCount g =
     AList.update g ((case map_of genreCount g of Some c \<Rightarrow> c | None \<Rightarrow> 0) + 1) genreCount"

definition extractGenres :: "movie list \<Rightarrow> string list" where
  "extractGenres movies =
     (let genreCount = foldl (\<lambda>gc m. foldl countGenre gc (genre m)) [] movies
      in slice0
           (js_sort (\<lambda>a b. Num (real (the (map_of genreCount b))) - Num (real (the (map_of genreCount a))))
              (map fst genreCount))
           5)"

text \<open>\<open>Math.round\<close> rounds a half up.\<close>

definition Math_round :: "real \<Rightarrow> int" where
  "Math_round x = \<lfloor>x + 1 / 2\<rfloor>"

definition getFallbackRecommendations :: "movie list \<Rightarrow> movie list \<Rightarrow> string recommendation list" where
  "getFallbackRecommendations likedMovies allMovies =
     (let likedGenres = extractGenres likedMovies;
          avgYear =
            (if 0 < length likedMovies
             then Math_round (real_of_int (foldl (\<lambda>a b. a + b) 0 (map year likedMovies))
                               / real (length likedMovies))
             else 2000)
      in slice0
           (js_sort (\<lambda>a b. score b - score a)
              (map (\<lambda>m.
                      let score0 = (0.1 :: real);
                          genreMatch = list_ex (\<lambda>g. g \<in> set likedGenres) (genre m);
                          score1 = (if genreMatch then score0 + 0.4 else score0);
                          reasons1 = (if genreMatch then [''similar genres''] else []);
                          yearDiff = \<bar>year m - avgYear\<bar>;
                          score2 = (if yearDiff \<le> 5 then score1 + 0.3
                                    else if yearDiff \<le> 15 then score1 + 0.2 else score1);
                          reasons2 = (if yearDiff \<le> 5 then reasons1 @ [''similar time period'']
                                      else reasons1);
                          score3 = (if 2010 < year m then score2 + 0.1 else score2)
                      in \<lparr>movie = m, score = Num (min score3 1.0),
                          reason = (if 0 < length reasons2
                                    then ''Recommended due to '' @ join '' and '' reasons2
                                    else ''Popular choice'')\<rparr>)
                 (filter (\<lambda>m. \<not> list_ex (\<lambda>l. movie_id l = movie_id m) likedMovies) allMovies)))
           10)"

definition getPopularMoviesAI :: "movie list \<Rightarrow> string recommendation list" where
  "getPopularMoviesAI allMovies =
     map (\<lambda>(index, m).
            \<lparr>movie = m, score = Num (0.8 - real index * 0.05), reason = ''Popular recent movie''\<rparr>)
       (enumerate 0
          (slice0 (js_sort (\<lambda>a b. Num (real_of_int (year b)) - Num (real_of_int (year a))) allMovies) 10))"

text \<open>
  The OpenAI client: absent when no key is configured; a call is rejected or resolves
  to a message whose content may be missing.
\<close>

datatype completion = CallRejected | Content "string option"

definition asJson :: "string recommendation \<Rightarrow> jsvalue recommendation" where
  "asJson r = \<lparr>movie = movie r, score = score r, reason = JStr (reason r)\<rparr>"

definition generateRecommendations ::
    "ecmascript \<Rightarrow> completion option \<Rightarrow> rating list \<Rightarrow> movie list \<Rightarrow> movie list
     \<Rightarrow> jsvalue recommendation list" where
  "generateRecommendations rt openai userRatings allMovies likedMovies =
     (if length likedMovies = 0 then map asJson (getPopularMoviesAI allMovies)
      else
        (case openai of
           None \<Rightarrow> map asJson (getFallbackRecommendations likedMovies allMovies)
         | Some CallRejected \<Rightarrow> map asJson (getFallbackRecommendations likedMovies allMovies)
         | Some (Content None) \<Rightarrow> map asJson (getFallbackRecommendations likedMovies allMovies)
         | Some (Content (Some response)) \<Rightarrow>
             if response = [] then map asJson (getFallbackRecommendations likedMovies allMovies)
             else slice0 (parseAIResponse rt response allMovies) 10))"


section \<open>Request validation (\<open>middleware/validation.ts\<close>, \<open>schemas/validation.ts\<close>)\<close>

text \<open>A value of the parsed query string: a string, an array or a nested object.\<close>

datatype qvalue = QStr string | QArr "qvalue list" | QObj "(string \<times> qvalue) list"

fun qvalue_js :: "qvalue \<Rightarrow> jsvalue" where
  "qvalue_js (QStr s) = JStr s"
| "qvalue_js (QArr vs) = JArr (map qvalue_js vs)"
| "qvalue_js (QObj kvs) = JObj (map (\<lambda>(k, v). (k, qvalue_js v)) kvs)"

text \<open>The conversion \<open>validateQuery\<close> applies to each value of the query.\<close>

definition processValue :: "ecmascript \<Rightarrow> qvalue \<Rightarrow> jsvalue" where
  "processValue rt v =
     (case v of
        QStr s \<Rightarrow>
          (if StringToNumber rt s \<noteq> NaN then JNum (StringToNumber rt s)
           else if s = ''true'' then JBool True
           else if s = ''false'' then JBool False
           else JStr s)
      | _ \<Rightarrow> qvalue_js v)"

definition processQuery :: "ecmascript \<Rightarrow> (string \<rightharpoonup> qvalue) \<Rightarrow> (string \<rightharpoonup> jsvalue)" where
  "processQuery rt query = (\<lambda>key. map_option (processValue rt) (query key))"

text \<open>
  The Zod validators of the schema. Each takes the property of the processed query
  (\<open>None\<close> when the key is missing) and answers \<open>None\<close> when the value is invalid,
  \<open>Some None\<close> when the optional key is missing and \<open>Some (Some x)\<close> otherwise. An
  \<open>optional()\<close> around a \<open>default()\<close> passes a missing key through as missing.
\<close>

definition zInt :: "jsvalue \<Rightarrow> int option" where
  "zInt v = (case v of JNum (Num x) \<Rightarrow> (if real_of_int \<lfloor>x\<rfloor> = x then Some \<lfloor>x\<rfloor> else None)
             | _ \<Rightarrow> None)"

definition zOptional :: "(jsvalue \<Rightarrow> 'a option) \<Rightarrow> jsvalue option \<Rightarrow> 'a option option" where
  "zOptional validate v =
     (case v of None \<Rightarrow> Some None
      | Some x \<Rightarrow> (case validate x of None \<Rightarrow> None | Some y \<Rightarrow> Some (Some y)))"

definition zLimit :: "jsvalue \<Rightarrow> int option" where
  "zLimit v = (case zInt v of Some n \<Rightarrow> (if 1 \<le> n \<and> n \<le> 50 then Some n else None) | None \<Rightarrow> None)"

definition zString :: "jsvalue \<Rightarrow> string option" where
  "zString v = (case v of JStr s \<Rightarrow> Some s | _ \<Rightarrow> None)"

definition zGenres :: "jsvalue \<Rightarrow> string list option" where
  "zGenres v = (case v of JArr xs \<Rightarrow> those (map zString xs) | _ \<Rightarrow> None)"

definition zBoolean :: "jsvalue \<Rightarrow> bool option" where
  "zBoolean v = (case v of JBool b \<Rightarrow> Some b | _ \<Rightarrow> None)"

definition zMinYear :: "jsvalue \<Rightarrow> int option" where
  "zMinYear v = (case zInt v of Some n \<Rightarrow> (if 1800 \<le> n then Some n else None) | None \<Rightarrow> None)"

definition zMaxYear :: "int \<Rightarrow> jsvalue \<Rightarrow> int option" where
  "zMaxYear currentYear v =
     (case zInt v of Some n \<Rightarrow> (if n \<le> currentYear + 5 then Some n else None) | None \<Rightarrow> None)"

definition zAlgorithm :: "jsvalue \<Rightarrow> string option" where
  "zAlgorithm v =
     (case v of
        JStr s \<Rightarrow> (if s \<in> set [''hybrid'', ''collaborative'', ''content'', ''ai''] then Some s else None)
      | _ \<Rightarrow> None)"

record recommendation_query =
  limit :: "int option"
  genres :: "string list option"
  excludeWatched :: "bool option"
  minYear :: "int option"
  maxYear :: "int option"
  algorithm :: "string option"

text \<open>
  \<open>RecommendationRequestSchema.extend({ algorithm })\<close>: \<open>None\<close> when \<open>parse\<close> throws
  a \<open>ZodError\<close>. Keys the schema does not name are dropped.
\<close>

definition parseRecommendationRequest :: "int \<Rightarrow> (string \<rightharpoonup> jsvalue) \<Rightarrow> recommendation_query option" where
  "parseRecommendationRequest currentYear q =
     (case zOptional zLimit (q ''limit'') of None \<Rightarrow> None | Some l \<Rightarrow>
      case zOptional zGenres (q ''genres'') of None \<Rightarrow> None | Some g \<Rightarrow>
      case zOptional zBoolean (q ''excludeWatched'') of None \<Rightarrow> None | Some e \<Rightarrow>
      case zOptional zMinYear (q ''minYear'') of None \<Rightarrow> None | Some mn \<Rightarrow>
      case zOptional (zMaxYear currentYear) (q ''maxYear'') of None \<Rightarrow> None | Some mx \<Rightarrow>
      case zOptional zAlgorithm (q ''algorithm'') of None \<Rightarrow> None | Some a \<Rightarrow>
        Some \<lparr>limit = l, genres = g, excludeWatched = e, minYear = mn, maxYear = mx,
              algorithm = a\<rparr>)"

text \<open>
  The answer of a handler: the status, and the recommendations of a success. The texts
  of the error messages are left out.
\<close>

datatype response =
    Success "jsvalue recommendation list"
  | BadRequest400
  | Unauthorized401
  | Forbidden403
  | TooManyRequests429
  | ServerError500

definition validateQuery :: "ecmascript \<Rightarrow> int \<Rightarrow> (string \<rightharpoonup> qvalue) \<Rightarrow> response + recommendation_query" where
  "validateQuery rt currentYear query =
     (case parseRecommendationRequest currentYear (processQuery rt query) of
        None \<Rightarrow> Inl BadRequest400
      | Some result \<Rightarrow> Inr result)"

section \<open>The controller and its route (\<open>controllers/recommendationController.ts\<close>,
  \<open>routes/recommendations.ts\<close>)\<close>

definition getRecommendations ::
    "ecmascript \<Rightarrow> completion option \<Rightarrow> database \<Rightarrow> user option \<Rightarrow> recommendation_query
     \<Rightarrow> response" where
  "getRecommendations rt openai db reqUser query =
     (case reqUser of
        None \<Rightarrow> Unauthorized401
      | Some u \<Rightarrow>
          (let alg = (case algorithm query of Some a \<Rightarrow> a | None \<Rightarrow> ''hybrid'');
               lim = (case limit query of Some l \<Rightarrow> l | None \<Rightarrow> 10)
           in case getMovies db of
                None \<Rightarrow> ServerError500
              | Some allMovies \<Rightarrow>
                  if alg = ''collaborative'' then
                    Success (map asJson
                      (generateCollaborativeRecommendations db (user_id u) allMovies lim))
                  else if alg = ''content'' then
                    Success (map asJson
                      (generateContentBasedRecommendations db (user_id u) allMovies lim))
                  else if alg = ''ai'' then
                    (case getUserRatings db (user_id u) of
                       None \<Rightarrow> ServerError500
                     | Some userRatings \<Rightarrow>
                         (case collectLikedMovies db (filter liked userRatings) [] of
                            None \<Rightarrow> ServerError500
                          | Some likedMovies \<Rightarrow>
                              Success (generateRecommendations rt openai userRatings allMovies
                                         likedMovies)))
                  else
                    Success (map asJson
                      (generateHybridRecommendations db (user_id u) allMovies lim))))"

text \<open>
  The middleware before the controller. The rate limiter lets the request through or
  not; \<open>authenticateToken\<close> finds no token, a token that does not verify, or the user
  identifier of a verified token, which it looks up.
\<close>

datatype token = NoToken | InvalidToken | TokenFor string

definition authenticateToken :: "database \<Rightarrow> token \<Rightarrow> response + user" where
  "authenticateToken db t =
     (case t of
        NoToken \<Rightarrow> Inl Unauthorized401
      | InvalidToken \<Rightarrow> Inl Forbidden403
      | TokenFor uid \<Rightarrow>
          (case getUserById db uid of
             None \<Rightarrow> Inl Forbidden403
           | Some None \<Rightarrow> Inl Unauthorized401
           | Some (Some u) \<Rightarrow> Inr u))"

record request =
  withinRateLimit :: bool
  authorization :: token
  query :: "string \<rightharpoonup> qvalue"

definition recommendationsRoute ::
    "ecmascript \<Rightarrow> int \<Rightarrow> completion option \<Rightarrow> database \<Rightarrow> request \<Rightarrow> response" where
  "recommendationsRoute rt currentYear openai db req =
     (if \<not> withinRateLimit req then TooManyRequests429
      else
        (case authenticateToken db (authorization req) of
           Inl r \<Rightarrow> r
         | Inr u \<Rightarrow>
             (case validateQuery rt currentYear (query req) of
                Inl r \<Rightarrow> r
              | Inr q \<Rightarrow> getRecommendations rt openai db (Some u) q)))"

section \<open>The cache service (\<open>services/cacheService.ts\<close>)\<close>

text \<open>
  The store of \<open>NodeCache\<close> at one instant: its keys in the order \<open>keys()\<close> lists them,
  each with its value. Expiry is not modelled.
\<close>

datatype cached =
    CachedMovies "movie list"
  | CachedMovie movie
  | CachedUser user
  | CachedRecommendations "jsvalue recommendation list"

type_synonym cache = "(string \<times> cached) list"

definition cache_set :: "string \<Rightarrow> cached \<Rightarrow> cache \<Rightarrow> cache" where
  "cache_set key v c = AList.update key v c"

definition cache_get :: "cache \<Rightarrow> string \<Rightarrow> cached option" where
  "cache_get c key = map_of c key"

definition cache_del :: "string \<Rightarrow> cache \<Rightarrow> cache" where
  "cache_del key c = AList.delete key c"

definition cache_keys :: "cache \<Rightarrow> string list" where
  "cache_keys c = map fst c"

definition startsWith :: "string \<Rightarrow> string \<Rightarrow> bool" where
  "startsWith key p = (take (length p) key = p)"

definition setMovies :: "movie list \<Rightarrow> cache \<Rightarrow> cache" where
  "setMovies movies c = cache_set ''all-movies'' (CachedMovies movies) c"

definition setMovie :: "string \<Rightarrow> movie \<Rightarrow> cache \<Rightarrow> cache" where
  "setMovie mid m c = cache_set (''movie-'' @ mid) (CachedMovie m) c"

definition setUser :: "string \<Rightarrow> user \<Rightarrow> cache \<Rightarrow> cache" where
  "setUser uid u c = cache_set (''user-'' @ uid) (CachedUser u) c"

definition recommendationsKey :: "string \<Rightarrow> string \<Rightarrow> string" where
  "recommendationsKey uid alg = ''recommendations-'' @ uid @ ''-'' @ alg"

definition setRecommendations :: "string \<Rightarrow> string \<Rightarrow> jsvalue recommendation list \<Rightarrow> cache \<Rightarrow> cache" where
  "setRecommendations uid alg recommendations c =
     cache_set (recommendationsKey uid alg) (CachedRecommendations recommendations) c"

definition getCachedRecommendations :: "cache \<Rightarrow> string \<Rightarrow> string \<Rightarrow> cached option" where
  "getCachedRecommendations c uid alg = cache_get c (recommendationsKey uid alg)"

definition setGenreRecommendations :: "string \<Rightarrow> jsvalue recommendation list \<Rightarrow> cache \<Rightarrow> cache" where
  "setGenreRecommendations g recommendations c =
     cache_set (''genre-'' @ g) (CachedRecommendations recommendations) c"

text \<open>
  \<open>hashString\<close>: \<open>hash << 5\<close> and \<open>hash & hash\<close> work on 32-bit two's complement
  integers; a string's character codes are those of its characters. The keys of search
  results and of AI answers carry such a hash; \<open>sort()\<close> without a comparator orders
  strings by their character codes.
\<close>

definition ToInt32 :: "int \<Rightarrow> int" where
  "ToInt32 x = (x + 2 ^ 31) mod 2 ^ 32 - 2 ^ 31"

definition hashStep :: "int \<Rightarrow> char \<Rightarrow> int" where
  "hashStep hash ch = ToInt32 ((ToInt32 (hash * 2 ^ 5) - hash) + of_char ch)"

definition hashString :: "string \<Rightarrow> string" where
  "hashString str =
     (if length str = 0 then show_nat 0
      else show_nat (nat \<bar>foldl hashStep 0 str\<bar>))"

definition getGenreRecommendations :: "cache \<Rightarrow> string \<Rightarrow> cached option" where
  "getGenreRecommendations c g = cache_get c (''genre-'' @ g)"

definition searchKey :: "string \<Rightarrow> string" where
  "searchKey q = ''search-'' @ hashString q"

definition setSearchResults :: "string \<Rightarrow> movie list \<Rightarrow> cache \<Rightarrow> cache" where
  "setSearchResults q results c = cache_set (searchKey q) (CachedMovies results) c"

definition getSearchResults :: "cache \<Rightarrow> string \<Rightarrow> cached option" where
  "getSearchResults c q = cache_get c (searchKey q)"

definition aiKey :: "string \<Rightarrow> string list \<Rightarrow> string" where
  "aiKey uid likedMovieIds = ''ai-'' @ uid @ ''-'' @ hashString (join '','' (sort likedMovieIds))"

definition setAIResponse :: "string \<Rightarrow> string list \<Rightarrow> jsvalue recommendation list \<Rightarrow> cache \<Rightarrow> cache" where
  "setAIResponse uid likedMovieIds response c =
     cache_set (aiKey uid likedMovieIds) (CachedRecommendations response) c"

definition getAIResponse :: "cache \<Rightarrow> string \<Rightarrow> string list \<Rightarrow> cached option" where
  "getAIResponse c uid likedMovieIds = cache_get c (aiKey uid likedMovieIds)"

definition invalidateMovie :: "string \<Rightarrow> cache \<Rightarrow> cache" where
  "invalidateMovie mid c = cache_del ''all-movies'' (cache_del (''movie-'' @ mid) c)"

definition invalidateAllMovies :: "cache \<Rightarrow> cache" where
  "invalidateAllMovies c =
     (let c1 = cache_del ''all-movies'' c;
          keys = cache_keys c1
      in foldl (\<lambda>c2 key. if startsWith key ''movie-'' then cache_del key c2 else c2) c1 keys)"

definition invalidateUserRecommendations :: "string \<Rightarrow> cache \<Rightarrow> cache" where
  "invalidateUserRecommendations uid c =
     (let keys = cache_keys c
      in foldl (\<lambda>c2 key. if startsWith key (''recommendations-'' @ uid @ ''-'')
                         then cache_del key c2 else c2) c keys)"

definition invalidateAllRecommendations :: "cache \<Rightarrow> cache" where
  "invalidateAllRecommendations c =
     (let keys = cache_keys c
      in foldl (\<lambda>c2 key. if startsWith key ''recommendations-'' then cache_del key c2 else c2)
           c keys)"

definition onMovieUpdate :: "string \<Rightarrow> cache \<Rightarrow> cache" where
  "onMovieUpdate mid c = invalidateAllRecommendations (invalidateMovie mid c)"

definition onMovieCreate :: "cache \<Rightarrow> cache" where
  "onMovieCreate c = invalidateAllRecommendations (invalidateAllMovies c)"

definition onMovieDelete :: "string \<Rightarrow> cache \<Rightarrow> cache" where
  "onMovieDelete mid c = invalidateAllRecommendations (invalidateMovie mid c)"

definition onUserRating :: "string \<Rightarrow> cache \<Rightarrow> cache" where
  "onUserRating uid c = invalidateUserRecommendations uid c"


section \<open>Vocabulary of the statements\<close>

text \<open>
  Names for parts of \<open>calculateUserSimilarity\<close>: the ratings of the first user on
  movies the second has rated too, the second user's rating the code pairs with one of
  them, the pairs themselves, and the correlation as a function of the six sums.
\<close>

definition pearson :: "real \<Rightarrow> real \<Rightarrow> real \<Rightarrow> real \<Rightarrow> real \<Rightarrow> real \<Rightarrow> number" where
  "pearson n sum1 sum2 sum1Sq sum2Sq pSum =
     (let num = pSum - (sum1 * sum2 / n);
          den = Math_sqrt (Num ((sum1Sq - sum1 * sum1 / n) * (sum2Sq - sum2 * sum2 / n)))
      in if den = Num 0 then Num 0 else Num num / den)"

definition pairs_of :: "rating list \<Rightarrow> rating list \<Rightarrow> (real \<times> real) list" where
  "pairs_of u1 u2 =
     map (\<lambda>r1. (stars r1, case find (\<lambda>r2. movieId r2 = movieId r1) u2 of
                              Some r2 \<Rightarrow> stars r2 | None \<Rightarrow> 0))
       (filter (\<lambda>r1. list_ex (\<lambda>r2. movieId r2 = movieId r1) u2) u1)"

definition commonMovies :: "rating list \<Rightarrow> rating list \<Rightarrow> rating list" where
  "commonMovies user1Ratings user2Ratings =
     filter (\<lambda>r1. list_ex (\<lambda>r2. movieId r2 = movieId r1) user2Ratings) user1Ratings"

definition sharedRating :: "rating list \<Rightarrow> rating \<Rightarrow> real" where
  "sharedRating user2Ratings r1 =
     (case find (\<lambda>r2. movieId r2 = movieId r1) user2Ratings of
        Some r2 \<Rightarrow> stars r2 | None \<Rightarrow> 0)"

definition starsAt :: "rating list \<Rightarrow> string \<Rightarrow> real" where
  "starsAt u m = (case find (\<lambda>r. movieId r = m) u of Some r \<Rightarrow> stars r | None \<Rightarrow> 0)"

text \<open>
  A movie the popularity fallback keeps, the quality score it sorts by, and a subject
  with zero ratings: none among all ratings, none returned for the subject (a rejected
  query has none to show).
\<close>

definition popular :: "movie \<Rightarrow> bool" where
  "popular m = (case movie_rating m of Some r \<Rightarrow> 7 \<le> r | None \<Rightarrow> False)"

definition quality :: "movie \<Rightarrow> real" where
  "quality m = (case movie_rating m of Some r \<Rightarrow> r | None \<Rightarrow> 0)"

definition noRatings :: "database \<Rightarrow> string \<Rightarrow> bool" where
  "noRatings db u =
     ((case getAllRatings db of Some rs \<Rightarrow> list_all (\<lambda>r. userId r \<noteq> u) rs | None \<Rightarrow> True)
      \<and> (case getUserRatings db u of Some rs \<Rightarrow> rs = [] | None \<Rightarrow> True))"

text \<open>
  Scores: the real a number holds, a number between two bounds (NaN and the infinities
  are between none), a list of recommendations in descending order of score, and the
  condition on one accumulated vote \<open>(sum, count)\<close> of the collaborative recommender
  that the proofs maintain. \<open>contentCandidates\<close> and \<open>collaborativeCandidates\<close> are the lists the
  content and the collaborative recommender sort.
\<close>

definition num_val :: "number \<Rightarrow> real" where
  "num_val n = (case n of Num x \<Rightarrow> x | _ \<Rightarrow> 0)"

definition score_between :: "real \<Rightarrow> real \<Rightarrow> number \<Rightarrow> bool" where
  "score_between lo hi n = (case n of Num x \<Rightarrow> lo \<le> x \<and> x \<le> hi | _ \<Rightarrow> False)"

definition descending :: "'r recommendation list \<Rightarrow> bool" where
  "descending rs = sorted_wrt (\<lambda>a b. num_ge (score a) (score b)) rs"

definition is_Num :: "number \<Rightarrow> bool" where
  "is_Num n = (case n of Num x \<Rightarrow> True | _ \<Rightarrow> False)"

definition vote_ok :: "real \<Rightarrow> number \<times> nat \<Rightarrow> bool" where
  "vote_ok H e = (case e of (t, n) \<Rightarrow> 1 \<le> n \<and> (\<exists>x. t = Num x \<and> 1.2 * real n < x \<and> x \<le> H * real n))"

definition collaborativeCandidates ::
    "string \<Rightarrow> similar_user list \<Rightarrow> rating list \<Rightarrow> movie list \<Rightarrow> string recommendation list" where
  "collaborativeCandidates targetUserId similarUsers allRatings allMovies =
     (let targetUserRatings = filter (\<lambda>r. userId r = targetUserId) allRatings;
          watchedMovieIds = set (map movieId targetUserRatings);
          movieScores = foldl (collectVotes watchedMovieIds allRatings) [] similarUsers
      in concat (map (\<lambda>(mid, sc, cnt).
                        case find (\<lambda>m. movie_id m = mid) allMovies of
                          Some m \<Rightarrow> [\<lparr>movie = m, score = sc / Num (real cnt),
                                      reason = similarUsersReason cnt\<rparr>]
                        | None \<Rightarrow> [])
                   movieScores))"

definition contentCandidates :: "rating list \<Rightarrow> movie list \<Rightarrow> movie list \<Rightarrow> string recommendation list" where
  "contentCandidates userRatings likedMovies allMovies =
     map (\<lambda>m. \<lparr>movie = m, score = calculateContentSimilarity m likedMovies,
                  reason = generateContentReason m likedMovies\<rparr>)
       (filter (\<lambda>m. \<not> list_ex (\<lambda>r. movieId r = movie_id m) userRatings) allMovies)"

text \<open>The ratings of the example of the specification, and a pair of correlated users.\<close>

definition U1_ratings :: "rating list" where
  "U1_ratings =
     [\<lparr>userId = ''U1'', movieId = ''M1'', stars = 5, liked = True\<rparr>,
      \<lparr>userId = ''U1'', movieId = ''M2'', stars = 5, liked = True\<rparr>]"

definition U2_ratings :: "rating list" where
  "U2_ratings =
     [\<lparr>userId = ''U2'', movieId = ''M1'', stars = 5, liked = False\<rparr>,
      \<lparr>userId = ''U2'', movieId = ''M2'', stars = 4, liked = False\<rparr>,
      \<lparr>userId = ''U2'', movieId = ''M3'', stars = 5, liked = True\<rparr>]"

definition U3_ratings :: "rating list" where
  "U3_ratings =
     [\<lparr>userId = ''U3'', movieId = ''M3'', stars = 2, liked = False\<rparr>]"

text \<open>The identifier under which the hybrid recommender files a recommendation, and the
  entries it stores for an item of the collaborative list and for an item of both lists.\<close>

definition rid :: "'r recommendation \<Rightarrow> string" where
  "rid r = movie_id (movie r)"

definition weightedCollaborative :: "string recommendation \<Rightarrow> string recommendation" where
  "weightedCollaborative c =
     c\<lparr>score := score c * Num 0.6, reason := reason c @ '' (collaborative filtering)''\<rparr>"

definition mergedBoth :: "string recommendation \<Rightarrow> string recommendation \<Rightarrow> string recommendation" where
  "mergedBoth c k =
     \<lparr>movie = movie c,
      score = (score c * Num 0.6 + score k * Num 0.4) / Num 1.4,
      reason = reason c @ '' (collaborative filtering)'' @ '' + content similarity''\<rparr>"

text \<open>The movies of a successful response, in order.\<close>

definition recommendedMovies :: "response \<Rightarrow> movie list" where
  "recommendedMovies r = (case r of Success recs \<Rightarrow> map movie recs | _ \<Rightarrow> [])"

text \<open>
  The elements of a list in the order of their first occurrence, and the ratings that
  vote in \<open>getRecommendationsFromSimilarUsers\<close>: neighbour after neighbour in the order
  of the neighbourhood, each neighbour's liked ratings of at least 4 on movies the target
  user has not rated, in the order of \<open>allRatings\<close>.
\<close>

definition firstOccurrences :: "'a list \<Rightarrow> 'a list" where
  "firstOccurrences xs = rev (remdups (rev xs))"

definition votingRatings :: "string \<Rightarrow> similar_user list \<Rightarrow> rating list \<Rightarrow> rating list" where
  "votingRatings targetUserId similarUsers allRatings =
     concat (map (\<lambda>su. filter (\<lambda>r. userId r = user_id (user su) \<and> liked r \<and> 4 \<le> stars r
                                  \<and> \<not> list_ex (\<lambda>t. userId t = targetUserId \<and> movieId t = movieId r)
                                         allRatings)
                         allRatings)
               similarUsers)"

text \<open>The strategy names the route accepts, as query values, and a non-positive number.\<close>

definition knownStrategies :: "qvalue set" where
  "knownStrategies = QStr ` {''hybrid'', ''collaborative'', ''content'', ''ai''}"

definition nonPositive :: "number \<Rightarrow> bool" where
  "nonPositive n = (n = NegInf \<or> (\<exists>x. n = Num x \<and> x \<le> 0))"

section \<open>Example data\<close>

definition movie1 :: movie where
  "movie1 = \<lparr>movie_id = ''m1'', title = ''Inception'', genre = [''action'', ''sci-fi''], year = 2010,
              director = Some ''Christopher Nolan'', movie_rating = Some 8.8\<rparr>"

definition movie2 :: movie where
  "movie2 = \<lparr>movie_id = ''m2'', title = ''Tenet'', genre = [''sci-fi''], year = 2012,
              director = Some ''Christopher Nolan'', movie_rating = Some 8.5\<rparr>"

definition movie_low :: movie where
  "movie_low = \<lparr>movie_id = ''m3'', title = ''Sharknado'', genre = [''action''], year = 2013,
                 director = None, movie_rating = Some 6.5\<rparr>"

text \<open>Two movies that differ in identifier and title only.\<close>

definition movie_a :: movie where
  "movie_a = \<lparr>movie_id = ''ma'', title = ''Interstellar'', genre = [''sci-fi''], year = 2012,
               director = Some ''Christopher Nolan'', movie_rating = Some 8.5\<rparr>"

definition movie_b :: movie where
  "movie_b = \<lparr>movie_id = ''mb'', title = ''Tenet'', genre = [''sci-fi''], year = 2012,
               director = Some ''Christopher Nolan'', movie_rating = Some 8.5\<rparr>"

definition user1 :: user where
  "user1 = \<lparr>user_id = ''u1'', username = ''ann''\<rparr>"

text \<open>A database with one user, who has rated one movie: nobody to be similar to.\<close>

definition db_lonely :: database where
  "db_lonely =
     \<lparr>getAllRatings = Some [\<lparr>userId = ''u1'', movieId = ''m1'', stars = 5, liked = True\<rparr>],
      getAllUsers = Some [user1],
      getUserRatings = (\<lambda>uid. Some (if uid = ''u1''
                         then [\<lparr>userId = ''u1'', movieId = ''m1'', stars = 5, liked = True\<rparr>] else [])),
      getMovieById = (\<lambda>mid. Some (if mid = ''m1'' then Some movie1
                                   else if mid = ''m2'' then Some movie2 else None)),
      getMovies = Some [movie1, movie2],
      getUserById = (\<lambda>uid. Some (if uid = ''u1'' then Some user1 else None))\<rparr>"

text \<open>A database in which nobody has rated anything.\<close>

definition db_empty :: database where
  "db_empty =
     \<lparr>getAllRatings = Some [],
      getAllUsers = Some [user1],
      getUserRatings = (\<lambda>uid. Some []),
      getMovieById = (\<lambda>mid. Some (if mid = ''m1'' then Some movie1
                                   else if mid = ''m2'' then Some movie2
                                   else if mid = ''m3'' then Some movie_low else None)),
      getMovies = Some [movie_low, movie2, movie1],
      getUserById = (\<lambda>uid. Some (if uid = ''u1'' then Some user1 else None))\<rparr>"

text \<open>
  The library operations on the strings and the answer the examples use: \<open>Number("0")\<close>
  is \<open>0\<close>, \<open>Number("5")\<close> is \<open>5\<close>, the other strings of the examples are not numeric;
  the answer is the JSON text of one recommendation whose score is the string \<open>high\<close>.
\<close>

definition answer_high :: string where
  \<open>answer_high = ''[{"movieId":"m1","score":"high"}]''\<close>

definition rt_example :: ecmascript where
  "rt_example =
     \<lparr>StringToNumber = (\<lambda>s. if s = ''0'' then Num 0 else if s = ''5'' then Num 5 else NaN),
      ArrayToNumber = (\<lambda>xs. Some NaN),
      parseCleaned = (\<lambda>s. if s = answer_high
                           then Some (JArr [JObj [(''movieId'', JStr ''m1''), (''score'', JStr ''high'')]])
                           else None)\<rparr>"

text \<open>
  Two users who agree on two movies; the second also likes a third.
\<close>

definition pair_ratings :: "rating list" where
  "pair_ratings =
     [\<lparr>userId = ''u1'', movieId = ''m1'', stars = 1, liked = False\<rparr>,
      \<lparr>userId = ''u1'', movieId = ''m2'', stars = 2, liked = False\<rparr>,
      \<lparr>userId = ''u2'', movieId = ''m1'', stars = 1, liked = False\<rparr>,
      \<lparr>userId = ''u2'', movieId = ''m2'', stars = 2, liked = False\<rparr>,
      \<lparr>userId = ''u2'', movieId = ''m3'', stars = 5, liked = True\<rparr>]"

definition user2 :: user where
  "user2 = \<lparr>user_id = ''u2'', username = ''bob''\<rparr>"

definition db_pair :: database where
  "db_pair =
     \<lparr>getAllRatings = Some pair_ratings,
      getAllUsers = Some [user1, user2],
      getUserRatings = (\<lambda>uid. Some (filter (\<lambda>r. userId r = uid) pair_ratings)),
      getMovieById = (\<lambda>mid. Some (if mid = ''m1'' then Some movie1
                                   else if mid = ''m2'' then Some movie2
                                   else if mid = ''m3'' then Some movie_low else None)),
      getMovies = Some [movie1, movie2, movie_low],
      getUserById = (\<lambda>uid. Some (if uid = ''u1'' then Some user1
                                   else if uid = ''u2'' then Some user2 else None))\<rparr>"

definition req_unknown :: request where
  "req_unknown = \<lparr>withinRateLimit = True, authorization = TokenFor ''u1'',
                   query = [''algorithm'' \<mapsto> QStr ''popular'']\<rparr>"

definition req_zero :: request where
  "req_zero = \<lparr>withinRateLimit = True, authorization = TokenFor ''u1'',
                query = [''limit'' \<mapsto> QStr ''0'']\<rparr>"

definition req_ok :: request where
  "req_ok = \<lparr>withinRateLimit = True, authorization = TokenFor ''u1'',
              query = [''algorithm'' \<mapsto> QStr ''collaborative'', ''limit'' \<mapsto> QStr ''5'']\<rparr>"

definition cache0 :: cache where
  "cache0 = setMovies [] (setRecommendations ''u2'' ''hybrid'' []
              (setRecommendations ''u1'' ''hybrid'' [] []))"

definition cacheAB :: cache where
  "cacheAB = setRecommendations ''a-b'' ''hybrid'' [] []"

text \<open>A cache holding, for one subject, a strategy's list and an AI answer, and a genre list.\<close>

definition cacheAI :: cache where
  "cacheAI = setGenreRecommendations ''action'' []
               (setAIResponse ''u1'' [''m2'', ''m1''] []
                  (setRecommendations ''u1'' ''ai'' [] []))"

text \<open>Two users who agree on two movies; the second also likes a third.\<close>

definition both_ratings :: "rating list" where
  "both_ratings =
     [\<lparr>userId = ''u1'', movieId = ''m1'', stars = 4, liked = True\<rparr>,
      \<lparr>userId = ''u1'', movieId = ''m2'', stars = 5, liked = True\<rparr>,
      \<lparr>userId = ''u2'', movieId = ''m1'', stars = 4, liked = True\<rparr>,
      \<lparr>userId = ''u2'', movieId = ''m2'', stars = 5, liked = True\<rparr>,
      \<lparr>userId = ''u2'', movieId = ''m3'', stars = 5, liked = True\<rparr>]"

definition db_both :: database where
  "db_both =
     \<lparr>getAllRatings = Some both_ratings,
      getAllUsers = Some [user1, user2],
      getUserRatings = (\<lambda>uid. Some (filter (\<lambda>r. userId r = uid) both_ratings)),
      getMovieById = (\<lambda>mid. Some (if mid = ''m1'' then Some movie1
                                   else if mid = ''m2'' then Some movie2
                                   else if mid = ''m3'' then Some movie_low else None)),
      getMovies = Some [movie1, movie2, movie_low],
      getUserById = (\<lambda>uid. Some (if uid = ''u1'' then Some user1
                                   else if uid = ''u2'' then Some user2 else None))\<rparr>"

text \<open>A validated query that asks for the AI strategy.\<close>

definition query_ai :: recommendation_query where
  "query_ai = \<lparr>limit = None, genres = None, excludeWatched = None, minYear = None,
               maxYear = None, algorithm = Some ''ai''\<rparr>"

text \<open>
  Two users who agree on two movies; the second also likes the two movies that differ in
  identifier only, and rated \<open>mb\<close> before \<open>ma\<close>.
\<close>

definition tie_ratings :: "rating list" where
  "tie_ratings =
     [\<lparr>userId = ''u1'', movieId = ''m1'', stars = 4, liked = True\<rparr>,
      \<lparr>userId = ''u1'', movieId = ''m2'', stars = 5, liked = True\<rparr>,
      \<lparr>userId = ''u2'', movieId = ''m1'', stars = 4, liked = True\<rparr>,
      \<lparr>userId = ''u2'', movieId = ''m2'', stars = 5, liked = True\<rparr>,
      \<lparr>userId = ''u2'', movieId = ''mb'', stars = 5, liked = True\<rparr>,
      \<lparr>userId = ''u2'', movieId = ''ma'', stars = 5, liked = True\<rparr>]"

definition db_tie :: database where
  "db_tie =
     \<lparr>getAllRatings = Some tie_ratings,
      getAllUsers = Some [user1, user2],
      getUserRatings = (\<lambda>uid. Some (filter (\<lambda>r. userId r = uid) tie_ratings)),
      getMovieById = (\<lambda>mid. Some (if mid = ''m1'' then Some movie1
                                   else if mid = ''m2'' then Some movie2
                                   else if mid = ''ma'' then Some movie_a
                                   else if mid = ''mb'' then Some movie_b else None)),
      getMovies = Some [movie1, movie2, movie_a, movie_b],
      getUserById = (\<lambda>uid. Some (if uid = ''u1'' then Some user1
                                   else if uid = ''u2'' then Some user2 else None))\<rparr>"

text \<open>Two users with three shared movies, rated 2, 1, 1 and 4, 3, 3.\<close>

definition triple_a :: "rating list" where
  "triple_a =
     [\<lparr>userId = ''u1'', movieId = ''m1'', stars = 2, liked = False\<rparr>,
      \<lparr>userId = ''u1'', movieId = ''m2'', stars = 1, liked = False\<rparr>,
      \<lparr>userId = ''u1'', movieId = ''m3'', stars = 1, liked = False\<rparr>]"

definition triple_b :: "rating list" where
  "triple_b =
     [\<lparr>userId = ''u2'', movieId = ''m1'', stars = 4, liked = True\<rparr>,
      \<lparr>userId = ''u2'', movieId = ''m2'', stars = 3, liked = False\<rparr>,
      \<lparr>userId = ''u2'', movieId = ''m3'', stars = 3, liked = False\<rparr>]"

section \<open>Verification: sorting and slicing\<close>

lemma mset_js_insort: "mset (js_insort cmp x ys) = add_mset x (mset ys)"
  by (induction ys) simp_all

lemma mset_js_sort: "mset (js_sort cmp xs) = mset xs"
  unfolding js_sort_def by (induction xs) (simp_all add: mset_js_insort)

lemma set_js_sort: "set (js_sort cmp xs) = set xs"
  by (metis mset_js_sort set_mset_mset)

lemma length_js_sort: "length (js_sort cmp xs) = length xs"
  by (metis mset_js_sort size_mset)

lemma js_insort_insort_key:
  assumes "\<forall>y \<in> set ys. cmp x y = Num (k x - k y)"
  shows "js_insort cmp x ys = insort_key k x ys"
  using assms by (induction ys) auto

lemma js_sort_sort_key:
  fixes k :: "'a \<Rightarrow> real"
  assumes "\<forall>x \<in> set xs. \<forall>y \<in> set xs. cmp x y = Num (k x - k y)"
  shows "js_sort cmp xs = sort_key k xs"
  using assms
proof (induction xs)
  case Nil
  show ?case by (simp add: js_sort_def)
next
  case (Cons x xs)
  then have IH: "js_sort cmp xs = sort_key k xs" by simp
  have "js_sort cmp (x # xs) = js_insort cmp x (js_sort cmp xs)" by (simp add: js_sort_def)
  also have "\<dots> = insort_key k x (js_sort cmp xs)"
    using Cons.prems by (intro js_insort_insort_key) (simp add: set_js_sort)
  finally show ?case by (simp add: IH)
qed

lemma slice0_take: "\<exists>n. slice0 xs lmt = take n xs"
  by (auto simp: slice0_def)

lemma set_slice0: "set (slice0 xs lmt) \<subseteq> set xs"
  by (auto simp: slice0_def dest: in_set_takeD)

lemma slice0_nonneg: "0 \<le> lmt \<Longrightarrow> slice0 xs lmt = take (nat lmt) xs"
  by (simp add: slice0_def)

section \<open>Verification: user similarity\<close>

lemma foldl_add_sum_list: "foldl (\<lambda>a b. a + f b) (s::real) xs = s + sum_list (map f xs)"
  by (induction xs arbitrary: s) simp_all

lemma foldl_zip_sum_list:
  "foldl (\<lambda>acc (r1, r2). acc + r1 * r2) (s::real) ps = s + sum_list (map (\<lambda>p. fst p * snd p) ps)"
  by (induction ps arbitrary: s) (simp_all add: case_prod_beta)

lemma cs_step:
  fixes s a b A B :: real
  assumes "s\<^sup>2 \<le> A * B" "0 \<le> A" "0 \<le> B"
  shows "(s + a * b)\<^sup>2 \<le> (A + a\<^sup>2) * (B + b\<^sup>2)"
proof -
  let ?X = "A * b\<^sup>2" and ?Y = "B * a\<^sup>2"
  have XY: "0 \<le> ?X" "0 \<le> ?Y" using assms by simp_all
  have "(s * a * b)\<^sup>2 = s\<^sup>2 * (a\<^sup>2 * b\<^sup>2)" by (simp add: power_mult_distrib)
  also have "\<dots> \<le> (A * B) * (a\<^sup>2 * b\<^sup>2)"
    by (rule mult_right_mono[OF assms(1)]) simp
  also have "\<dots> = ?X * ?Y" by (simp add: algebra_simps)
  finally have 1: "(s * a * b)\<^sup>2 \<le> ?X * ?Y" .
  have "0 \<le> (?X - ?Y)\<^sup>2" by simp
  then have 2: "4 * (?X * ?Y) \<le> (?X + ?Y)\<^sup>2" by (simp add: power2_eq_square algebra_simps)
  have "(2 * (s * a * b))\<^sup>2 = 4 * (s * a * b)\<^sup>2" by (simp add: power_mult_distrib)
  also have "\<dots> \<le> 4 * (?X * ?Y)" using 1 by simp
  also have "\<dots> \<le> (?X + ?Y)\<^sup>2" by (rule 2)
  finally have "2 * (s * a * b) \<le> ?X + ?Y"
    by (rule power2_le_imp_le) (use XY in simp)
  moreover have "(s + a * b)\<^sup>2 = s\<^sup>2 + 2 * (s * a * b) + a\<^sup>2 * b\<^sup>2"
    by (simp add: power2_eq_square algebra_simps)
  moreover have "(A + a\<^sup>2) * (B + b\<^sup>2) = A * B + (?X + ?Y) + a\<^sup>2 * b\<^sup>2"
    by (simp add: algebra_simps)
  ultimately show ?thesis using assms(1) by linarith
qed

lemma cauchy_schwarz_list:
  fixes ps :: "(real \<times> real) list"
  shows "(sum_list (map (\<lambda>p. fst p * snd p) ps))\<^sup>2
       \<le> sum_list (map (\<lambda>p. (fst p)\<^sup>2) ps) * sum_list (map (\<lambda>p. (snd p)\<^sup>2) ps)"
proof (induction ps)
  case Nil show ?case by simp
next
  case (Cons p ps)
  have A: "0 \<le> sum_list (map (\<lambda>p. (fst p)\<^sup>2) ps)" by (rule sum_list_nonneg) auto
  have B: "0 \<le> sum_list (map (\<lambda>p. (snd p)\<^sup>2) ps)" by (rule sum_list_nonneg) auto
  show ?case using cs_step[OF Cons.IH A B, of "fst p" "snd p"] by (simp add: add.commute)
qed

lemma centered_prod_sum:
  fixes ps :: "(real \<times> real) list"
  shows "sum_list (map (\<lambda>p. (fst p - c) * (snd p - d)) ps)
       = sum_list (map (\<lambda>p. fst p * snd p) ps) - d * sum_list (map fst ps)
         - c * sum_list (map snd ps) + real (length ps) * c * d"
  by (induction ps) (simp_all add: algebra_simps)

lemma similarity_pairs:
  "calculateUserSimilarity u1 u2 =
     (let ps = pairs_of u1 u2 in
      if length ps < 2 then Num 0
      else pearson (real (length ps)) (sum_list (map fst ps)) (sum_list (map snd ps))
             (sum_list (map (\<lambda>p. fst p * fst p) ps)) (sum_list (map (\<lambda>p. snd p * snd p) ps))
             (sum_list (map (\<lambda>p. fst p * snd p) ps)))"
  by (simp add: calculateUserSimilarity_def pairs_of_def pearson_def Let_def
      foldl_add_sum_list foldl_zip_sum_list zip_map_map comp_def zip_same_conv_map)

lemma pearson_stats:
  fixes ps :: "(real \<times> real) list"
  assumes "ps \<noteq> []"
  defines "n \<equiv> real (length ps)"
  defines "s1 \<equiv> sum_list (map fst ps)" and "s2 \<equiv> sum_list (map snd ps)"
  defines "q1 \<equiv> sum_list (map (\<lambda>p. fst p * fst p) ps)"
      and "q2 \<equiv> sum_list (map (\<lambda>p. snd p * snd p) ps)"
  defines "p \<equiv> sum_list (map (\<lambda>p. fst p * snd p) ps)"
  shows "0 \<le> q1 - s1 * s1 / n" "0 \<le> q2 - s2 * s2 / n"
    "(p - s1 * s2 / n)\<^sup>2 \<le> (q1 - s1 * s1 / n) * (q2 - s2 * s2 / n)"
proof -
  have n: "0 < n" using assms(1) by (simp add: n_def)
  let ?c = "s1 / n" and ?d = "s2 / n"
  let ?cs = "map (\<lambda>p. (fst p - ?c, snd p - ?d)) ps"
  have gxy: "sum_list (map (\<lambda>p. fst p * snd p) (map (\<lambda>p. (fst p - c, snd p - d)) ps))
             = p - d * s1 - c * s2 + n * c * d" for c d
    using centered_prod_sum[of c d ps] by (simp add: comp_def s1_def s2_def p_def n_def)
  have gxx: "sum_list (map (\<lambda>p. (fst p)\<^sup>2) (map (\<lambda>p. (fst p - c, snd p - d)) ps))
             = q1 - c * s1 - c * s1 + n * c * c" for c d
    using centered_prod_sum[of c c "map (\<lambda>p. (fst p, fst p)) ps"]
    by (simp add: comp_def s1_def q1_def n_def power2_eq_square)
  have gyy: "sum_list (map (\<lambda>p. (snd p)\<^sup>2) (map (\<lambda>p. (fst p - c, snd p - d)) ps))
             = q2 - d * s2 - d * s2 + n * d * d" for c d
    using centered_prod_sum[of d d "map (\<lambda>p. (snd p, snd p)) ps"]
    by (simp add: comp_def s2_def q2_def n_def power2_eq_square)
  have xy: "sum_list (map (\<lambda>p. fst p * snd p) ?cs) = p - s1 * s2 / n"
    unfolding gxy using n by (simp add: field_simps)
  have xx: "sum_list (map (\<lambda>p. (fst p)\<^sup>2) ?cs) = q1 - s1 * s1 / n"
    unfolding gxx using n by (simp add: field_simps)
  have yy: "sum_list (map (\<lambda>p. (snd p)\<^sup>2) ?cs) = q2 - s2 * s2 / n"
    unfolding gyy using n by (simp add: field_simps)
  show "0 \<le> q1 - s1 * s1 / n" unfolding xx[symmetric] by (rule sum_list_nonneg) auto
  show "0 \<le> q2 - s2 * s2 / n" unfolding yy[symmetric] by (rule sum_list_nonneg) auto
  show "(p - s1 * s2 / n)\<^sup>2 \<le> (q1 - s1 * s1 / n) * (q2 - s2 * s2 / n)"
    using cauchy_schwarz_list[of ?cs] unfolding xy xx yy .
qed

lemma pairs_of_alt:
  "pairs_of u1 u2 = map (\<lambda>r1. (stars r1, sharedRating u2 r1)) (commonMovies u1 u2)"
  by (simp add: pairs_of_def commonMovies_def sharedRating_def)

lemma pearson_bounded:
  assumes vx: "0 \<le> q1 - s1 * s1 / n" and vy: "0 \<le> q2 - s2 * s2 / n"
    and cs: "(p - s1 * s2 / n)\<^sup>2 \<le> (q1 - s1 * s1 / n) * (q2 - s2 * s2 / n)"
  shows "\<exists>x. pearson n s1 s2 q1 q2 p = Num x \<and> - 1 \<le> x \<and> x \<le> 1"
proof -
  let ?v = "(q1 - s1 * s1 / n) * (q2 - s2 * s2 / n)"
  let ?num = "p - s1 * s2 / n"
  have v: "0 \<le> ?v" using vx vy by simp
  have le: "\<bar>?num\<bar> \<le> sqrt ?v"
    using cs by (metis real_sqrt_abs real_sqrt_le_iff)
  show ?thesis
  proof (cases "sqrt ?v = 0")
    case True
    then show ?thesis using v by (simp add: pearson_def Let_def)
  next
    case False
    then have pos: "0 < sqrt ?v" using v by (simp add: less_le)
    have "\<bar>?num / sqrt ?v\<bar> \<le> 1" using le pos by (simp add: field_simps)
    then have "- 1 \<le> ?num / sqrt ?v \<and> ?num / sqrt ?v \<le> 1"
      unfolding abs_le_iff by linarith
    moreover have "pearson n s1 s2 q1 q2 p = Num (?num / sqrt ?v)"
      using False v by (simp add: pearson_def Let_def divide_number_def not_less)
    ultimately show ?thesis by blast
  qed
qed

lemma pearson_zero_var:
  "q1 - s1 * s1 / n = 0 \<or> q2 - s2 * s2 / n = 0 \<Longrightarrow> pearson n s1 s2 q1 q2 p = Num 0"
  by (auto simp: pearson_def Let_def)

lemma const_var_zero:
  fixes xs :: "real list"
  assumes "\<forall>x \<in> set xs. x = c" "xs \<noteq> []"
  shows "sum_list (map (\<lambda>x. x * x) xs) - sum_list xs * sum_list xs / real (length xs) = 0"
proof -
  have 1: "sum_list xs = real (length xs) * c"
    using assms(1) by (induction xs) (simp_all add: algebra_simps)
  have 2: "sum_list (map (\<lambda>x. x * x) xs) = real (length xs) * (c * c)"
    using assms(1) by (induction xs) (simp_all add: algebra_simps)
  show ?thesis using assms(2) by (simp add: 1 2)
qed

lemma calculateUserSimilarity_bounded:
  "\<exists>x. calculateUserSimilarity a b = Num x \<and> - 1 \<le> x \<and> x \<le> 1"
proof (cases "length (pairs_of a b) < 2")
  case True
  then show ?thesis by (simp add: similarity_pairs)
next
  case False
  then have ne: "pairs_of a b \<noteq> []" by auto
  show ?thesis
    using False pearson_bounded[OF pearson_stats[OF ne]]
    by (simp add: similarity_pairs Let_def)
qed

text \<open>
  In exact arithmetic the correlation keeps its range: \<open>calculateUserSimilarity\<close>
  always returns a number between \<open>-1\<close> and \<open>1\<close>, never NaN; it returns \<open>0\<close> when fewer
  than two ratings are shared, and \<open>0\<close> when either user's shared ratings are all equal
  (zero variance, so the denominator of the correlation is \<open>0\<close>).
\<close>

theorem calculateUserSimilarity_total:
  "(\<exists>x. calculateUserSimilarity a b = Num x \<and> - 1 \<le> x \<and> x \<le> 1)
   \<and> (length (commonMovies a b) < 2 \<longrightarrow> calculateUserSimilarity a b = Num 0)
   \<and> ((\<exists>c. \<forall>r \<in> set (commonMovies a b). stars r = c)
          \<longrightarrow> calculateUserSimilarity a b = Num 0)
   \<and> ((\<exists>c. \<forall>r \<in> set (commonMovies a b). sharedRating b r = c)
          \<longrightarrow> calculateUserSimilarity a b = Num 0)"
proof (intro conjI impI)
  let ?ps = "pairs_of a b"
  have len: "length ?ps = length (commonMovies a b)" by (simp add: pairs_of_alt)
  show "\<exists>x. calculateUserSimilarity a b = Num x \<and> - 1 \<le> x \<and> x \<le> 1"
    by (rule calculateUserSimilarity_bounded)
  show "calculateUserSimilarity a b = Num 0" if "length (commonMovies a b) < 2"
    using that len by (simp add: similarity_pairs)
  show "calculateUserSimilarity a b = Num 0"
    if "\<exists>c. \<forall>r \<in> set (commonMovies a b). stars r = c"
  proof (cases "length ?ps < 2")
    case True
    then show ?thesis by (simp add: similarity_pairs)
  next
    case False
    then have ne: "map fst ?ps \<noteq> []" by auto
    from that obtain c where "\<forall>x \<in> set (map fst ?ps). x = c"
      by (auto simp: pairs_of_alt)
    from const_var_zero[OF this ne] show ?thesis
      using False by (simp add: similarity_pairs Let_def pearson_zero_var comp_def)
  qed
  show "calculateUserSimilarity a b = Num 0"
    if "\<exists>c. \<forall>r \<in> set (commonMovies a b). sharedRating b r = c"
  proof (cases "length ?ps < 2")
    case True
    then show ?thesis by (simp add: similarity_pairs)
  next
    case False
    then have ne: "map snd ?ps \<noteq> []" by auto
    from that obtain c where "\<forall>x \<in> set (map snd ?ps). x = c"
      by (auto simp: pairs_of_alt)
    from const_var_zero[OF this ne] show ?thesis
      using False by (simp add: similarity_pairs Let_def pearson_zero_var comp_def)
  qed
qed

lemma find_distinct_movieId:
  "distinct (map movieId u) \<Longrightarrow> r \<in> set u \<Longrightarrow> find (\<lambda>r'. movieId r' = movieId r) u = Some r"
  by (induction u) (auto simp: image_iff)

lemma pairs_of_starsAt:
  assumes "distinct (map movieId a)"
  shows "pairs_of a b = map (\<lambda>m. (starsAt a m, starsAt b m)) (map movieId (commonMovies a b))"
  using find_distinct_movieId[OF assms]
  by (auto simp: pairs_of_alt sharedRating_def starsAt_def commonMovies_def)

lemma set_commonMovies:
  "set (map movieId (commonMovies a b)) = movieId ` set a \<inter> movieId ` set b"
proof (intro set_eqI iffI)
  fix m assume "m \<in> set (map movieId (commonMovies a b))"
  then show "m \<in> movieId ` set a \<inter> movieId ` set b"
    by (auto simp: commonMovies_def list_ex_iff) (metis imageI)
next
  fix m assume "m \<in> movieId ` set a \<inter> movieId ` set b"
  then obtain r1 r2 where "r1 \<in> set a" "movieId r1 = m" "r2 \<in> set b" "movieId r2 = m"
    by auto
  then show "m \<in> set (map movieId (commonMovies a b))"
    by (force simp: commonMovies_def list_ex_iff)
qed

lemma distinct_commonMovies:
  "distinct (map movieId a) \<Longrightarrow> distinct (map movieId (commonMovies a b))"
  by (simp add: commonMovies_def distinct_map_filter)

lemma pairs_sum:
  assumes "distinct (map movieId a)"
  shows "sum_list (map g (pairs_of a b))
       = (\<Sum>m \<in> movieId ` set a \<inter> movieId ` set b. g (starsAt a m, starsAt b m))"
proof -
  have "sum_list (map g (pairs_of a b))
        = sum_list (map (\<lambda>m. g (starsAt a m, starsAt b m)) (map movieId (commonMovies a b)))"
    by (simp add: pairs_of_starsAt[OF assms] comp_def)
  also have "\<dots> = sum (\<lambda>m. g (starsAt a m, starsAt b m)) (set (map movieId (commonMovies a b)))"
    by (rule sum_list_distinct_conv_sum_set[OF distinct_commonMovies[OF assms]])
  finally show ?thesis by (simp only: set_commonMovies)
qed

lemma pairs_length:
  assumes "distinct (map movieId a)"
  shows "length (pairs_of a b) = card (movieId ` set a \<inter> movieId ` set b)"
proof -
  have "length (pairs_of a b) = length (map movieId (commonMovies a b))"
    by (simp add: pairs_of_alt)
  also have "\<dots> = card (set (map movieId (commonMovies a b)))"
    by (rule distinct_card[OF distinct_commonMovies[OF assms], symmetric])
  finally show ?thesis by (simp only: set_commonMovies)
qed

lemma pearson_swap: "pearson n s1 s2 q1 q2 p = pearson n s2 s1 q2 q1 p"
  by (simp add: pearson_def mult.commute)

theorem calculateUserSimilarity_total_witness:
  "(\<exists>x. calculateUserSimilarity U1_ratings U2_ratings = Num x \<and> - 1 \<le> x \<and> x \<le> 1)
   \<and> length (commonMovies U1_ratings U3_ratings) < 2
   \<and> calculateUserSimilarity U1_ratings U3_ratings = Num 0
   \<and> length (commonMovies U1_ratings U2_ratings) = 2
   \<and> map stars (commonMovies U1_ratings U2_ratings) = [5, 5]
   \<and> map (sharedRating U2_ratings) (commonMovies U1_ratings U2_ratings) = [5, 4]
   \<and> calculateUserSimilarity U1_ratings U2_ratings = Num 0
   \<and> map (sharedRating U1_ratings) (commonMovies U2_ratings U1_ratings) = [5, 5]
   \<and> calculateUserSimilarity U2_ratings U1_ratings = Num 0"
proof -
  have c12: "commonMovies U1_ratings U2_ratings = U1_ratings"
    by (simp add: commonMovies_def U1_ratings_def U2_ratings_def)
  have c21: "commonMovies U2_ratings U1_ratings = take 2 U2_ratings"
    by (simp add: commonMovies_def U1_ratings_def U2_ratings_def)
  have c13: "commonMovies U1_ratings U3_ratings = []"
    by (simp add: commonMovies_def U1_ratings_def U3_ratings_def)
  have h1: "\<forall>r \<in> set (commonMovies U1_ratings U2_ratings). stars r = 5"
    by (simp add: c12) (simp add: U1_ratings_def)
  have h2: "\<forall>r \<in> set (commonMovies U2_ratings U1_ratings). sharedRating U1_ratings r = 5"
    by (simp add: c21) (simp add: U1_ratings_def U2_ratings_def sharedRating_def)
  have l12: "length (commonMovies U1_ratings U2_ratings) = 2"
    by (simp add: c12) (simp add: U1_ratings_def)
  have m1: "map stars (commonMovies U1_ratings U2_ratings) = [5, 5]"
    by (simp add: c12) (simp add: U1_ratings_def)
  have m2: "map (sharedRating U2_ratings) (commonMovies U1_ratings U2_ratings) = [5, 4]"
    by (simp add: c12) (simp add: U1_ratings_def U2_ratings_def sharedRating_def)
  have m3: "map (sharedRating U1_ratings) (commonMovies U2_ratings U1_ratings) = [5, 5]"
    by (simp add: c21) (simp add: U1_ratings_def U2_ratings_def sharedRating_def)
  from calculateUserSimilarity_total[of U1_ratings U2_ratings]
    calculateUserSimilarity_total[of U2_ratings U1_ratings]
    calculateUserSimilarity_total[of U1_ratings U3_ratings]
    h1 h2 l12 c13 m1 m2 m3
  show ?thesis by auto
qed

text \<open>
  Claim C6. When neither rating vector rates a movie twice, the similarity of \<open>a\<close> to
  \<open>b\<close> is the similarity of \<open>b\<close> to \<open>a\<close>.
\<close>

theorem calculateUserSimilarity_symmetric:
  assumes "distinct (map movieId a)" and "distinct (map movieId b)"
  shows "calculateUserSimilarity a b = calculateUserSimilarity b a"
proof -
  have S: "movieId ` set b \<inter> movieId ` set a = movieId ` set a \<inter> movieId ` set b"
    by (rule Int_commute)
  show ?thesis
    unfolding similarity_pairs Let_def
    unfolding pairs_sum[OF assms(1), where g = fst, unfolded comp_def] 
    apply (simp only: pairs_length[OF assms(1)] pairs_length[OF assms(2)]
        pairs_sum[OF assms(1)] pairs_sum[OF assms(2)] S fst_conv snd_conv)
    apply (subst pearson_swap)
    apply (simp add: mult.commute)
    done
qed

theorem calculateUserSimilarity_symmetric_witness:
  "distinct (map movieId U1_ratings) \<and> distinct (map movieId U2_ratings)
   \<and> calculateUserSimilarity U1_ratings U2_ratings = calculateUserSimilarity U2_ratings U1_ratings"
proof -
  have d1: "distinct (map movieId U1_ratings)" by (simp add: U1_ratings_def)
  have d2: "distinct (map movieId U2_ratings)" by (simp add: U2_ratings_def)
  from calculateUserSimilarity_symmetric[OF d1 d2] d1 d2 show ?thesis by simp
qed

section \<open>Verification: user similarity in binary64\<close>

subsection \<open>Rounding\<close>

lemma pow2_powr: "pow2 e = 2 powr (real_of_int e)"
proof (cases "0 \<le> e")
  case True
  then show ?thesis by (simp add: pow2_def powr_realpow[symmetric])
next
  case False
  then have "2 powr (real_of_int e) = 1 / 2 powr (real (nat (- e)))"
    by (simp add: powr_minus_divide[symmetric])
  with False show ?thesis by (simp add: pow2_def powr_realpow[symmetric])
qed

lemma pow2_pos [simp]: "0 < pow2 e"
  by (simp add: pow2_powr)

lemma pow2_nonneg [simp]: "0 \<le> pow2 e"
  by (simp add: pow2_powr)

lemma abs_pow2 [simp]: "\<bar>pow2 e\<bar> = pow2 e"
  by simp

lemma pow2_add: "pow2 (a + b) = pow2 a * pow2 b"
  by (simp add: pow2_powr powr_add)

lemma pow2_Suc: "pow2 (e + 1) = 2 * pow2 e"
  by (simp add: pow2_powr powr_add)

lemma pow2_pred: "pow2 (e - 1) = pow2 e / 2"
  by (simp add: pow2_powr powr_diff)

lemma pow2_0 [simp]: "pow2 0 = 1"
  by (simp add: pow2_def)

lemma pow2_mono: "a \<le> b \<Longrightarrow> pow2 a \<le> pow2 b"
  by (simp add: pow2_powr)

lemma ilog2_eq:
  assumes "pow2 e \<le> x" "x < pow2 (e + 1)" "\<bar>e\<bar> \<le> int n"
  shows "ilog2 n x = e"
  using assms
proof (induction n arbitrary: x e)
  case 0
  then show ?case by simp
next
  case (Suc n)
  consider "e = 0" | "0 < e" | "e < 0" by linarith
  then show ?case
  proof cases
    case 1
    with Suc.prems have "1 \<le> x" "x < 2" by (simp_all add: pow2_def)
    with 1 show ?thesis by simp
  next
    case 2
    then have "pow2 1 \<le> pow2 e" by (intro pow2_mono) simp
    with Suc.prems(1) have x2: "2 \<le> x" by (simp add: pow2_def)
    have "ilog2 n (x / 2) = e - 1"
    proof (rule Suc.IH)
      show "pow2 (e - 1) \<le> x / 2" using Suc.prems(1) by (simp add: pow2_pred)
      show "x / 2 < pow2 (e - 1 + 1)" using Suc.prems(2) by (simp add: pow2_Suc)
      show "\<bar>e - 1\<bar> \<le> int n" using 2 Suc.prems(3) by simp
    qed
    with x2 show ?thesis by simp
  next
    case 3
    then have "pow2 (e + 1) \<le> pow2 0" by (intro pow2_mono) simp
    with Suc.prems(2) have x1: "x < 1" by simp
    have "ilog2 n (x * 2) = e + 1"
    proof (rule Suc.IH)
      show "pow2 (e + 1) \<le> x * 2" using Suc.prems(1) by (simp add: pow2_Suc)
      show "x * 2 < pow2 (e + 1 + 1)" using Suc.prems(2) pow2_Suc[of "e + 1"] by simp
      show "\<bar>e + 1\<bar> \<le> int n" using 3 Suc.prems(3) by simp
    qed
    with x1 show ?thesis by simp
  qed
qed

lemma rne_eq:
  assumes "of_int k - 1 / 2 < x" "x < of_int k + 1 / 2"
  shows "rne x = k"
proof (cases "of_int k \<le> x")
  case True
  with assms have "\<lfloor>x\<rfloor> = k" by (intro floor_unique) simp_all
  with assms show ?thesis by (simp add: rne_def Let_def)
next
  case False
  with assms have "\<lfloor>x\<rfloor> = k - 1" by (intro floor_unique) simp_all
  with assms False show ?thesis by (simp add: rne_def Let_def)
qed

lemma rne_of_int [simp]: "rne (of_int k) = k"
  by (rule rne_eq) simp_all

lemma fl_normal:
  assumes "pow2 e \<le> \<bar>x\<bar>" "\<bar>x\<bar> < pow2 (e + 1)" "- 1022 \<le> e" "e \<le> 1023"
    and "rne (x / pow2 (e - 52)) = k" "\<bar>real_of_int k * pow2 (e - 52)\<bar> < 2 ^ 1024"
  shows "fl x = Num (of_int k * pow2 (e - 52))"
proof -
  have "x \<noteq> 0" using assms(1) pow2_pos[of e] by (auto simp: not_le[symmetric] simp del: pow2_pos)
  have "ilog2 2200 \<bar>x\<bar> = e"
    using assms(1-4) by (intro ilog2_eq) simp_all
  with assms(3) have "max (ilog2 2200 \<bar>x\<bar>) (- 1022) = e" by simp
  with \<open>x \<noteq> 0\<close> assms(5,6) show ?thesis
    by (simp add: fl_def Let_def)
qed


lemma fl_0 [simp]: "fl 0 = Num 0"
  by (simp add: fl_def)

lemma fl_of_int:
  assumes "\<bar>m\<bar> < 2 ^ 53"
  shows "fl (of_int m) = Num (of_int m)"
proof (cases "m = 0")
  case True
  then show ?thesis by simp
next
  case False
  then have "1 \<le> nat \<bar>m\<bar>" by simp
  from ex_power_ivl1[OF _ this, of 2] obtain n where
    n: "2 ^ n \<le> nat \<bar>m\<bar>" "nat \<bar>m\<bar> < 2 ^ (n + 1)" by auto
  have "nat \<bar>m\<bar> < 2 ^ 53" using assms by (simp add: nat_less_iff)
  with n(1) have "(2::nat) ^ n < 2 ^ 53" by (rule le_less_trans)
  then have "n < 53" by (rule power_less_imp_less_exp[rotated]) simp
  then have n52: "n \<le> 52" by simp
  have lo: "(2::real) ^ n \<le> \<bar>of_int m\<bar>"
  proof -
    from n(1) have "real (2 ^ n) \<le> real (nat \<bar>m\<bar>)" by (simp only: of_nat_le_iff)
    then show ?thesis by simp
  qed
  have hi: "\<bar>real_of_int m\<bar> < 2 ^ (n + 1)"
  proof -
    from n(2) have "real (nat \<bar>m\<bar>) < real (2 ^ (n + 1))" by (simp only: of_nat_less_iff)
    then show ?thesis by simp
  qed
  have p: "pow2 (int n) = 2 ^ n" "pow2 (int n + 1) = 2 ^ (n + 1)"
    by (simp_all add: pow2_def nat_add_distrib)
  have q: "pow2 (int n - 52) = 1 / 2 ^ (52 - n)"
  proof (cases "n = 52")
    case True
    then show ?thesis by simp
  next
    case False
    with n52 have "int n - 52 < 0" "nat (52 - int n) = 52 - n" by simp_all
    then show ?thesis by (simp add: pow2_def)
  qed
  have k: "real_of_int m / pow2 (int n - 52) = of_int (m * 2 ^ (52 - n))"
    by (simp add: q)
  have "fl (of_int m) = Num (of_int (m * 2 ^ (52 - n)) * pow2 (int n - 52))"
  proof (rule fl_normal)
    show "pow2 (int n) \<le> \<bar>real_of_int m\<bar>" using lo by (simp add: p)
    show "\<bar>real_of_int m\<bar> < pow2 (int n + 1)" using hi by (simp add: p)
    show "- 1022 \<le> int n" "int n \<le> 1023" using n52 by simp_all
    show "rne (real_of_int m / pow2 (int n - 52)) = m * 2 ^ (52 - n)"
      unfolding k by (rule rne_of_int)
    have "\<bar>real_of_int (m * 2 ^ (52 - n)) * pow2 (int n - 52)\<bar> = \<bar>real_of_int m\<bar>"
      by (simp add: q)
    also have "\<dots> < 2 ^ 53"
    proof -
      from assms have "real_of_int \<bar>m\<bar> < real_of_int (2 ^ 53)" by (simp only: of_int_less_iff)
      then show ?thesis by simp
    qed
    also have "\<dots> < (2::real) ^ 1024" by simp
    finally show "\<bar>real_of_int (m * 2 ^ (52 - n)) * pow2 (int n - 52)\<bar> < 2 ^ 1024" .
  qed
  then show ?thesis by (simp add: q)
qed

lemma fl_numeral:
  assumes "(numeral w :: int) < 2 ^ 53"
  shows "fl (numeral w) = Num (numeral w)"
  using fl_of_int[of "numeral w"] assms by simp

lemma fl_1 [simp]: "fl 1 = Num 1"
  using fl_of_int[of 1] by simp


lemma fl_val:
  assumes "- 1022 \<le> e" "e \<le> 1023" "\<bar>k\<bar> < 2 ^ 53"
    and "pow2 e \<le> \<bar>x\<bar>" "\<bar>x\<bar> < pow2 (e + 1)"
    and "of_int k - 1 / 2 < x / pow2 (e - 52)" "x / pow2 (e - 52) < of_int k + 1 / 2"
    and "y = of_int k * pow2 (e - 52)"
  shows "fl x = Num y"
proof -
  have "pow2 (e - 52) \<le> pow2 971" using assms(2) by (intro pow2_mono) simp
  then have "pow2 (e - 52) \<le> 2 ^ 971" by (simp add: pow2_def)
  moreover have "\<bar>real_of_int k\<bar> < 2 ^ 53"
  proof -
    from assms(3) have "real_of_int \<bar>k\<bar> < real_of_int (2 ^ 53)" by (simp only: of_int_less_iff)
    then show ?thesis by simp
  qed
  ultimately have "\<bar>real_of_int k\<bar> * pow2 (e - 52) < 2 ^ 53 * 2 ^ 971"
    by (intro mult_less_le_imp_less abs_ge_zero pow2_pos)
  then have "\<bar>real_of_int k * pow2 (e - 52)\<bar> < 2 ^ 1024"
    by (simp add: abs_mult power_add[symmetric])
  from fl_normal[OF assms(4,5,1,2) rne_eq[OF assms(6,7)] this] assms(8)
  show ?thesis by simp
qed

lemma fl_sqrt_val:
  assumes "- 1022 \<le> e" "e \<le> 1023" "2 ^ 52 < k" "k < 2 ^ 53 - 1"
    and "((of_int k - 1 / 2) * pow2 (e - 52))\<^sup>2 < p" "p < ((of_int k + 1 / 2) * pow2 (e - 52))\<^sup>2"
    and "y = of_int k * pow2 (e - 52)"
  shows "fl (sqrt p) = Num y"
proof -
  let ?q = "pow2 (e - 52)"
  have k1: "2 ^ 52 \<le> real_of_int k - 1 / 2"
  proof -
    from assms(3) have "2 ^ 52 + 1 \<le> k" by simp
    then have "real_of_int (2 ^ 52 + 1) \<le> real_of_int k" by (simp only: of_int_le_iff)
    then show ?thesis by simp
  qed
  have k2: "real_of_int k + 1 / 2 \<le> 2 ^ 53"
  proof -
    from assms(4) have "k + 1 \<le> 2 ^ 53 - 1" by simp
    then have "real_of_int (k + 1) \<le> real_of_int (2 ^ 53 - 1)" by (simp only: of_int_le_iff)
    then show ?thesis by simp
  qed
  have "pow2 e = pow2 ((e - 52) + 52)" by simp
  also have "\<dots> = ?q * pow2 52" by (rule pow2_add)
  also have "\<dots> = 2 ^ 52 * ?q" by (simp add: pow2_def)
  finally have q1: "pow2 e = 2 ^ 52 * ?q" .
  have q2: "pow2 (e + 1) = 2 ^ 53 * ?q"
    unfolding pow2_Suc q1 by simp
  have lo: "(of_int k - 1 / 2) * ?q < sqrt p"
    using assms(5) by (rule real_less_rsqrt)
  have "0 \<le> real_of_int k + 1 / 2" using k1 by simp
  then have "0 \<le> (of_int k + 1 / 2) * ?q" by (intro mult_nonneg_nonneg) simp_all
  then have hi: "sqrt p < (of_int k + 1 / 2) * ?q"
    using assms(6) by (rule real_less_lsqrt)
  have m1: "2 ^ 52 * ?q \<le> (of_int k - 1 / 2) * ?q" using k1 by (intro mult_right_mono) simp_all
  have m2: "(of_int k + 1 / 2) * ?q \<le> 2 ^ 53 * ?q" using k2 by (intro mult_right_mono) simp_all
  have "0 \<le> 2 ^ 52 * ?q" by simp
  also note m1
  also note lo
  finally have sp: "0 \<le> sqrt p" by (rule less_imp_le)
  have "2 ^ 52 * ?q \<le> sqrt p" by (rule order.trans[OF m1 less_imp_le[OF lo]])
  then have b1: "pow2 e \<le> \<bar>sqrt p\<bar>" using sp by (simp only: q1 abs_of_nonneg)
  have "sqrt p < 2 ^ 53 * ?q" by (rule less_le_trans[OF hi m2])
  then have b2: "\<bar>sqrt p\<bar> < pow2 (e + 1)" using sp by (simp only: q2 abs_of_nonneg)
  have r1: "of_int k - 1 / 2 < sqrt p / ?q" using lo by (simp add: pos_less_divide_eq)
  have r2: "sqrt p / ?q < of_int k + 1 / 2" using hi by (simp add: pos_divide_less_eq)
  have "\<bar>k\<bar> < 2 ^ 53" using assms(3,4) by simp
  from fl_val[OF assms(1,2) this b1 b2 r1 r2 assms(7)] show ?thesis .
qed

subsection \<open>The correlation of the ratings 2, 1, 1 and 4, 3, 3\<close>

text \<open>
  The roundings of the computation: \<open>40/3\<close>, \<open>14 - fl (40/3)\<close>, \<open>16/3\<close>,
  \<open>6 - fl (16/3)\<close>, \<open>100/3\<close>, \<open>34 - fl (100/3)\<close>, the product of the two
  differences, its square root, and the quotient.
\<close>

lemma fl_a: "fl (40 / 3) = Num (7505999378950827 / 562949953421312)"
  by (rule fl_val[where e = "3" and k = 7505999378950827]) (simp_all add: pow2_def)

lemma fl_num: "fl (375299968947541 / 562949953421312) = Num (375299968947541 / 562949953421312)"
  by (rule fl_val[where e = "-1" and k = 6004799503160656]) (simp_all add: pow2_def)

lemma fl_b: "fl (16 / 3) = Num (6004799503160661 / 1125899906842624)"
  by (rule fl_val[where e = "2" and k = 6004799503160661]) (simp_all add: pow2_def)

lemma fl_v1: "fl (750599937895083 / 1125899906842624) = Num (750599937895083 / 1125899906842624)"
  by (rule fl_val[where e = "-1" and k = 6004799503160664]) (simp_all add: pow2_def)

lemma fl_c: "fl (100 / 3) = Num (4691249611844267 / 140737488355328)"
  by (rule fl_val[where e = "5" and k = 4691249611844267]) (simp_all add: pow2_def)

lemma fl_v2: "fl (93824992236885 / 140737488355328) = Num (93824992236885 / 140737488355328)"
  by (rule fl_val[where e = "-1" and k = 6004799503160640]) (simp_all add: pow2_def)

lemma fl_p: "fl (70425033346012525602612736455 / 158456325028528675187087900672) = Num (2001599834386881 / 4503599627370496)"
  by (rule fl_val[where e = "-2" and k = 8006399337547524]) (simp_all add: pow2_def)

lemma fl_r: "fl (1501199875790164 / 1501199875790163) = Num (4503599627370499 / 4503599627370496)"
  by (rule fl_val[where e = "0" and k = 4503599627370499]) (simp_all add: pow2_def)

lemma fl_d: "fl (sqrt (2001599834386881 / 4503599627370496)) = Num (1501199875790163 / 2251799813685248)"
  by (rule fl_sqrt_val[where e = "-1" and k = 6004799503160652]) (simp_all add: pow2_def power2_eq_square)

lemma similarity64_triple:
  "calculateUserSimilarity64 triple_a triple_b = Num (4503599627370499 / 4503599627370496)"
  by (simp add: calculateUserSimilarity64_def triple_a_def triple_b_def Let_def
      dadd_def dsub_def dmul_def ddiv_def dsqrt_def rounded_def
      plus_number_def minus_number_def times_number_def divide_number_def
      fl_numeral fl_a fl_num fl_b fl_v1 fl_c fl_v2 fl_p fl_d fl_r)

lemma similarity_triple:
  "calculateUserSimilarity triple_a triple_b = Num 1"
  by (simp add: calculateUserSimilarity_def triple_a_def triple_b_def Let_def
      divide_number_def real_sqrt_divide)

lemma fl_81_2: "fl (81 / 2) = Num (81 / 2)"
  by (rule fl_val[where e = "5" and k = 5699868278390784]) (simp_all add: pow2_def)

lemma fl_half: "fl (1 / 2) = Num (1 / 2)"
  by (rule fl_val[where e = "-1" and k = 4503599627370496]) (simp_all add: pow2_def)

text \<open>
  The function returns \<open>0\<close> in binary64 too when fewer than two ratings are shared, and
  on the example of the specification, shared ratings 5, 5 against 5, 4.
\<close>

lemma similarity64_few_shared:
  "length (commonMovies a b) < 2 \<Longrightarrow> calculateUserSimilarity64 a b = Num 0"
  by (simp add: calculateUserSimilarity64_def commonMovies_def)

lemma similarity64_zero_variance:
  "calculateUserSimilarity64 U1_ratings U2_ratings = Num 0"
  by (simp add: calculateUserSimilarity64_def U1_ratings_def U2_ratings_def Let_def
      dadd_def dsub_def dmul_def ddiv_def dsqrt_def rounded_def
      plus_number_def minus_number_def times_number_def divide_number_def
      fl_numeral fl_81_2 fl_half)

text \<open>
  Claim C5: the similarity is a number in \<open>[-1, 1]\<close>. The source computes it in doubles
  and does not clamp the quotient. For shared ratings 2, 1, 1 against 4, 3, 3 the
  numerator is rounded to \<open>0.6666666666666661\<close> and the denominator to
  \<open>0.6666666666666656\<close>, and the function returns \<open>1 + 3 / 2 ^ 52\<close>, which prints as
  \<open>1.0000000000000007\<close>; in exact arithmetic the correlation of these ratings is \<open>1\<close>.
\<close>

theorem similarity64_exceeds_one:
  "calculateUserSimilarity64 triple_a triple_b = Num (1 + 3 / 2 ^ 52)
   \<and> num_gt (Num (1 + 3 / 2 ^ 52)) (Num 1)
   \<and> \<not> score_between (- 1) 1 (calculateUserSimilarity64 triple_a triple_b)
   \<and> calculateUserSimilarity triple_a triple_b = Num 1"
  using similarity64_triple similarity_triple by (simp add: score_between_def)

section \<open>Verification: cache invalidation\<close>

lemma map_of_fold_del:
  "map_of (foldl (\<lambda>c2 key. if P key then cache_del key c2 else c2) c keys) k
     = (if k \<in> set keys \<and> P k then None else map_of c k)"
  by (induction keys arbitrary: c) (auto simp: cache_del_def delete_conv')

lemma cache_get_sweep:
  "cache_get (foldl (\<lambda>c2 key. if P key then cache_del key c2 else c2) c (cache_keys c)) k
     = (if P k then None else cache_get c k)"
  unfolding cache_get_def map_of_fold_del cache_keys_def
  by (auto simp: map_of_eq_None_iff)

lemma cache_get_invalidateUserRecommendations:
  "cache_get (invalidateUserRecommendations uid c) k
     = (if startsWith k (''recommendations-'' @ uid @ ''-'') then None else cache_get c k)"
  unfolding invalidateUserRecommendations_def Let_def by (rule cache_get_sweep)

lemma cache_get_invalidateAllRecommendations:
  "cache_get (invalidateAllRecommendations c) k
     = (if startsWith k ''recommendations-'' then None else cache_get c k)"
  unfolding invalidateAllRecommendations_def Let_def by (rule cache_get_sweep)

lemma startsWith_append: "startsWith (p @ s) (p @ t) = startsWith s t"
  by (simp add: startsWith_def)

lemma startsWith_key_all: "startsWith (recommendationsKey uid alg) ''recommendations-''"
  by (simp add: startsWith_def recommendationsKey_def)

lemma startsWith_key_own:
  "startsWith (recommendationsKey uid alg) (''recommendations-'' @ uid @ ''-'')"
  by (simp add: startsWith_def recommendationsKey_def)

lemma hyphen_free_prefix:
  assumes "CHR ''-'' \<notin> set u" "CHR ''-'' \<notin> set v" "take (length (u @ ''-'')) (v @ ''-'' @ a) = u @ ''-''"
  shows "v = u"
  using assms
proof (induction u arbitrary: v)
  case Nil
  then show ?case by (cases v) auto
next
  case (Cons x u)
  then show ?case by (cases v) auto
qed

lemma startsWith_key_other:
  assumes "CHR ''-'' \<notin> set uid" "CHR ''-'' \<notin> set uid'" "uid' \<noteq> uid"
  shows "\<not> startsWith (recommendationsKey uid' alg) (''recommendations-'' @ uid @ ''-'')"
proof
  assume "startsWith (recommendationsKey uid' alg) (''recommendations-'' @ uid @ ''-'')"
  then have "startsWith (uid' @ ''-'' @ alg) (uid @ ''-'')"
    unfolding recommendationsKey_def by (simp only: startsWith_append)
  then have "uid' = uid" using hyphen_free_prefix[OF assms(1,2)] by (simp add: startsWith_def)
  with assms(3) show False by simp
qed

lemma cache_get_del: "cache_get (cache_del k c) k' = (if k' = k then None else cache_get c k')"
  by (simp add: cache_get_def cache_del_def delete_conv')

lemma cache_get_invalidateMovie:
  "cache_get (invalidateMovie mid c) k
     = (if k = ''all-movies'' \<or> k = ''movie-'' @ mid then None else cache_get c k)"
  by (simp add: invalidateMovie_def cache_get_del)

lemma cache_get_invalidateAllMovies:
  "cache_get (invalidateAllMovies c) k
     = (if k = ''all-movies'' \<or> startsWith k ''movie-'' then None else cache_get c k)"
proof -
  have "cache_get (invalidateAllMovies c) k
          = (if k \<in> set (cache_keys (cache_del ''all-movies'' c)) \<and> startsWith k ''movie-''
             then None else cache_get (cache_del ''all-movies'' c) k)"
    unfolding invalidateAllMovies_def Let_def cache_get_def by (rule map_of_fold_del)
  also have "\<dots> = (if startsWith k ''movie-'' then None else cache_get (cache_del ''all-movies'' c) k)"
    by (auto simp: cache_get_def cache_keys_def map_of_eq_None_iff)
  finally show ?thesis by (auto simp: cache_get_del)
qed

text \<open>The keys of AI answers and of genre lists are outside every prefix the events sweep.\<close>

lemma aiKey_outside:
  "\<not> startsWith (aiKey uid ids) (''recommendations-'' @ p)"
  "\<not> startsWith (aiKey uid ids) ''movie-''"
  "aiKey uid ids \<noteq> ''all-movies''"
  "aiKey uid ids \<noteq> ''movie-'' @ mid"
  by (simp_all add: aiKey_def startsWith_def)

lemma genreKey_outside:
  "\<not> startsWith (''genre-'' @ g) (''recommendations-'' @ p)"
  "\<not> startsWith (''genre-'' @ g) ''movie-''"
  "''genre-'' @ g \<noteq> ''all-movies''"
  "''genre-'' @ g \<noteq> ''movie-'' @ mid"
  by (simp_all add: startsWith_def)

lemma outside_onUserRating:
  assumes "\<not> startsWith k (''recommendations-'' @ uid @ ''-'')"
  shows "cache_get (onUserRating uid c) k = cache_get c k"
  unfolding onUserRating_def cache_get_invalidateUserRecommendations
  using assms by (simp only: if_False)

lemma outside_onMovie:
  assumes "\<not> startsWith k ''recommendations-''" "\<not> startsWith k ''movie-''"
    "k \<noteq> ''all-movies''"
  shows "cache_get (onMovieUpdate mid c) k = cache_get c k"
    and "cache_get (onMovieCreate c) k = cache_get c k"
    and "cache_get (onMovieDelete mid c) k = cache_get c k"
proof -
  have m: "k \<noteq> ''movie-'' @ mid'" for mid'
    using assms(2) by (auto simp: startsWith_def)
  show "cache_get (onMovieUpdate mid c) k = cache_get c k"
    unfolding onMovieUpdate_def cache_get_invalidateAllRecommendations cache_get_invalidateMovie
    using assms m by (simp only: if_False simp_thms)
  show "cache_get (onMovieCreate c) k = cache_get c k"
    unfolding onMovieCreate_def cache_get_invalidateAllRecommendations cache_get_invalidateAllMovies
    using assms by (simp only: if_False simp_thms)
  show "cache_get (onMovieDelete mid c) k = cache_get c k"
    unfolding onMovieDelete_def cache_get_invalidateAllRecommendations cache_get_invalidateMovie
    using assms m by (simp only: if_False simp_thms)
qed

text \<open>
  Claim C9, as amended. \<open>onUserRating\<close> deletes the entries \<open>setRecommendations\<close> stored for
  the subject, under every strategy name; it leaves those of another subject unchanged
  when neither identifier contains the separator \<open>-\<close> (the identifiers the database
  generates contain none), and leaves every key outside the subject's prefix unchanged.
  \<open>onMovieUpdate\<close>, \<open>onMovieCreate\<close> and \<open>onMovieDelete\<close> delete the entries
  \<open>setRecommendations\<close> stored, for every subject and strategy. None of the four events
  deletes an AI answer stored by \<open>setAIResponse\<close> or a genre list stored by
  \<open>setGenreRecommendations\<close>.
\<close>

theorem onUserRating_scope:
  "getCachedRecommendations (onUserRating uid c) uid alg = None
   \<and> (CHR ''-'' \<notin> set uid \<and> CHR ''-'' \<notin> set uid' \<and> uid' \<noteq> uid
        \<longrightarrow> getCachedRecommendations (onUserRating uid c) uid' alg'
              = getCachedRecommendations c uid' alg')
   \<and> (\<not> startsWith key (''recommendations-'' @ uid @ ''-'')
        \<longrightarrow> cache_get (onUserRating uid c) key = cache_get c key)
   \<and> getAIResponse (onUserRating uid c) uid'' ids = getAIResponse c uid'' ids
   \<and> getGenreRecommendations (onUserRating uid c) g = getGenreRecommendations c g
   \<and> getCachedRecommendations (onMovieUpdate mid c) uid' alg' = None
   \<and> getCachedRecommendations (onMovieCreate c) uid' alg' = None
   \<and> getCachedRecommendations (onMovieDelete mid c) uid' alg' = None
   \<and> getAIResponse (onMovieUpdate mid c) uid'' ids = getAIResponse c uid'' ids
   \<and> getAIResponse (onMovieCreate c) uid'' ids = getAIResponse c uid'' ids
   \<and> getAIResponse (onMovieDelete mid c) uid'' ids = getAIResponse c uid'' ids
   \<and> getGenreRecommendations (onMovieUpdate mid c) g = getGenreRecommendations c g
   \<and> getGenreRecommendations (onMovieCreate c) g = getGenreRecommendations c g
   \<and> getGenreRecommendations (onMovieDelete mid c) g = getGenreRecommendations c g"
proof (intro conjI impI)
  show "getCachedRecommendations (onUserRating uid c) uid alg = None"
    unfolding getCachedRecommendations_def onUserRating_def cache_get_invalidateUserRecommendations
    using startsWith_key_own[of uid alg] by (simp only: if_True)
  show "getCachedRecommendations (onUserRating uid c) uid' alg' = getCachedRecommendations c uid' alg'"
    if h: "CHR ''-'' \<notin> set uid \<and> CHR ''-'' \<notin> set uid' \<and> uid' \<noteq> uid"
  proof -
    have "\<not> startsWith (recommendationsKey uid' alg') (''recommendations-'' @ uid @ ''-'')"
      using h by (intro startsWith_key_other) blast+
    then show ?thesis
      unfolding getCachedRecommendations_def by (rule outside_onUserRating)
  qed
  show "cache_get (onUserRating uid c) key = cache_get c key"
    if "\<not> startsWith key (''recommendations-'' @ uid @ ''-'')"
    using that by (rule outside_onUserRating)
  show "getAIResponse (onUserRating uid c) uid'' ids = getAIResponse c uid'' ids"
    unfolding getAIResponse_def by (rule outside_onUserRating[OF aiKey_outside(1)])
  show "getGenreRecommendations (onUserRating uid c) g = getGenreRecommendations c g"
    unfolding getGenreRecommendations_def by (rule outside_onUserRating[OF genreKey_outside(1)])
  have all: "getCachedRecommendations (invalidateAllRecommendations c') uid' alg' = None" for c'
    unfolding getCachedRecommendations_def cache_get_invalidateAllRecommendations
    using startsWith_key_all[of uid' alg'] by (simp only: if_True)
  show "getCachedRecommendations (onMovieUpdate mid c) uid' alg' = None"
    unfolding onMovieUpdate_def by (rule all)
  show "getCachedRecommendations (onMovieCreate c) uid' alg' = None"
    unfolding onMovieCreate_def by (rule all)
  show "getCachedRecommendations (onMovieDelete mid c) uid' alg' = None"
    unfolding onMovieDelete_def by (rule all)
  have a: "\<not> startsWith (aiKey uid'' ids) ''recommendations-''"
    using aiKey_outside(1)[of uid'' ids "[]"] by simp
  show "getAIResponse (onMovieUpdate mid c) uid'' ids = getAIResponse c uid'' ids"
    unfolding getAIResponse_def by (rule outside_onMovie(1)[OF a aiKey_outside(2,3)])
  show "getAIResponse (onMovieCreate c) uid'' ids = getAIResponse c uid'' ids"
    unfolding getAIResponse_def by (rule outside_onMovie(2)[OF a aiKey_outside(2,3)])
  show "getAIResponse (onMovieDelete mid c) uid'' ids = getAIResponse c uid'' ids"
    unfolding getAIResponse_def by (rule outside_onMovie(3)[OF a aiKey_outside(2,3)])
  have b: "\<not> startsWith (''genre-'' @ g) ''recommendations-''"
    using genreKey_outside(1)[of g "[]"] by simp
  show "getGenreRecommendations (onMovieUpdate mid c) g = getGenreRecommendations c g"
    unfolding getGenreRecommendations_def by (rule outside_onMovie(1)[OF b genreKey_outside(2,3)])
  show "getGenreRecommendations (onMovieCreate c) g = getGenreRecommendations c g"
    unfolding getGenreRecommendations_def by (rule outside_onMovie(2)[OF b genreKey_outside(2,3)])
  show "getGenreRecommendations (onMovieDelete mid c) g = getGenreRecommendations c g"
    unfolding getGenreRecommendations_def by (rule outside_onMovie(3)[OF b genreKey_outside(2,3)])
qed

lemma cacheAI_entries:
  "getCachedRecommendations cacheAI ''u1'' ''ai'' = Some (CachedRecommendations [])"
  "getAIResponse cacheAI ''u1'' [''m1'', ''m2''] = Some (CachedRecommendations [])"
  "getGenreRecommendations cacheAI ''action'' = Some (CachedRecommendations [])"
  by (simp_all add: cacheAI_def getCachedRecommendations_def getAIResponse_def
      getGenreRecommendations_def setGenreRecommendations_def setAIResponse_def
      setRecommendations_def cache_set_def cache_get_def recommendationsKey_def aiKey_def)


theorem onUserRating_scope_witness:
  "CHR ''-'' \<notin> set ''u1'' \<and> CHR ''-'' \<notin> set ''u2'' \<and> ''u2'' \<noteq> ''u1''
   \<and> getCachedRecommendations cache0 ''u1'' ''hybrid'' = Some (CachedRecommendations [])
   \<and> getCachedRecommendations (onUserRating ''u1'' cache0) ''u1'' ''hybrid'' = None
   \<and> getCachedRecommendations (onUserRating ''u1'' cache0) ''u2'' ''hybrid''
         = Some (CachedRecommendations [])
   \<and> \<not> startsWith ''all-movies'' (''recommendations-'' @ ''u1'' @ ''-'')
   \<and> cache_get (onUserRating ''u1'' cache0) ''all-movies'' = Some (CachedMovies [])
   \<and> getCachedRecommendations (onMovieUpdate ''m1'' cache0) ''u2'' ''hybrid'' = None
   \<and> getCachedRecommendations (onMovieCreate cache0) ''u2'' ''hybrid'' = None
   \<and> getCachedRecommendations (onMovieDelete ''m1'' cache0) ''u2'' ''hybrid'' = None"
proof -
  have g1: "getCachedRecommendations cache0 ''u1'' ''hybrid'' = Some (CachedRecommendations [])"
    by (simp add: cache0_def getCachedRecommendations_def setRecommendations_def setMovies_def
        cache_set_def cache_get_def recommendationsKey_def)
  have g2: "getCachedRecommendations cache0 ''u2'' ''hybrid'' = Some (CachedRecommendations [])"
    by (simp add: cache0_def getCachedRecommendations_def setRecommendations_def setMovies_def
        cache_set_def cache_get_def recommendationsKey_def)
  have g3: "cache_get cache0 ''all-movies'' = Some (CachedMovies [])"
    by (simp add: cache0_def getCachedRecommendations_def setRecommendations_def setMovies_def
        cache_set_def cache_get_def recommendationsKey_def)
  have s: "\<not> startsWith ''all-movies'' (''recommendations-'' @ ''u1'' @ ''-'')"
    by (simp add: startsWith_def)
  from onUserRating_scope[of "''u1''" cache0 "''hybrid''" "''u2''" "''hybrid''" "''all-movies''"
      "''u1''" "[]" "''action''" "''m1''"]
    g1 g2 g3 s
  show ?thesis by simp
qed

text \<open>
  The claim as stated fails: the AI answer cached for subject \<open>u1\<close> is still there after
  \<open>onUserRating\<close> for \<open>u1\<close> and after \<open>onMovieUpdate\<close>, and the genre list after
  \<open>onMovieCreate\<close>.
\<close>

theorem onUserRating_scope_counterexample:
  "getAIResponse cacheAI ''u1'' [''m1'', ''m2''] = Some (CachedRecommendations [])
   \<and> getAIResponse (onUserRating ''u1'' cacheAI) ''u1'' [''m1'', ''m2'']
       = Some (CachedRecommendations [])
   \<and> getAIResponse (onMovieUpdate ''m1'' cacheAI) ''u1'' [''m1'', ''m2'']
       = Some (CachedRecommendations [])
   \<and> getGenreRecommendations (onMovieCreate cacheAI) ''action'' = Some (CachedRecommendations [])"
proof -
  have a: "\<not> startsWith (aiKey ''u1'' [''m1'', ''m2'']) ''recommendations-''"
    using aiKey_outside(1)[of "''u1''" "[''m1'', ''m2'']" "[]"] by simp
  have b: "\<not> startsWith (''genre-'' @ ''action'') ''recommendations-''"
    using genreKey_outside(1)[of "''action''" "[]"] by simp
  have 1: "getAIResponse (onUserRating ''u1'' cacheAI) ''u1'' [''m1'', ''m2'']
            = getAIResponse cacheAI ''u1'' [''m1'', ''m2'']"
    unfolding getAIResponse_def by (rule outside_onUserRating[OF aiKey_outside(1)])
  have 2: "getAIResponse (onMovieUpdate ''m1'' cacheAI) ''u1'' [''m1'', ''m2'']
            = getAIResponse cacheAI ''u1'' [''m1'', ''m2'']"
    unfolding getAIResponse_def by (rule outside_onMovie(1)[OF a aiKey_outside(2,3)])
  have 3: "getGenreRecommendations (onMovieCreate cacheAI) ''action''
            = getGenreRecommendations cacheAI ''action''"
    unfolding getGenreRecommendations_def by (rule outside_onMovie(2)[OF b genreKey_outside(2,3)])
  show ?thesis
    unfolding 1 2 3 using cacheAI_entries by (simp only: simp_thms)
qed

text \<open>
  Where an identifier contains \<open>-\<close> the prefix test does not tell subjects apart: the key
  of subject \<open>a-b\<close> starts with the prefix of subject \<open>a\<close>.
\<close>

lemma hyphen_prefix_collision:
  "''a-b'' \<noteq> ''a''
   \<and> getCachedRecommendations cacheAB ''a-b'' ''hybrid'' = Some (CachedRecommendations [])
   \<and> getCachedRecommendations (onUserRating ''a'' cacheAB) ''a-b'' ''hybrid'' = None"
  by (simp add: cacheAB_def getCachedRecommendations_def setRecommendations_def
      cache_set_def cache_get_def recommendationsKey_def onUserRating_def
      invalidateUserRecommendations_def cache_keys_def cache_del_def startsWith_def)

section \<open>Verification: request validation\<close>

lemma processValue_unknown_algorithm:
  assumes "v \<notin> knownStrategies"
  shows "zAlgorithm (processValue rt v) = None"
  using assms
  by (cases v) (auto simp: knownStrategies_def processValue_def zAlgorithm_def split: list.splits)

lemma processValue_nonpositive_limit:
  assumes "nonPositive (StringToNumber rt s)"
  shows "zLimit (processValue rt (QStr s)) = None"
proof -
  from assms consider "StringToNumber rt s = NegInf"
    | x where "StringToNumber rt s = Num x" "x \<le> 0"
    by (auto simp: nonPositive_def)
  then show ?thesis
  proof cases
    case 1
    then show ?thesis by (simp add: processValue_def zLimit_def zInt_def)
  next
    case 2
    then have "\<lfloor>x\<rfloor> \<le> 0" by (simp add: floor_le_iff)
    then have "\<not> 1 \<le> \<lfloor>x\<rfloor>" by simp
    with 2 show ?thesis by (simp add: processValue_def zLimit_def zInt_def)
  qed
qed

lemma parse_rejects_algorithm:
  assumes "q ''algorithm'' = Some v" "zAlgorithm v = None"
  shows "parseRecommendationRequest cy q = None"
  using assms by (simp add: parseRecommendationRequest_def zOptional_def split: option.splits)

lemma parse_rejects_limit:
  assumes "q ''limit'' = Some v" "zLimit v = None"
  shows "parseRecommendationRequest cy q = None"
  using assms by (simp add: parseRecommendationRequest_def zOptional_def split: option.splits)

text \<open>
  The controller on its own takes every strategy name other than \<open>collaborative\<close>,
  \<open>content\<close> and \<open>ai\<close> for \<open>hybrid\<close>; on the route the validator runs before it and
  lets no other name through.
\<close>

lemma controller_default_hybrid:
  assumes "getMovies db = Some allMovies" "algorithm q = Some a"
    and "a \<noteq> ''collaborative''" "a \<noteq> ''content''" "a \<noteq> ''ai''"
  shows "getRecommendations rt openai db (Some u) q
         = Success (map asJson (generateHybridRecommendations db (user_id u) allMovies
                                  (case limit q of Some l \<Rightarrow> l | None \<Rightarrow> 10)))"
  using assms by (simp add: getRecommendations_def Let_def)

text \<open>
  Claim C8. A request that names a strategy other than \<open>hybrid\<close>, \<open>collaborative\<close>,
  \<open>content\<close>, \<open>ai\<close>, or whose limit converts to a non-positive number, never gets a
  list of recommendations from the route: once it is past the rate limiter and
  authenticated, \<open>validateQuery\<close> answers it with status 400 and the controller, whose
  \<open>switch\<close> would fall back to the hybrid strategy, is not reached.
\<close>

theorem invalid_request_rejected:
  assumes "(\<exists>v. query req ''algorithm'' = Some v \<and> v \<notin> knownStrategies)
         \<or> (\<exists>s. query req ''limit'' = Some (QStr s) \<and> nonPositive (StringToNumber rt s))"
  shows "(\<forall>recs. recommendationsRoute rt currentYear openai db req \<noteq> Success recs)
         \<and> (withinRateLimit req \<and> authenticateToken db (authorization req) = Inr u
              \<longrightarrow> recommendationsRoute rt currentYear openai db req = BadRequest400)"
proof -
  have "parseRecommendationRequest currentYear (processQuery rt (query req)) = None"
    using assms
  proof (elim disjE exE conjE)
    fix v assume "query req ''algorithm'' = Some v" "v \<notin> knownStrategies"
    then show ?thesis
      by (intro parse_rejects_algorithm[where v = "processValue rt v"])
         (simp_all add: processQuery_def processValue_unknown_algorithm)
  next
    fix s assume "query req ''limit'' = Some (QStr s)" "nonPositive (StringToNumber rt s)"
    then show ?thesis
      by (intro parse_rejects_limit[where v = "processValue rt (QStr s)"])
         (simp_all add: processQuery_def processValue_nonpositive_limit)
  qed
  then have v: "validateQuery rt currentYear (query req) = Inl BadRequest400"
    by (simp add: validateQuery_def)
  have auth: "authenticateToken db t = Inl r \<Longrightarrow> r \<noteq> Success recs" for t r recs
    by (auto simp: authenticateToken_def split: token.splits option.splits)
  show ?thesis
    using v auth by (auto simp: recommendationsRoute_def split: sum.splits)
qed

theorem invalid_request_rejected_witness:
  "query req_unknown ''algorithm'' = Some (QStr ''popular'')
   \<and> QStr ''popular'' \<notin> knownStrategies
   \<and> withinRateLimit req_unknown
   \<and> authenticateToken db_lonely (authorization req_unknown) = Inr user1
   \<and> recommendationsRoute rt_example 2026 None db_lonely req_unknown = BadRequest400
   \<and> query req_zero ''limit'' = Some (QStr ''0'')
   \<and> nonPositive (StringToNumber rt_example ''0'')
   \<and> withinRateLimit req_zero
   \<and> authenticateToken db_lonely (authorization req_zero) = Inr user1
   \<and> recommendationsRoute rt_example 2026 None db_lonely req_zero = BadRequest400
   \<and> recommendationsRoute rt_example 2026 None db_lonely req_ok = Success []"
proof -
  have a1: "query req_unknown ''algorithm'' = Some (QStr ''popular'')"
    by (simp add: req_unknown_def)
  have a2: "QStr ''popular'' \<notin> knownStrategies"
    by (simp add: knownStrategies_def)
  have a3: "withinRateLimit req_unknown" by (simp add: req_unknown_def)
  have a4: "authenticateToken db_lonely (authorization req_unknown) = Inr user1"
    by (simp add: req_unknown_def authenticateToken_def db_lonely_def)
  have z1: "query req_zero ''limit'' = Some (QStr ''0'')" by (simp add: req_zero_def)
  have z2: "nonPositive (StringToNumber rt_example ''0'')"
    by (simp add: nonPositive_def rt_example_def)
  have z3: "withinRateLimit req_zero" by (simp add: req_zero_def)
  have z4: "authenticateToken db_lonely (authorization req_zero) = Inr user1"
    by (simp add: req_zero_def authenticateToken_def db_lonely_def)
  have ok1: "validateQuery rt_example 2026 (query req_ok)
             = Inr \<lparr>limit = Some 5, genres = None, excludeWatched = None, minYear = None,
                    maxYear = None, algorithm = Some ''collaborative''\<rparr>"
    by (simp add: validateQuery_def parseRecommendationRequest_def processQuery_def
        processValue_def req_ok_def rt_example_def zOptional_def zLimit_def zInt_def
        zAlgorithm_def)
  have ok2: "generateCollaborativeRecommendations db_lonely ''u1'' [movie1, movie2] 5 = []"
    by (simp add: generateCollaborativeRecommendations_def db_lonely_def findSimilarUsers_def
        getRecommendationsFromSimilarUsers_def user1_def Let_def js_sort_def slice0_def)
  have ok: "recommendationsRoute rt_example 2026 None db_lonely req_ok = Success []"
    using ok1 ok2
    by (simp add: recommendationsRoute_def req_ok_def authenticateToken_def db_lonely_def
        getRecommendations_def user1_def)
  from invalid_request_rejected[of req_unknown rt_example 2026 None db_lonely user1]
    invalid_request_rejected[of req_zero rt_example 2026 None db_lonely user1]
    a1 a2 a3 a4 z1 z2 z3 z4 ok
  show ?thesis by auto
qed

section \<open>Verification: evaluation at concrete inputs\<close>

lemma js_sort_Nil [simp]: "js_sort cmp [] = []"
  by (simp add: js_sort_def)

lemma slice0_Nil [simp]: "slice0 [] n = []"
  by (simp add: slice0_def)

text \<open>
  Claim C4, at a failing input. The subject has one rating and there is no other user, so
  no neighbour passes the threshold. The collaborative recommender returns the empty
  list, where the popularity fallback on the same catalog has two items.
\<close>

theorem no_neighbours_gives_empty_list:
  "generateCollaborativeRecommendations db_lonely ''u1'' [movie1, movie2] 10 = []
   \<and> getPopularMovies [movie1, movie2] 10 =
       [\<lparr>movie = movie1, score = Num 0.8, reason = ''Popular highly-rated movie''\<rparr>,
        \<lparr>movie = movie2, score = Num 0.75, reason = ''Popular highly-rated movie''\<rparr>]"
proof
  show "generateCollaborativeRecommendations db_lonely ''u1'' [movie1, movie2] 10 = []"
    by (simp add: generateCollaborativeRecommendations_def db_lonely_def findSimilarUsers_def
        getRecommendationsFromSimilarUsers_def user1_def Let_def)
  show "getPopularMovies [movie1, movie2] 10 =
       [\<lparr>movie = movie1, score = Num 0.8, reason = ''Popular highly-rated movie''\<rparr>,
        \<lparr>movie = movie2, score = Num 0.75, reason = ''Popular highly-rated movie''\<rparr>]"
    by (simp add: getPopularMovies_def movie1_def movie2_def rating_truthy_def js_sort_def
        slice0_def minus_number_def enumerate_eq_zip)
qed

text \<open>
  Claim C10, at a failing input. The answer holds one recommendation for a movie of the
  catalog whose score is the string \<open>high\<close>. The string is truthy, so it replaces the
  default; \<open>Math.min\<close> converts it to NaN and \<open>Math.max\<close> keeps NaN: the score that
  \<open>parseAIResponse\<close> yields is NaN, not a number between 0.1 and 1.
\<close>

theorem parseAIResponse_NaN_score:
  "parseAIResponse rt_example answer_high [movie1, movie2]
     = [\<lparr>movie = movie1, score = NaN,
         reason = JStr ''AI recommended based on your preferences''\<rparr>]"
  by (simp add: parseAIResponse_def rt_example_def parseItem_def movie1_def movie2_def
      Math_min_def Math_max_def js_sort_def List.map_filter_simps)

section \<open>Verification: the popularity fallback\<close>

lemma popular_filter:
  "filter (\<lambda>m. rating_truthy (movie_rating m) \<and> 7 \<le> the (movie_rating m)) ms = filter popular ms"
  by (rule filter_cong) (auto simp: popular_def rating_truthy_def split: option.splits)

lemma getPopularMovies_ranked:
  "getPopularMovies allMovies lmt =
     map (\<lambda>(index, m). \<lparr>movie = m, score = Num (0.8 - real index * 0.05),
                          reason = ''Popular highly-rated movie''\<rparr>)
       (enumerate 0 (slice0 (sort_key (\<lambda>m. - quality m) (filter popular allMovies)) lmt))"
proof -
  have "js_sort (\<lambda>a b. Num (case movie_rating b of Some x \<Rightarrow> x | None \<Rightarrow> 0)
                      - Num (case movie_rating a of Some x \<Rightarrow> x | None \<Rightarrow> 0))
          (filter popular allMovies)
        = sort_key (\<lambda>m. - quality m) (filter popular allMovies)"
    by (rule js_sort_sort_key) (simp add: minus_number_def quality_def)
  then show ?thesis
    by (simp add: getPopularMovies_def popular_filter)
qed

lemma collaborative_cold_start:
  assumes "noRatings db u"
  shows "generateCollaborativeRecommendations db u allMovies lmt = getPopularMovies allMovies lmt"
proof (cases "getAllRatings db")
  case None
  then show ?thesis by (simp add: generateCollaborativeRecommendations_def)
next
  case (Some rs)
  with assms have "filter (\<lambda>r. userId r = u) rs = []"
    by (simp add: noRatings_def list_all_iff filter_empty_conv)
  with Some show ?thesis
    by (simp add: generateCollaborativeRecommendations_def split: option.splits)
qed

lemma content_cold_start:
  assumes "noRatings db u"
  shows "generateContentBasedRecommendations db u allMovies lmt = getPopularMovies allMovies lmt"
  using assms
  by (auto simp: generateContentBasedRecommendations_def noRatings_def split: option.splits)

lemma map_movie_popular:
  "map movie (getPopularMovies allMovies lmt)
     = slice0 (sort_key (\<lambda>m. - quality m) (filter popular allMovies)) lmt"
  unfolding getPopularMovies_ranked
  by (simp add: comp_def case_prod_beta enumerate_eq_zip map_snd_zip_take)

lemma map_fst_zip_upt:
  "map (\<lambda>x. f (fst x)) (zip [0..<length ys] ys) = map f [0..<length ys]"
  by (rule nth_equalityI) simp_all

lemma map_score_popular:
  "map score (getPopularMovies allMovies lmt)
     = map (\<lambda>i. Num (0.8 - real i * 0.05)) [0..<length (getPopularMovies allMovies lmt)]"
  unfolding getPopularMovies_ranked
  by (simp add: comp_def case_prod_beta enumerate_eq_zip) (rule map_fst_zip_upt)

lemma popular_nonempty:
  assumes "\<exists>m \<in> set allMovies. popular m" "1 \<le> lmt"
  shows "getPopularMovies allMovies lmt \<noteq> []"
proof -
  have "filter popular allMovies \<noteq> []" using assms(1) by (auto simp: filter_empty_conv)
  then have "sort_key (\<lambda>m. - quality m) (filter popular allMovies) \<noteq> []"
    by (metis length_0_conv length_sort)
  with assms(2) have "slice0 (sort_key (\<lambda>m. - quality m) (filter popular allMovies)) lmt \<noteq> []"
    by (simp add: slice0_def)
  then show ?thesis using map_movie_popular[of allMovies lmt] by auto
qed

lemma getPopularMoviesAI_ranked:
  "getPopularMoviesAI allMovies =
     map (\<lambda>(index, m). \<lparr>movie = m, score = Num (0.8 - real index * 0.05),
                          reason = ''Popular recent movie''\<rparr>)
       (enumerate 0 (take 10 (sort_key (\<lambda>m. - real_of_int (year m)) allMovies)))"
proof -
  have "js_sort (\<lambda>a b. Num (real_of_int (year b)) - Num (real_of_int (year a))) allMovies
        = sort_key (\<lambda>m. - real_of_int (year m)) allMovies"
    by (rule js_sort_sort_key) (simp add: minus_number_def)
  then show ?thesis
    by (simp add: getPopularMoviesAI_def slice0_def)
qed

lemma map_movie_enumerate:
  "map movie (map (\<lambda>(index, m). \<lparr>movie = m, score = f index, reason = r\<rparr>) (enumerate 0 ys)) = ys"
  by (simp add: comp_def case_prod_beta enumerate_eq_zip)

lemma map_score_enumerate:
  "map score (map (\<lambda>(index, m). \<lparr>movie = m, score = f index, reason = r\<rparr>) (enumerate 0 ys))
     = map f [0..<length ys]"
  by (simp add: comp_def case_prod_beta enumerate_eq_zip) (rule map_fst_zip_upt)

lemma map_movie_popularAI:
  "map movie (getPopularMoviesAI allMovies)
     = take 10 (sort_key (\<lambda>m. - real_of_int (year m)) allMovies)"
  unfolding getPopularMoviesAI_ranked by (rule map_movie_enumerate)

lemma map_score_popularAI:
  "map score (getPopularMoviesAI allMovies)
     = map (\<lambda>i. Num (0.8 - real i * 0.05)) [0..<length (getPopularMoviesAI allMovies)]"
proof -
  have "length (getPopularMoviesAI allMovies)
          = length (take 10 (sort_key (\<lambda>m. - real_of_int (year m)) allMovies))"
    unfolding getPopularMoviesAI_ranked by simp
  then show ?thesis
    unfolding getPopularMoviesAI_ranked by (simp only: map_score_enumerate)
qed

lemma controller_cold_start:
  assumes "getMovies db = Some allMovies" "noRatings db (user_id usr)"
  shows "algorithm q = Some ''collaborative'' \<Longrightarrow>
           getRecommendations rt openai db (Some usr) q
             = Success (map asJson (getPopularMovies allMovies
                                      (case limit q of Some l \<Rightarrow> l | None \<Rightarrow> 10)))"
    and "algorithm q = Some ''content'' \<Longrightarrow>
           getRecommendations rt openai db (Some usr) q
             = Success (map asJson (getPopularMovies allMovies
                                      (case limit q of Some l \<Rightarrow> l | None \<Rightarrow> 10)))"
  using assms(1) collaborative_cold_start[OF assms(2)] content_cold_start[OF assms(2)]
  by (simp_all add: getRecommendations_def Let_def)

lemma controller_cold_start_ai:
  assumes "getMovies db = Some allMovies" "getUserRatings db (user_id usr) = Some []"
    "algorithm q = Some ''ai''"
  shows "getRecommendations rt openai db (Some usr) q
           = Success (map asJson (getPopularMoviesAI allMovies))"
  using assms by (simp add: getRecommendations_def Let_def generateRecommendations_def)

text \<open>
  Claim C3, as amended. For a subject with zero ratings the collaborative and the content
  strategy return the popularity fallback: the catalog items whose quality score is at
  least 7, in the stable order of descending quality score, truncated to the limit, the
  item of rank \<open>i\<close> scored \<open>0.8 - 0.05 i\<close>. It is non-empty whenever the catalog holds an
  item with a quality score of at least 7 and the limit is at least 1. The AI strategy
  returns instead the first ten catalog items in the stable order of descending year,
  scored in the same way, whatever their quality score. (The hybrid strategy is not part
  of the statement.)
\<close>

theorem cold_start_popularity:
  assumes "noRatings db u"
  shows "generateCollaborativeRecommendations db u allMovies lmt = getPopularMovies allMovies lmt
       \<and> generateContentBasedRecommendations db u allMovies lmt = getPopularMovies allMovies lmt
       \<and> map movie (getPopularMovies allMovies lmt)
           = slice0 (sort_key (\<lambda>m. - quality m) (filter popular allMovies)) lmt
       \<and> map score (getPopularMovies allMovies lmt)
           = map (\<lambda>i. Num (0.8 - real i * 0.05)) [0..<length (getPopularMovies allMovies lmt)]
       \<and> ((\<exists>m \<in> set allMovies. popular m) \<and> 1 \<le> lmt \<longrightarrow> getPopularMovies allMovies lmt \<noteq> [])
       \<and> (getMovies db = Some allMovies \<and> user_id usr = u
            \<and> (algorithm q = Some ''collaborative'' \<or> algorithm q = Some ''content'')
          \<longrightarrow> getRecommendations rt openai db (Some usr) q
                = Success (map asJson (getPopularMovies allMovies
                                         (case limit q of Some l \<Rightarrow> l | None \<Rightarrow> 10))))
       \<and> (getMovies db = Some allMovies \<and> user_id usr = u \<and> getUserRatings db u = Some []
            \<and> algorithm q = Some ''ai''
          \<longrightarrow> getRecommendations rt openai db (Some usr) q
                = Success (map asJson (getPopularMoviesAI allMovies)))
       \<and> map movie (getPopularMoviesAI allMovies)
           = take 10 (sort_key (\<lambda>m. - real_of_int (year m)) allMovies)
       \<and> map score (getPopularMoviesAI allMovies)
           = map (\<lambda>i. Num (0.8 - real i * 0.05)) [0..<length (getPopularMoviesAI allMovies)]"
proof (intro conjI impI)
  show "generateCollaborativeRecommendations db u allMovies lmt = getPopularMovies allMovies lmt"
    by (rule collaborative_cold_start[OF assms])
  show "generateContentBasedRecommendations db u allMovies lmt = getPopularMovies allMovies lmt"
    by (rule content_cold_start[OF assms])
  show "map movie (getPopularMovies allMovies lmt)
           = slice0 (sort_key (\<lambda>m. - quality m) (filter popular allMovies)) lmt"
    by (rule map_movie_popular)
  show "map score (getPopularMovies allMovies lmt)
           = map (\<lambda>i. Num (0.8 - real i * 0.05)) [0..<length (getPopularMovies allMovies lmt)]"
    by (rule map_score_popular)
  show "getPopularMovies allMovies lmt \<noteq> []" if "(\<exists>m \<in> set allMovies. popular m) \<and> 1 \<le> lmt"
    using that by (intro popular_nonempty) simp_all
  show "getRecommendations rt openai db (Some usr) q
          = Success (map asJson (getPopularMovies allMovies
                                   (case limit q of Some l \<Rightarrow> l | None \<Rightarrow> 10)))"
    if h: "getMovies db = Some allMovies \<and> user_id usr = u
            \<and> (algorithm q = Some ''collaborative'' \<or> algorithm q = Some ''content'')"
  proof -
    from h assms have n: "noRatings db (user_id usr)" and m: "getMovies db = Some allMovies"
      by simp_all
    from h controller_cold_start[OF m n] show ?thesis by blast
  qed
  show "getRecommendations rt openai db (Some usr) q
          = Success (map asJson (getPopularMoviesAI allMovies))"
    if h: "getMovies db = Some allMovies \<and> user_id usr = u \<and> getUserRatings db u = Some []
            \<and> algorithm q = Some ''ai''"
    using h by (intro controller_cold_start_ai) simp_all
  show "map movie (getPopularMoviesAI allMovies)
           = take 10 (sort_key (\<lambda>m. - real_of_int (year m)) allMovies)"
    by (rule map_movie_popularAI)
  show "map score (getPopularMoviesAI allMovies)
           = map (\<lambda>i. Num (0.8 - real i * 0.05)) [0..<length (getPopularMoviesAI allMovies)]"
    by (rule map_score_popularAI)
qed

lemma popular_example:
  "getPopularMovies [movie_low, movie2, movie1] 10 =
       [\<lparr>movie = movie1, score = Num 0.8, reason = ''Popular highly-rated movie''\<rparr>,
        \<lparr>movie = movie2, score = Num 0.75, reason = ''Popular highly-rated movie''\<rparr>]"
  by (simp add: getPopularMovies_def movie1_def movie2_def movie_low_def rating_truthy_def
      js_sort_def slice0_def minus_number_def enumerate_eq_zip)

lemma popularAI_example:
  "map movie (getPopularMoviesAI [movie_low, movie2, movie1]) = [movie_low, movie2, movie1]"
  by (simp add: getPopularMoviesAI_def movie1_def movie2_def movie_low_def
      js_sort_def slice0_def minus_number_def enumerate_eq_zip)

lemma ai_cold_start_example:
  "recommendedMovies (getRecommendations rt_example None db_empty (Some user1) query_ai)
     = [movie_low, movie2, movie1]"
proof -
  have "getRecommendations rt_example None db_empty (Some user1) query_ai
          = Success (map asJson (getPopularMoviesAI [movie_low, movie2, movie1]))"
    by (rule controller_cold_start_ai) (simp_all add: db_empty_def query_ai_def)
  then show ?thesis
    using popularAI_example by (simp add: recommendedMovies_def asJson_def comp_def)
qed

lemma popular_three:
  "getPopularMovies [movie1, movie2, movie_a] 3
     = [\<lparr>movie = movie1, score = Num 0.8, reason = ''Popular highly-rated movie''\<rparr>,
        \<lparr>movie = movie2, score = Num 0.75, reason = ''Popular highly-rated movie''\<rparr>,
        \<lparr>movie = movie_a, score = Num 0.7, reason = ''Popular highly-rated movie''\<rparr>]"
  by (simp add: getPopularMovies_def movie1_def movie2_def movie_a_def rating_truthy_def
      js_sort_def slice0_def minus_number_def enumerate_eq_zip)

lemma popular_two:
  "getPopularMovies [movie1, movie2, movie_a] 2
     = [\<lparr>movie = movie1, score = Num 0.8, reason = ''Popular highly-rated movie''\<rparr>,
        \<lparr>movie = movie2, score = Num 0.75, reason = ''Popular highly-rated movie''\<rparr>]"
  by (simp add: getPopularMovies_def movie1_def movie2_def movie_a_def rating_truthy_def
      js_sort_def slice0_def minus_number_def enumerate_eq_zip)

lemma noRatings_empty: "noRatings db_empty ''u1''"
  by (simp add: noRatings_def db_empty_def)

lemma hybrid_cold_start_example:
  "map movie (generateHybridRecommendations db_empty ''u1'' [movie1, movie2, movie_a] 3)
     = [movie1, movie2]"
proof -
  have c6: "\<lceil>real_of_int 3 * 0.6\<rceil> = (2::int)" by (simp add: ceiling_eq_iff)
  have c4: "\<lceil>real_of_int 3 * 0.4\<rceil> = (2::int)" by (simp add: ceiling_eq_iff)
  show ?thesis
    unfolding generateHybridRecommendations_def Let_def c6 c4
      collaborative_cold_start[OF noRatings_empty] content_cold_start[OF noRatings_empty]
      popular_two
    by (simp add: combineRecs_def addCollaborative_def addContentBased_def movie1_def movie2_def
        js_sort_def slice0_def plus_number_def minus_number_def times_number_def divide_number_def)
qed

theorem cold_start_popularity_witness:
  "noRatings db_empty ''u1''
   \<and> popular movie1 \<and> movie1 \<in> set [movie_low, movie2, movie1] \<and> (1::int) \<le> 10
   \<and> generateCollaborativeRecommendations db_empty ''u1'' [movie_low, movie2, movie1] 10
       = [\<lparr>movie = movie1, score = Num 0.8, reason = ''Popular highly-rated movie''\<rparr>,
          \<lparr>movie = movie2, score = Num 0.75, reason = ''Popular highly-rated movie''\<rparr>]
   \<and> generateContentBasedRecommendations db_empty ''u1'' [movie_low, movie2, movie1] 10
       = [\<lparr>movie = movie1, score = Num 0.8, reason = ''Popular highly-rated movie''\<rparr>,
          \<lparr>movie = movie2, score = Num 0.75, reason = ''Popular highly-rated movie''\<rparr>]
   \<and> getPopularMovies [movie_low, movie2, movie1] 10 \<noteq> []
   \<and> getMovies db_empty = Some [movie_low, movie2, movie1] \<and> user_id user1 = ''u1''
   \<and> getUserRatings db_empty ''u1'' = Some []
   \<and> recommendedMovies (getRecommendations rt_example None db_empty (Some user1)
         (query_ai\<lparr>algorithm := Some ''collaborative''\<rparr>)) = [movie1, movie2]
   \<and> recommendedMovies (getRecommendations rt_example None db_empty (Some user1)
         (query_ai\<lparr>algorithm := Some ''content''\<rparr>)) = [movie1, movie2]
   \<and> recommendedMovies (getRecommendations rt_example None db_empty (Some user1) query_ai)
       = [movie_low, movie2, movie1]"
proof -
  have n: "noRatings db_empty ''u1''" by (rule noRatings_empty)
  have p: "popular movie1" by (simp add: popular_def movie1_def)
  have m: "getMovies db_empty = Some [movie_low, movie2, movie1]" by (simp add: db_empty_def)
  have i: "user_id user1 = ''u1''" by (simp add: user1_def)
  have r: "getUserRatings db_empty ''u1'' = Some []" by (simp add: db_empty_def)
  note T = cold_start_popularity[OF n, of "[movie_low, movie2, movie1]" 10 user1 _ rt_example None]
  note rest = T[THEN conjunct2, THEN conjunct2, THEN conjunct2, THEN conjunct2]
  have c1: "generateCollaborativeRecommendations db_empty ''u1'' [movie_low, movie2, movie1] 10
       = [\<lparr>movie = movie1, score = Num 0.8, reason = ''Popular highly-rated movie''\<rparr>,
          \<lparr>movie = movie2, score = Num 0.75, reason = ''Popular highly-rated movie''\<rparr>]"
    using T[of query_ai, THEN conjunct1] by (simp only: popular_example)
  have c2: "generateContentBasedRecommendations db_empty ''u1'' [movie_low, movie2, movie1] 10
       = [\<lparr>movie = movie1, score = Num 0.8, reason = ''Popular highly-rated movie''\<rparr>,
          \<lparr>movie = movie2, score = Num 0.75, reason = ''Popular highly-rated movie''\<rparr>]"
    using T[of query_ai, THEN conjunct2, THEN conjunct1] by (simp only: popular_example)
  have c3: "getPopularMovies [movie_low, movie2, movie1] 10 \<noteq> []"
    using rest[of query_ai, THEN conjunct1] p by simp
  have "getRecommendations rt_example None db_empty (Some user1)
          (query_ai\<lparr>algorithm := Some ''collaborative''\<rparr>)
        = Success (map asJson (getPopularMovies [movie_low, movie2, movie1] 10))"
    using rest[of "query_ai\<lparr>algorithm := Some ''collaborative''\<rparr>", THEN conjunct2, THEN conjunct1]
      m i by (simp add: query_ai_def)
  then have c4: "recommendedMovies (getRecommendations rt_example None db_empty (Some user1)
         (query_ai\<lparr>algorithm := Some ''collaborative''\<rparr>)) = [movie1, movie2]"
    by (simp add: popular_example recommendedMovies_def asJson_def)
  have "getRecommendations rt_example None db_empty (Some user1)
          (query_ai\<lparr>algorithm := Some ''content''\<rparr>)
        = Success (map asJson (getPopularMovies [movie_low, movie2, movie1] 10))"
    using rest[of "query_ai\<lparr>algorithm := Some ''content''\<rparr>", THEN conjunct2, THEN conjunct1]
      m i by (simp add: query_ai_def)
  then have c5: "recommendedMovies (getRecommendations rt_example None db_empty (Some user1)
         (query_ai\<lparr>algorithm := Some ''content''\<rparr>)) = [movie1, movie2]"
    by (simp add: popular_example recommendedMovies_def asJson_def)
  have "getRecommendations rt_example None db_empty (Some user1) query_ai
        = Success (map asJson (getPopularMoviesAI [movie_low, movie2, movie1]))"
    using rest[of query_ai, THEN conjunct2, THEN conjunct2, THEN conjunct1] m i r
    by (simp add: query_ai_def)
  then have c6: "recommendedMovies (getRecommendations rt_example None db_empty (Some user1) query_ai)
       = [movie_low, movie2, movie1]"
    using popularAI_example by (simp add: recommendedMovies_def asJson_def comp_def)
  from n p m i r c1 c2 c3 c4 c5 c6 show ?thesis by (simp only: simp_thms list.set insert_iff)
qed

text \<open>
  The claim as stated fails. A catalog whose only item has the quality score 6.5 gives a
  subject with zero ratings the empty list. With three items of quality score at least 7
  and the limit 3 the popularity fallback has three items and the hybrid strategy returns
  two. The AI strategy returns the items by year, the one of quality score 6.5 first.
\<close>

theorem cold_start_popularity_counterexample:
  "noRatings db_empty ''u1''
   \<and> movie_rating movie_low = Some 6.5
   \<and> generateCollaborativeRecommendations db_empty ''u1'' [movie_low] 10 = []
   \<and> generateContentBasedRecommendations db_empty ''u1'' [movie_low] 10 = []
   \<and> generateHybridRecommendations db_empty ''u1'' [movie_low] 10 = []
   \<and> map movie (getPopularMovies [movie1, movie2, movie_a] 3) = [movie1, movie2, movie_a]
   \<and> map movie (generateHybridRecommendations db_empty ''u1'' [movie1, movie2, movie_a] 3)
       = [movie1, movie2]
   \<and> getMovies db_empty = Some [movie_low, movie2, movie1]
   \<and> map movie (getPopularMovies [movie_low, movie2, movie1] 10) = [movie1, movie2]
   \<and> recommendedMovies (getRecommendations rt_example None db_empty (Some user1) query_ai)
       = [movie_low, movie2, movie1]"
proof -
  have 1: "noRatings db_empty ''u1'' \<and> movie_rating movie_low = Some 6.5
     \<and> generateCollaborativeRecommendations db_empty ''u1'' [movie_low] 10 = []
     \<and> generateContentBasedRecommendations db_empty ''u1'' [movie_low] 10 = []
     \<and> generateHybridRecommendations db_empty ''u1'' [movie_low] 10 = []"
    by (simp add: noRatings_def db_empty_def movie_low_def generateCollaborativeRecommendations_def
      generateContentBasedRecommendations_def generateHybridRecommendations_def combineRecs_def
      getPopularMovies_def rating_truthy_def js_sort_def slice0_def)
  have 2: "getMovies db_empty = Some [movie_low, movie2, movie1]" by (simp add: db_empty_def)
  show ?thesis
    unfolding popular_three popular_example hybrid_cold_start_example ai_cold_start_example
    using 1 2 by simp
qed

section \<open>Verification: the range of the scores\<close>

lemma is_Num_iff: "is_Num n \<longleftrightarrow> (\<exists>x. n = Num x)"
  by (cases n) (simp_all add: is_Num_def)

lemma score_between_iff: "score_between lo hi n \<longleftrightarrow> (\<exists>x. n = Num x \<and> lo \<le> x \<and> x \<le> hi)"
  by (cases n) (simp_all add: score_between_def)

lemma score_between_is_Num: "score_between lo hi n \<Longrightarrow> is_Num n"
  by (auto simp: score_between_iff is_Num_iff)

lemma num_ge_Num [simp]: "num_ge (Num a) (Num b) \<longleftrightarrow> b \<le> a"
  by (auto simp: num_ge_def)

lemma sort_by_score:
  fixes xs :: "'r recommendation list"
  assumes "\<forall>r \<in> set xs. is_Num (score r)"
  shows "js_sort (\<lambda>a b. score b - score a) xs = sort_key (\<lambda>r. - num_val (score r)) xs"
proof (rule js_sort_sort_key, intro ballI)
  fix x y assume "x \<in> set xs" "y \<in> set xs"
  with assms have "is_Num (score x)" "is_Num (score y)" by blast+
  then obtain a b where "score x = Num a" "score y = Num b"
    unfolding is_Num_iff by blast
  then show "score y - score x = Num (- num_val (score x) - - num_val (score y))"
    by (simp add: minus_number_def num_val_def)
qed

lemma descending_sort_key:
  fixes xs :: "'r recommendation list"
  assumes "\<forall>r \<in> set xs. is_Num (score r)"
  shows "descending (sort_key (\<lambda>r. - num_val (score r)) xs)"
proof -
  let ?ys = "sort_key (\<lambda>r. - num_val (score r)) xs"
  have "sorted (map (\<lambda>r. - num_val (score r)) ?ys)" by (rule sorted_sort_key)
  then have s: "sorted_wrt (\<lambda>a b. - num_val (score a) \<le> - num_val (score b)) ?ys"
    by (simp add: sorted_map)
  have "sorted_wrt (\<lambda>a b. num_ge (score a) (score b)) ?ys"
  proof (rule sorted_wrt_mono_rel[OF _ s])
    fix a b assume ab: "a \<in> set ?ys" "b \<in> set ?ys"
      and le: "- num_val (score a) \<le> - num_val (score b)"
    from ab assms have "is_Num (score a)" "is_Num (score b)" by simp_all
    then obtain x y where "score a = Num x" "score b = Num y"
      unfolding is_Num_iff by blast
    with le show "num_ge (score a) (score b)" by (simp add: num_val_def)
  qed
  then show ?thesis by (simp add: descending_def)
qed

lemma descending_take: "descending rs \<Longrightarrow> descending (take n rs)"
  unfolding descending_def by (rule sorted_wrt_take)

lemma descending_slice0: "descending rs \<Longrightarrow> descending (slice0 rs lmt)"
  by (auto simp: slice0_def descending_take)

lemma descending_ranked:
  fixes xs :: "'r recommendation list"
  assumes "\<forall>r \<in> set xs. is_Num (score r)"
  shows "descending (slice0 (js_sort (\<lambda>a b. score b - score a) xs) lmt)"
  by (simp add: sort_by_score[OF assms] descending_sort_key[OF assms] descending_slice0)

lemma set_ranked:
  "set (slice0 (js_sort cmp xs) lmt) \<subseteq> set xs"
  using set_slice0[of "js_sort cmp xs" lmt] by (simp add: set_js_sort)

lemma findSimilarUsers_similarity:
  assumes "su \<in> set (findSimilarUsers t rs us)"
  shows "\<exists>s. similarity su = Num s \<and> 0.3 < s \<and> s \<le> 1"
proof -
  have "su \<in> set (filter (\<lambda>item. num_gt (similarity item) (Num 0.3))
                 (map (\<lambda>u.
                         let userRatings = filter (\<lambda>r. userId r = user_id u) rs;
                             sim = calculateUserSimilarity (filter (\<lambda>r. userId r = t) rs) userRatings
                         in \<lparr>user = u, similarity = sim\<rparr>)
                    (filter (\<lambda>u. user_id u \<noteq> t) us)))"
    using assms unfolding findSimilarUsers_def Let_def by (rule set_ranked[THEN subsetD])
  then have gt: "num_gt (similarity su) (Num 0.3)"
    and "\<exists>s. similarity su = Num s \<and> - 1 \<le> s \<and> s \<le> 1"
    by (auto simp: Let_def calculateUserSimilarity_bounded)
  then obtain s where "similarity su = Num s" "s \<le> 1"
    by blast
  with gt show ?thesis by auto
qed

lemma update_set_cases:
  "(k', v') \<in> set (AList.update k v al) \<Longrightarrow> (k' = k \<and> v' = v) \<or> (k', v') \<in> set al"
  by (induction al) (auto split: if_splits)

lemma addVote_ok:
  assumes inv: "\<forall>e \<in> set ms. vote_ok H (snd e)"
    and sim: "sim = Num s" "0.3 < s" "s \<le> 1"
    and r: "4 \<le> stars r" "stars r \<le> H"
  shows "\<forall>e \<in> set (addVote sim ms r). vote_ok H (snd e)"
proof
  fix e assume e: "e \<in> set (addVote sim ms r)"
  have lo: "1.2 < stars r * s"
  proof -
    have "1.2 = 4 * (0.3 :: real)" by simp
    also have "\<dots> < 4 * s" using sim(2) by simp
    also have "\<dots> \<le> stars r * s" using r(1) sim(2) by (intro mult_right_mono) simp_all
    finally show ?thesis .
  qed
  have hi: "stars r * s \<le> H"
  proof -
    have "stars r * s \<le> stars r * 1" using r(1) sim(3) by (intro mult_left_mono) simp_all
    with r(2) show ?thesis by simp
  qed
  let ?cur = "case map_of ms (movieId r) of Some c \<Rightarrow> c | None \<Rightarrow> (Num 0, 0)"
  have new: "vote_ok H (fst ?cur + Num (stars r) * sim, snd ?cur + 1)"
  proof (cases "map_of ms (movieId r)")
    case None
    then show ?thesis using lo hi sim(1)
      by (simp add: vote_ok_def plus_number_def times_number_def)
  next
    case (Some c)
    then have "(movieId r, c) \<in> set ms" by (rule map_of_SomeD)
    with inv have "vote_ok H c" by force
    then obtain x n where c: "c = (Num x, n)" "1 \<le> n" "1.2 * real n < x" "x \<le> H * real n"
      by (cases c) (auto simp: vote_ok_def)
    have "1.2 * real (n + 1) < x + stars r * s" using c(3) lo by (simp add: algebra_simps)
    moreover have "x + stars r * s \<le> H * real (n + 1)" using c(4) hi by (simp add: algebra_simps)
    ultimately show ?thesis using Some c(1) sim(1)
      by (simp add: vote_ok_def plus_number_def times_number_def)
  qed
  obtain k v where kv: "e = (k, v)" by (cases e)
  from e have "(k, v) \<in> set (AList.update (movieId r) (fst ?cur + Num (stars r) * sim, snd ?cur + 1) ms)"
    unfolding addVote_def Let_def kv .
  then have "v = (fst ?cur + Num (stars r) * sim, snd ?cur + 1) \<or> (k, v) \<in> set ms"
    by (blast dest: update_set_cases)
  with new inv kv show "vote_ok H (snd e)" by auto
qed

lemma foldl_addVote_ok:
  assumes "\<forall>e \<in> set ms. vote_ok H (snd e)"
    and "sim = Num s" "0.3 < s" "s \<le> 1"
    and "\<forall>r \<in> set rs. 4 \<le> stars r \<and> stars r \<le> H"
  shows "\<forall>e \<in> set (foldl (addVote sim) ms rs). vote_ok H (snd e)"
  using assms(1,5)
proof (induction rs arbitrary: ms)
  case Nil
  then show ?case by simp
next
  case (Cons r rs)
  have "\<forall>e \<in> set (addVote sim ms r). vote_ok H (snd e)"
    using Cons.prems by (intro addVote_ok[OF _ assms(2,3,4)]) simp_all
  then show ?case using Cons.prems by (simp add: Cons.IH)
qed

lemma collectVotes_ok:
  assumes "\<forall>e \<in> set ms. vote_ok H (snd e)"
    and "\<exists>s. similarity su = Num s \<and> 0.3 < s \<and> s \<le> 1"
    and "\<forall>r \<in> set allRatings. stars r \<le> H"
  shows "\<forall>e \<in> set (collectVotes watched allRatings ms su). vote_ok H (snd e)"
proof -
  from assms(2) obtain s where s: "similarity su = Num s" "0.3 < s" "s \<le> 1" by blast
  show ?thesis
    unfolding collectVotes_def Let_def
    using assms(3) by (intro foldl_addVote_ok[OF assms(1) s]) simp
qed

lemma foldl_collectVotes_ok:
  assumes "\<forall>e \<in> set ms. vote_ok H (snd e)"
    and "\<forall>su \<in> set sus. \<exists>s. similarity su = Num s \<and> 0.3 < s \<and> s \<le> 1"
    and "\<forall>r \<in> set allRatings. stars r \<le> H"
  shows "\<forall>e \<in> set (foldl (collectVotes watched allRatings) ms sus). vote_ok H (snd e)"
  using assms(1,2)
proof (induction sus arbitrary: ms)
  case Nil
  then show ?case by simp
next
  case (Cons su sus)
  have "\<forall>e \<in> set (collectVotes watched allRatings ms su). vote_ok H (snd e)"
    using Cons.prems by (intro collectVotes_ok[OF _ _ assms(3)]) simp_all
  then show ?case using Cons.prems by (simp add: Cons.IH)
qed

lemma getRecommendationsFromSimilarUsers_ranked:
  "getRecommendationsFromSimilarUsers t sus allRatings allMovies lmt
     = slice0 (js_sort (\<lambda>a b. score b - score a)
         (collaborativeCandidates t sus allRatings allMovies)) lmt"
  by (simp add: getRecommendationsFromSimilarUsers_def collaborativeCandidates_def Let_def)

lemma candidate_scores:
  assumes "\<forall>su \<in> set sus. \<exists>s. similarity su = Num s \<and> 0.3 < s \<and> s \<le> 1"
    and "\<forall>r \<in> set allRatings. stars r \<le> H"
    and "rc \<in> set (collaborativeCandidates t sus allRatings allMovies)"
  shows "\<exists>x. score rc = Num x \<and> 1.2 < x \<and> x \<le> H"
proof -
  let ?ms = "foldl (collectVotes (set (map movieId (filter (\<lambda>r. userId r = t) allRatings))) allRatings) [] sus"
  have inv: "\<forall>e \<in> set ?ms. vote_ok H (snd e)"
    by (rule foldl_collectVotes_ok[OF _ assms(1,2)]) simp
  from assms(3) obtain mid sc cnt where e: "(mid, sc, cnt) \<in> set ?ms"
    and "score rc = sc / Num (real cnt)"
    unfolding collaborativeCandidates_def Let_def by (auto split: option.splits)
  moreover from inv e have "vote_ok H (sc, cnt)" by force
  then obtain x where "sc = Num x" "1 \<le> cnt" "1.2 * real cnt < x" "x \<le> H * real cnt"
    by (auto simp: vote_ok_def)
  ultimately have "score rc = Num (x / real cnt)" "1.2 < x / real cnt" "x / real cnt \<le> H"
    by (simp_all add: divide_number_def field_simps)
  then show ?thesis by blast
qed

lemma neighbour_scores:
  assumes "\<forall>su \<in> set sus. \<exists>s. similarity su = Num s \<and> 0.3 < s \<and> s \<le> 1"
    and "\<forall>r \<in> set allRatings. stars r \<le> H"
    and "rc \<in> set (getRecommendationsFromSimilarUsers t sus allRatings allMovies lmt)"
  shows "\<exists>x. score rc = Num x \<and> 1.2 < x \<and> x \<le> H"
proof -
  from assms(3) have "rc \<in> set (collaborativeCandidates t sus allRatings allMovies)"
    unfolding getRecommendationsFromSimilarUsers_ranked by (rule set_ranked[THEN subsetD])
  then show ?thesis by (rule candidate_scores[OF assms(1,2)])
qed

lemma genre_ratio:
  assumes "genre m \<noteq> []" "distinct (genre m)"
  shows "0 < length (remdups (genre m @ genre l))"
    "length (filter (\<lambda>g. g \<in> set (genre l)) (genre m)) \<le> length (remdups (genre m @ genre l))"
proof -
  let ?ov = "length (filter (\<lambda>g. g \<in> set (genre l)) (genre m))"
  let ?un = "length (remdups (genre m @ genre l))"
  have un: "?un = card (set (genre m) \<union> set (genre l))"
    by (simp add: length_remdups_card_conv)
  have "card (set (genre m)) \<le> card (set (genre m) \<union> set (genre l))"
    by (intro card_mono) simp_all
  moreover have "card (set (genre m)) = length (genre m)"
    using assms(2) by (rule distinct_card)
  moreover have "?ov \<le> length (genre m)" by simp
  moreover have "0 < length (genre m)" using assms(1) by simp
  ultimately show "0 < ?un" "?ov \<le> ?un" unfolding un by linarith+
qed

lemma likedMovieSimilarity_bounds:
  assumes "genre m \<noteq> []" "distinct (genre m)"
  shows "\<exists>x. likedMovieSimilarity m l = Num x \<and> 0 \<le> x \<and> x \<le> 1"
proof -
  let ?ov = "length (filter (\<lambda>g. g \<in> set (genre l)) (genre m))"
  let ?un = "length (remdups (genre m @ genre l))"
  let ?q = "real ?ov / real ?un"
  from genre_ratio[OF assms, of l] have un: "0 < ?un" and ov: "?ov \<le> ?un" .
  then have q: "0 \<le> ?q" "?q \<le> 1" by (simp_all add: field_simps)
  have s1: "Num 0 + (Num (real ?ov) / Num (real ?un)) * Num 0.5 = Num (?q * 0.5)"
    using assms(1) by (simp add: plus_number_def times_number_def divide_number_def)
  have add: "Num a + Num b = Num (a + b)" for a b by (simp add: plus_number_def)
  show ?thesis
    unfolding likedMovieSimilarity_def Let_def s1
    using q by (simp add: add)
qed

lemma foldl_similarity_sum:
  assumes "\<forall>l \<in> set ls. \<exists>x. f l = Num x \<and> 0 \<le> x \<and> x \<le> 1"
  shows "\<exists>t. foldl (\<lambda>total l. total + f l) (Num a) ls = Num t \<and> a \<le> t \<and> t \<le> a + real (length ls)"
  using assms
proof (induction ls arbitrary: a)
  case Nil
  then show ?case by simp
next
  case (Cons l ls)
  then obtain x where x: "f l = Num x" "0 \<le> x" "x \<le> 1" by auto
  from Cons.IH[of "a + x"] Cons.prems
  obtain t where "foldl (\<lambda>total l. total + f l) (Num (a + x)) ls = Num t"
    "a + x \<le> t" "t \<le> a + x + real (length ls)" by auto
  with x show ?case by (auto simp: plus_number_def)
qed

lemma calculateContentSimilarity_bounds:
  assumes "genre m \<noteq> []" "distinct (genre m)"
  shows "\<exists>x. calculateContentSimilarity m ls = Num x \<and> 0 \<le> x \<and> x \<le> 1"
proof (cases "ls = []")
  case True
  then show ?thesis by (simp add: calculateContentSimilarity_def)
next
  case False
  from foldl_similarity_sum[of ls "likedMovieSimilarity m" 0] likedMovieSimilarity_bounds[OF assms]
  obtain t where t: "foldl (\<lambda>total l. total + likedMovieSimilarity m l) (Num 0) ls = Num t"
    "0 \<le> t" "t \<le> real (length ls)" by auto
  from False have n: "0 < real (length ls)" by simp
  have "calculateContentSimilarity m ls = Num (t / real (length ls))"
    using False t(1) by (simp add: calculateContentSimilarity_def divide_number_def)
  moreover have "0 \<le> t / real (length ls)" "t / real (length ls) \<le> 1"
    using t n by (simp_all add: field_simps)
  ultimately show ?thesis by blast
qed

lemma popular_item:
  assumes "rc \<in> set (getPopularMovies allMovies lmt)"
  shows "\<exists>i. score rc = Num (0.8 - real i * 0.05) \<and> i < length (getPopularMovies allMovies lmt)"
proof -
  from assms obtain i where i: "i < length (getPopularMovies allMovies lmt)"
    and rc: "rc = getPopularMovies allMovies lmt ! i"
    by (auto simp: in_set_conv_nth)
  have "score rc = map score (getPopularMovies allMovies lmt) ! i" using i rc by simp
  also have "\<dots> = Num (0.8 - real i * 0.05)"
    unfolding map_score_popular using i by simp
  finally show ?thesis using i by blast
qed

lemma length_popular_le:
  assumes "0 \<le> lmt"
  shows "length (getPopularMovies allMovies lmt) \<le> nat lmt"
proof -
  have "length (getPopularMovies allMovies lmt) = length (map movie (getPopularMovies allMovies lmt))"
    by simp
  also have "\<dots> \<le> nat lmt"
    unfolding map_movie_popular using assms by (simp add: slice0_def)
  finally show ?thesis .
qed

lemma popular_scores:
  assumes "rc \<in> set (getPopularMovies allMovies lmt)" "0 \<le> lmt" "lmt \<le> 17"
  shows "score_between 0 0.8 (score rc)"
proof -
  from popular_item[OF assms(1)] obtain i where
    i: "score rc = Num (0.8 - real i * 0.05)" "i < length (getPopularMovies allMovies lmt)"
    by blast
  with length_popular_le[OF assms(2), of allMovies] assms(3) have "i < 17" by linarith
  then have "real i \<le> 16" by simp
  with i(1) show ?thesis by (simp add: score_between_iff)
qed

lemma popular_is_Num:
  "rc \<in> set (getPopularMovies allMovies lmt) \<Longrightarrow> is_Num (score rc)"
  by (auto dest: popular_item simp: is_Num_iff)

lemma descending_popular: "descending (getPopularMovies allMovies lmt)"
proof -
  let ?out = "getPopularMovies allMovies lmt"
  have "num_ge (score (?out ! i)) (score (?out ! j))" if "i < j" "j < length ?out" for i j
  proof -
    have "score (?out ! i) = map score ?out ! i" "score (?out ! j) = map score ?out ! j"
      using that by simp_all
    then have "score (?out ! i) = Num (0.8 - real i * 0.05)"
      "score (?out ! j) = Num (0.8 - real j * 0.05)"
      unfolding map_score_popular using that by simp_all
    with that(1) show ?thesis by simp
  qed
  then show ?thesis by (simp add: descending_def sorted_wrt_iff_nth_less)
qed

lemma collaborative_cases:
  "generateCollaborativeRecommendations db u allMovies lmt = getPopularMovies allMovies lmt
   \<or> (\<exists>rs us. getAllRatings db = Some rs \<and> getAllUsers db = Some us
         \<and> generateCollaborativeRecommendations db u allMovies lmt
             = getRecommendationsFromSimilarUsers u (findSimilarUsers u rs us) rs allMovies lmt)"
proof (cases "getAllRatings db")
  case None
  then show ?thesis by (simp add: generateCollaborativeRecommendations_def)
next
  case rs: (Some rs)
  show ?thesis
  proof (cases "getAllUsers db")
    case None
    with rs show ?thesis by (simp add: generateCollaborativeRecommendations_def)
  next
    case us: (Some us)
    show ?thesis
    proof (cases "filter (\<lambda>r. userId r = u) rs = []")
      case True
      with rs us show ?thesis by (simp add: generateCollaborativeRecommendations_def)
    next
      case False
      with rs us show ?thesis by (simp add: generateCollaborativeRecommendations_def Let_def)
    qed
  qed
qed

lemma content_cases:
  "generateContentBasedRecommendations db u allMovies lmt = getPopularMovies allMovies lmt
   \<or> (\<exists>urs ls. getUserRatings db u = Some urs \<and> ls \<noteq> []
         \<and> generateContentBasedRecommendations db u allMovies lmt
             = slice0 (js_sort (\<lambda>a b. score b - score a) (contentCandidates urs ls allMovies)) lmt)"
proof (cases "getUserRatings db u")
  case None
  then show ?thesis by (simp add: generateContentBasedRecommendations_def)
next
  case urs: (Some urs)
  show ?thesis
  proof (cases "collectLikedMovies db (filter (\<lambda>r. liked r \<and> 4 \<le> stars r) urs) []")
    case None
    with urs show ?thesis by (simp add: generateContentBasedRecommendations_def)
  next
    case ls: (Some ls)
    show ?thesis
    proof (cases "ls = []")
      case True
      with urs ls show ?thesis by (simp add: generateContentBasedRecommendations_def)
    next
      case False
      with urs ls have "generateContentBasedRecommendations db u allMovies lmt
             = slice0 (js_sort (\<lambda>a b. score b - score a) (contentCandidates urs ls allMovies)) lmt"
        by (simp add: generateContentBasedRecommendations_def Let_def contentCandidates_def)
      with urs False show ?thesis by blast
    qed
  qed
qed

lemma contentCandidates_item:
  assumes "rc \<in> set (contentCandidates urs ls allMovies)"
  shows "movie rc \<in> set allMovies \<and> score rc = calculateContentSimilarity (movie rc) ls"
  using assms by (auto simp: contentCandidates_def)

lemma content_scores:
  assumes "rc \<in> set (generateContentBasedRecommendations db u allMovies lmt)"
    and "\<forall>m \<in> set allMovies. genre m \<noteq> [] \<and> distinct (genre m)"
    and "0 \<le> lmt" "lmt \<le> 17"
  shows "score_between 0 1 (score rc)"
  using content_cases[of db u allMovies lmt]
proof (elim disjE exE conjE)
  assume "generateContentBasedRecommendations db u allMovies lmt = getPopularMovies allMovies lmt"
  with assms(1) have "rc \<in> set (getPopularMovies allMovies lmt)" by simp
  from popular_scores[OF this assms(3,4)] show ?thesis by (auto simp: score_between_iff)
next
  fix urs ls
  assume "generateContentBasedRecommendations db u allMovies lmt
             = slice0 (js_sort (\<lambda>a b. score b - score a) (contentCandidates urs ls allMovies)) lmt"
  with assms(1) have "rc \<in> set (contentCandidates urs ls allMovies)"
    using set_ranked by fastforce
  from contentCandidates_item[OF this] assms(2)
    calculateContentSimilarity_bounds[of "movie rc" ls]
  show ?thesis by (simp add: score_between_iff)
qed

lemma collaborative_scores:
  assumes "rc \<in> set (generateCollaborativeRecommendations db u allMovies lmt)"
    and "\<forall>rs. getAllRatings db = Some rs \<longrightarrow> (\<forall>r \<in> set rs. stars r \<le> 5)"
    and "0 \<le> lmt" "lmt \<le> 17"
  shows "score_between 0 5 (score rc)"
  using collaborative_cases[of db u allMovies lmt]
proof (elim disjE exE conjE)
  assume "generateCollaborativeRecommendations db u allMovies lmt = getPopularMovies allMovies lmt"
  with assms(1) have "rc \<in> set (getPopularMovies allMovies lmt)" by simp
  from popular_scores[OF this assms(3,4)] show ?thesis by (auto simp: score_between_iff)
next
  fix rs us
  assume rs: "getAllRatings db = Some rs"
    and "generateCollaborativeRecommendations db u allMovies lmt
             = getRecommendationsFromSimilarUsers u (findSimilarUsers u rs us) rs allMovies lmt"
  with assms(1) have rc: "rc \<in> set (getRecommendationsFromSimilarUsers u (findSimilarUsers u rs us) rs allMovies lmt)"
    by simp
  have sims: "\<forall>su \<in> set (findSimilarUsers u rs us). \<exists>s. similarity su = Num s \<and> 0.3 < s \<and> s \<le> 1"
    by (blast intro: findSimilarUsers_similarity)
  have st: "\<forall>r \<in> set rs. stars r \<le> 5" using assms(2) rs by blast
  from neighbour_scores[OF sims st rc] obtain x where "score rc = Num x" "1.2 < x" "x \<le> 5"
    by blast
  then show ?thesis by (simp add: score_between_iff)
qed

lemma addCollaborative_inv:
  assumes "\<forall>e \<in> set acc. P (score (snd e))" "P (score c * Num 0.6)"
  shows "\<forall>e \<in> set (addCollaborative acc c). P (score (snd e))"
proof
  fix e assume e: "e \<in> set (addCollaborative acc c)"
  obtain k v where kv: "e = (k, v)" by (cases e)
  from e have "v = c\<lparr>score := score c * Num 0.6, reason := reason c @ '' (collaborative filtering)''\<rparr>
               \<or> (k, v) \<in> set acc"
    unfolding addCollaborative_def kv by (blast dest: update_set_cases)
  with assms kv show "P (score (snd e))" by auto
qed

lemma addContentBased_inv:
  assumes "\<forall>e \<in> set acc. P (score (snd e))" "P (score k * Num 0.4)"
    and "\<And>x. P x \<Longrightarrow> P ((x + score k * Num 0.4) / Num 1.4)"
  shows "\<forall>e \<in> set (addContentBased acc k). P (score (snd e))"
proof
  fix e assume e: "e \<in> set (addContentBased acc k)"
  obtain j v where jv: "e = (j, v)" by (cases e)
  show "P (score (snd e))"
  proof (cases "map_of acc (movie_id (movie k))")
    case None
    with e have "v = k\<lparr>score := score k * Num 0.4, reason := reason k @ '' (content-based)''\<rparr>
                 \<or> (j, v) \<in> set acc"
      unfolding addContentBased_def jv by (auto dest: update_set_cases)
    with assms(1,2) jv show ?thesis by auto
  next
    case (Some ex)
    then have "(movie_id (movie k), ex) \<in> set acc" by (rule map_of_SomeD)
    with assms(1) have "P (score ex)" by force
    then have new: "P ((score ex + score k * Num 0.4) / Num 1.4)" by (rule assms(3))
    from Some e have "v = ex\<lparr>score := (score ex + score k * Num 0.4) / Num 1.4,
                            reason := reason ex @ '' + content similarity''\<rparr>
                 \<or> (j, v) \<in> set acc"
      unfolding addContentBased_def jv by (auto dest: update_set_cases)
    with assms(1) new jv show ?thesis by auto
  qed
qed

lemma combineRecs_inv:
  assumes cs: "\<forall>c \<in> set cs. P (score c * Num 0.6)"
    and ks: "\<forall>k \<in> set ks. P (score k * Num 0.4)"
    and both: "\<And>x k. P x \<Longrightarrow> k \<in> set ks \<Longrightarrow> P ((x + score k * Num 0.4) / Num 1.4)"
  shows "\<forall>e \<in> set (combineRecs cs ks). P (score (snd e))"
proof -
  have 1: "\<forall>e \<in> set (foldl addCollaborative acc cs'). P (score (snd e))"
    if "\<forall>e \<in> set acc. P (score (snd e))" "set cs' \<subseteq> set cs" for acc cs'
    using that
  proof (induction cs' arbitrary: acc)
    case Nil
    then show ?case by simp
  next
    case (Cons c cs')
    have "\<forall>e \<in> set (addCollaborative acc c). P (score (snd e))"
      using Cons.prems cs by (intro addCollaborative_inv) auto
    then show ?case using Cons.prems by (simp add: Cons.IH)
  qed
  have 2: "\<forall>e \<in> set (foldl addContentBased acc ks'). P (score (snd e))"
    if "\<forall>e \<in> set acc. P (score (snd e))" "set ks' \<subseteq> set ks" for acc ks'
    using that
  proof (induction ks' arbitrary: acc)
    case Nil
    then show ?case by simp
  next
    case (Cons k ks')
    have "\<forall>e \<in> set (addContentBased acc k). P (score (snd e))"
      using Cons.prems ks both by (intro addContentBased_inv) auto
    then show ?case using Cons.prems by (simp add: Cons.IH)
  qed
  show ?thesis unfolding combineRecs_def by (intro 2 1) simp_all
qed

lemma hybrid_item:
  assumes "rc \<in> set (generateHybridRecommendations db u allMovies lmt)"
  shows "\<exists>e \<in> set (combineRecs
                  (generateCollaborativeRecommendations db u allMovies \<lceil>real_of_int lmt * 0.6\<rceil>)
                  (generateContentBasedRecommendations db u allMovies \<lceil>real_of_int lmt * 0.4\<rceil>)).
           rc = snd e"
proof -
  from assms set_ranked have "rc \<in> set (map snd (combineRecs
                  (generateCollaborativeRecommendations db u allMovies \<lceil>real_of_int lmt * 0.6\<rceil>)
                  (generateContentBasedRecommendations db u allMovies \<lceil>real_of_int lmt * 0.4\<rceil>)))"
    unfolding generateHybridRecommendations_def Let_def by fastforce
  then show ?thesis by auto
qed

lemma hybrid_scores:
  assumes "rc \<in> set (generateHybridRecommendations db u allMovies lmt)"
    and g: "\<forall>m \<in> set allMovies. genre m \<noteq> [] \<and> distinct (genre m)"
    and st: "\<forall>rs. getAllRatings db = Some rs \<longrightarrow> (\<forall>r \<in> set rs. stars r \<le> 5)"
    and "0 \<le> lmt" "lmt \<le> 17"
  shows "score_between 0 3 (score rc)"
proof -
  let ?cs = "generateCollaborativeRecommendations db u allMovies \<lceil>real_of_int lmt * 0.6\<rceil>"
  let ?ks = "generateContentBasedRecommendations db u allMovies \<lceil>real_of_int lmt * 0.4\<rceil>"
  have l6: "0 \<le> \<lceil>real_of_int lmt * 0.6\<rceil>" "\<lceil>real_of_int lmt * 0.6\<rceil> \<le> 17"
    using assms(4,5) by (simp_all add: ceiling_le_iff)
  have l4: "0 \<le> \<lceil>real_of_int lmt * 0.4\<rceil>" "\<lceil>real_of_int lmt * 0.4\<rceil> \<le> 17"
    using assms(4,5) by (simp_all add: ceiling_le_iff)
  have cs: "\<forall>c \<in> set ?cs. score_between 0 5 (score c)"
    using collaborative_scores[OF _ st l6] by blast
  have ks: "\<forall>k \<in> set ?ks. score_between 0 1 (score k)"
    using content_scores[OF _ g l4] by blast
  have "\<forall>e \<in> set (combineRecs ?cs ?ks). score_between 0 3 (score (snd e))"
  proof (rule combineRecs_inv)
    show "\<forall>c \<in> set ?cs. score_between 0 3 (score c * Num 0.6)"
    proof
      fix c assume "c \<in> set ?cs"
      with cs obtain a where "score c = Num a" "0 \<le> a" "a \<le> 5"
        by (auto simp: score_between_iff)
      then show "score_between 0 3 (score c * Num 0.6)"
        by (simp add: score_between_def times_number_def)
    qed
    show "\<forall>k \<in> set ?ks. score_between 0 3 (score k * Num 0.4)"
    proof
      fix k assume "k \<in> set ?ks"
      with ks obtain b where "score k = Num b" "0 \<le> b" "b \<le> 1"
        by (auto simp: score_between_iff)
      then show "score_between 0 3 (score k * Num 0.4)"
        by (simp add: score_between_def times_number_def)
    qed
    show "score_between 0 3 ((x + score k * Num 0.4) / Num 1.4)"
      if "score_between 0 3 x" "k \<in> set ?ks" for x k
    proof -
      from that ks obtain a b where "x = Num a" "0 \<le> a" "a \<le> 3" "score k = Num b" "0 \<le> b" "b \<le> 1"
        by (auto simp: score_between_iff)
      then show ?thesis
        by (simp add: score_between_def times_number_def plus_number_def divide_number_def)
    qed
  qed
  with hybrid_item[OF assms(1)] show ?thesis by auto
qed

lemma sqrt_quarter: "sqrt (1 / 4) = 1 / 2"
  by (simp add: real_sqrt_divide)

lemma show_nat_1: "show_nat (Suc 0) = ''1''"
  by code_simp

lemma similarity_pair:
  "calculateUserSimilarity (filter (\<lambda>r. userId r = ''u1'') pair_ratings)
     (filter (\<lambda>r. userId r = ''u2'') pair_ratings) = Num 1"
  by (simp add: calculateUserSimilarity_def pair_ratings_def Let_def sqrt_quarter divide_number_def)

lemma neighbours_pair:
  "findSimilarUsers ''u1'' pair_ratings [user1, user2] = [\<lparr>user = user2, similarity = Num 1\<rparr>]"
  using similarity_pair
  by (simp add: findSimilarUsers_def Let_def user1_def user2_def js_sort_def slice0_def)

lemma collaborative_pair:
  "generateCollaborativeRecommendations db_pair ''u1'' [movie1, movie2, movie_low] 10
     = [\<lparr>movie = movie_low, score = Num 5, reason = ''Recommended by 1 similar user''\<rparr>]"
proof -
  have f: "filter (\<lambda>r. userId r = ''u1'') pair_ratings \<noteq> []" by (simp add: pair_ratings_def)
  have "getRecommendationsFromSimilarUsers ''u1'' [\<lparr>user = user2, similarity = Num 1\<rparr>]
          pair_ratings [movie1, movie2, movie_low] 10
        = [\<lparr>movie = movie_low, score = Num 5, reason = ''Recommended by 1 similar user''\<rparr>]"
    by (simp add: getRecommendationsFromSimilarUsers_def collectVotes_def addVote_def
        pair_ratings_def user2_def movie1_def movie2_def movie_low_def Let_def
        similarUsersReason_def show_nat_1 js_sort_def slice0_def
        plus_number_def times_number_def divide_number_def)
  with f neighbours_pair show ?thesis
    by (simp add: generateCollaborativeRecommendations_def db_pair_def Let_def)
qed

text \<open>
  The ranges the code does keep. With catalog genre lists that are non-empty and free of
  duplicates, star ratings of at most 5 and a limit between 0 and 17: every score of the
  content recommender lies in \<open>[0, 1]\<close>; every score of the popularity fallback lies in
  \<open>[0, 0.8]\<close>; every score the collaborative recommender computes from neighbours is
  greater than 1.2 and at most 5, so its scores lie in \<open>[0, 5]\<close>; every score of the hybrid
  recommender lies in \<open>[0, 3]\<close>.
\<close>

theorem scores_bounded:
  assumes "\<forall>m \<in> set allMovies. genre m \<noteq> [] \<and> distinct (genre m)"
    and "\<forall>rs. getAllRatings db = Some rs \<longrightarrow> (\<forall>r \<in> set rs. stars r \<le> 5)"
    and "0 \<le> lmt" "lmt \<le> 17"
  shows "(\<forall>r \<in> set (generateContentBasedRecommendations db u allMovies lmt).
            score_between 0 1 (score r))
       \<and> (\<forall>r \<in> set (getPopularMovies allMovies lmt). score_between 0 0.8 (score r))
       \<and> (\<forall>r \<in> set (generateCollaborativeRecommendations db u allMovies lmt).
            score_between 0 5 (score r))
       \<and> (\<forall>rs us. (\<forall>x \<in> set rs. stars x \<le> 5) \<longrightarrow>
            (\<forall>r \<in> set (getRecommendationsFromSimilarUsers u (findSimilarUsers u rs us) rs
                          allMovies lmt).
               \<exists>x. score r = Num x \<and> 1.2 < x \<and> x \<le> 5))
       \<and> (\<forall>r \<in> set (generateHybridRecommendations db u allMovies lmt).
            score_between 0 3 (score r))"
proof (intro conjI ballI allI impI)
  fix r assume "r \<in> set (generateContentBasedRecommendations db u allMovies lmt)"
  then show "score_between 0 1 (score r)" by (rule content_scores[OF _ assms(1,3,4)])
next
  fix r assume "r \<in> set (getPopularMovies allMovies lmt)"
  then show "score_between 0 0.8 (score r)" by (rule popular_scores[OF _ assms(3,4)])
next
  fix r assume "r \<in> set (generateCollaborativeRecommendations db u allMovies lmt)"
  then show "score_between 0 5 (score r)" by (rule collaborative_scores[OF _ assms(2,3,4)])
next
  fix rs us r
  assume st: "\<forall>x \<in> set rs. stars x \<le> 5"
    and r: "r \<in> set (getRecommendationsFromSimilarUsers u (findSimilarUsers u rs us) rs allMovies lmt)"
  have sims: "\<forall>su \<in> set (findSimilarUsers u rs us). \<exists>s. similarity su = Num s \<and> 0.3 < s \<and> s \<le> 1"
    by (blast intro: findSimilarUsers_similarity)
  from neighbour_scores[OF sims st r] show "\<exists>x. score r = Num x \<and> 1.2 < x \<and> x \<le> 5" .
next
  fix r assume "r \<in> set (generateHybridRecommendations db u allMovies lmt)"
  then show "score_between 0 3 (score r)" by (rule hybrid_scores[OF _ assms])
qed

lemma content_pair:
  "generateContentBasedRecommendations db_pair ''u1'' [movie1, movie2, movie_low] 10
     = [\<lparr>movie = movie1, score = Num 0.8, reason = ''Popular highly-rated movie''\<rparr>,
        \<lparr>movie = movie2, score = Num 0.75, reason = ''Popular highly-rated movie''\<rparr>]"
proof -
  have "getPopularMovies [movie1, movie2, movie_low] 10
     = [\<lparr>movie = movie1, score = Num 0.8, reason = ''Popular highly-rated movie''\<rparr>,
        \<lparr>movie = movie2, score = Num 0.75, reason = ''Popular highly-rated movie''\<rparr>]"
    by (simp add: getPopularMovies_def movie1_def movie2_def movie_low_def rating_truthy_def
        js_sort_def slice0_def minus_number_def enumerate_eq_zip)
  then show ?thesis
    by (simp add: generateContentBasedRecommendations_def db_pair_def pair_ratings_def)
qed

theorem scores_bounded_witness:
  "list_all (\<lambda>m. genre m \<noteq> [] \<and> distinct (genre m)) [movie1, movie2, movie_low]
   \<and> getAllRatings db_pair = Some pair_ratings
   \<and> list_all (\<lambda>r. stars r \<le> 5) pair_ratings
   \<and> (0::int) \<le> 10 \<and> (10::int) \<le> 17
   \<and> generateContentBasedRecommendations db_pair ''u1'' [movie1, movie2, movie_low] 10
       = [\<lparr>movie = movie1, score = Num 0.8, reason = ''Popular highly-rated movie''\<rparr>,
          \<lparr>movie = movie2, score = Num 0.75, reason = ''Popular highly-rated movie''\<rparr>]
   \<and> list_all (\<lambda>r. score_between 0 1 (score r))
         (generateContentBasedRecommendations db_pair ''u1'' [movie1, movie2, movie_low] 10)
   \<and> generateCollaborativeRecommendations db_pair ''u1'' [movie1, movie2, movie_low] 10
       = [\<lparr>movie = movie_low, score = Num 5, reason = ''Recommended by 1 similar user''\<rparr>]
   \<and> list_all (\<lambda>r. score_between 0 5 (score r))
         (generateCollaborativeRecommendations db_pair ''u1'' [movie1, movie2, movie_low] 10)
   \<and> list_all (\<lambda>r. score_between 0 3 (score r))
         (generateHybridRecommendations db_pair ''u1'' [movie1, movie2, movie_low] 10)"
proof -
  have g: "\<forall>m \<in> set [movie1, movie2, movie_low]. genre m \<noteq> [] \<and> distinct (genre m)"
    by (simp add: movie1_def movie2_def movie_low_def)
  have st: "\<forall>rs. getAllRatings db_pair = Some rs \<longrightarrow> (\<forall>r \<in> set rs. stars r \<le> 5)"
    by (simp add: db_pair_def pair_ratings_def)
  have a: "getAllRatings db_pair = Some pair_ratings" by (simp add: db_pair_def)
  from scores_bounded[OF g st, of 10 "''u1''"] g a st collaborative_pair content_pair
  show ?thesis by (simp add: list_all_iff)
qed

text \<open>
  Outside these conditions the scores leave the ranges: the eighteenth item of the
  popularity fallback has a negative score, and a candidate and a liked movie that both
  have no genre give the score \<open>NaN\<close>.
\<close>

lemma popular_score_negative:
  assumes "17 < length (getPopularMovies allMovies lmt)"
  shows "score (getPopularMovies allMovies lmt ! 17) = Num (- 0.05)"
proof -
  have "score (getPopularMovies allMovies lmt ! 17)
          = map score (getPopularMovies allMovies lmt) ! 17"
    using assms by simp
  also have "\<dots> = Num (0.8 - real (17::nat) * 0.05)"
    unfolding map_score_popular using assms by (simp del: map_map)
  finally show ?thesis by simp
qed

lemma content_score_NaN:
  assumes "genre m = []" "genre l = []"
  shows "calculateContentSimilarity m [l] = NaN"
proof -
  have "likedMovieSimilarity m l = NaN"
    using assms
    by (simp add: likedMovieSimilarity_def Let_def inf_of_sign_def plus_number_def times_number_def
        divide_number_def)
  then show ?thesis
    by (simp add: calculateContentSimilarity_def Let_def plus_number_def divide_number_def)
qed

text \<open>
  Claim C1: every score returned by the collaborative, content and hybrid recommenders
  lies in \<open>[0, 1]\<close>. The collaborative recommender does not keep it. For a user who rated
  two movies 1 and 2 stars, with one other user who rated them the same and a third movie
  5 stars, it returns that third movie with the score 5: the neighbour's rating times the
  similarity 1, divided by the number of neighbours, with no division by the rating scale.
\<close>

theorem collaborative_score_not_normalized:
  "generateCollaborativeRecommendations db_pair ''u1'' [movie1, movie2, movie_low] 10
     = [\<lparr>movie = movie_low, score = Num 5, reason = ''Recommended by 1 similar user''\<rparr>]
   \<and> \<not> score_between 0 1 (Num 5)"
  using collaborative_pair by (simp add: score_between_def)

section \<open>Verification: the order of the results\<close>

lemma likedMovieSimilarity_is_Num:
  assumes "genre m \<noteq> []"
  shows "is_Num (likedMovieSimilarity m l)"
proof -
  let ?ov = "length (filter (\<lambda>g. g \<in> set (genre l)) (genre m))"
  let ?un = "length (remdups (genre m @ genre l))"
  have s1: "Num 0 + (Num (real ?ov) / Num (real ?un)) * Num 0.5 = Num (real ?ov / real ?un * 0.5)"
    using assms by (simp add: plus_number_def times_number_def divide_number_def)
  have add: "Num a + Num b = Num (a + b)" for a b by (simp add: plus_number_def)
  show ?thesis
    unfolding likedMovieSimilarity_def Let_def s1
    by (simp add: add is_Num_def)
qed

lemma foldl_is_Num:
  assumes "\<forall>l \<in> set ls. is_Num (f l)"
  shows "is_Num (foldl (\<lambda>total l. total + f l) (Num a) ls)"
  using assms
proof (induction ls arbitrary: a)
  case Nil
  then show ?case by (simp add: is_Num_def)
next
  case (Cons l ls)
  then obtain x where "f l = Num x" by (auto simp: is_Num_iff)
  with Cons show ?case by (simp add: plus_number_def)
qed

lemma calculateContentSimilarity_is_Num:
  assumes "genre m \<noteq> []"
  shows "is_Num (calculateContentSimilarity m ls)"
proof (cases "ls = []")
  case True
  then show ?thesis by (simp add: calculateContentSimilarity_def is_Num_def)
next
  case False
  have "is_Num (foldl (\<lambda>total l. total + likedMovieSimilarity m l) (Num 0) ls)"
    by (rule foldl_is_Num) (simp add: likedMovieSimilarity_is_Num[OF assms])
  then obtain t where "foldl (\<lambda>total l. total + likedMovieSimilarity m l) (Num 0) ls = Num t"
    by (auto simp: is_Num_iff)
  with False show ?thesis
    by (simp add: calculateContentSimilarity_def divide_number_def is_Num_def)
qed

lemma contentCandidates_is_Num:
  assumes "\<forall>m \<in> set allMovies. genre m \<noteq> []"
  shows "\<forall>rc \<in> set (contentCandidates urs ls allMovies). is_Num (score rc)"
  using assms by (auto simp: contentCandidates_def calculateContentSimilarity_is_Num)

lemma stars_bounded: "\<exists>H. \<forall>r \<in> set (rs :: rating list). stars r \<le> H"
proof (induction rs)
  case Nil
  show ?case by simp
next
  case (Cons r rs)
  then obtain H where "\<forall>r \<in> set rs. stars r \<le> H" by blast
  then have "\<forall>x \<in> set (r # rs). stars x \<le> max H (stars r)" by auto
  then show ?case by blast
qed

lemma collaborativeCandidates_is_Num:
  "\<forall>rc \<in> set (collaborativeCandidates u (findSimilarUsers u rs us) rs allMovies). is_Num (score rc)"
proof
  fix rc assume rc: "rc \<in> set (collaborativeCandidates u (findSimilarUsers u rs us) rs allMovies)"
  obtain H where H: "\<forall>r \<in> set rs. stars r \<le> H" using stars_bounded by blast
  have sims: "\<forall>su \<in> set (findSimilarUsers u rs us). \<exists>s. similarity su = Num s \<and> 0.3 < s \<and> s \<le> 1"
    by (blast intro: findSimilarUsers_similarity)
  from candidate_scores[OF sims H rc] show "is_Num (score rc)" by (auto simp: is_Num_iff)
qed

lemma descending_content:
  assumes "\<forall>m \<in> set allMovies. genre m \<noteq> []"
  shows "descending (generateContentBasedRecommendations db u allMovies lmt)"
  using content_cases[of db u allMovies lmt]
proof (elim disjE exE conjE)
  assume "generateContentBasedRecommendations db u allMovies lmt = getPopularMovies allMovies lmt"
  then show ?thesis by (simp add: descending_popular)
next
  fix urs ls
  assume "generateContentBasedRecommendations db u allMovies lmt
             = slice0 (js_sort (\<lambda>a b. score b - score a) (contentCandidates urs ls allMovies)) lmt"
  then show ?thesis
    by (simp add: descending_ranked[OF contentCandidates_is_Num[OF assms]])
qed

lemma descending_collaborative:
  "descending (generateCollaborativeRecommendations db u allMovies lmt)"
  using collaborative_cases[of db u allMovies lmt]
proof (elim disjE exE conjE)
  assume "generateCollaborativeRecommendations db u allMovies lmt = getPopularMovies allMovies lmt"
  then show ?thesis by (simp add: descending_popular)
next
  fix rs us
  assume "generateCollaborativeRecommendations db u allMovies lmt
             = getRecommendationsFromSimilarUsers u (findSimilarUsers u rs us) rs allMovies lmt"
  then show ?thesis
    by (simp add: getRecommendationsFromSimilarUsers_ranked
        descending_ranked[OF collaborativeCandidates_is_Num])
qed

lemma collaborative_is_Num:
  "\<forall>rc \<in> set (generateCollaborativeRecommendations db u allMovies lmt). is_Num (score rc)"
  using collaborative_cases[of db u allMovies lmt]
proof (elim disjE exE conjE)
  assume "generateCollaborativeRecommendations db u allMovies lmt = getPopularMovies allMovies lmt"
  then show ?thesis by (simp add: popular_is_Num)
next
  fix rs us
  assume "generateCollaborativeRecommendations db u allMovies lmt
             = getRecommendationsFromSimilarUsers u (findSimilarUsers u rs us) rs allMovies lmt"
  then show ?thesis
    unfolding getRecommendationsFromSimilarUsers_ranked
    using collaborativeCandidates_is_Num[of u rs us allMovies] set_ranked by fastforce
qed

lemma content_is_Num:
  assumes "\<forall>m \<in> set allMovies. genre m \<noteq> []"
  shows "\<forall>rc \<in> set (generateContentBasedRecommendations db u allMovies lmt). is_Num (score rc)"
  using content_cases[of db u allMovies lmt]
proof (elim disjE exE conjE)
  assume "generateContentBasedRecommendations db u allMovies lmt = getPopularMovies allMovies lmt"
  then show ?thesis by (simp add: popular_is_Num)
next
  fix urs ls
  assume "generateContentBasedRecommendations db u allMovies lmt
             = slice0 (js_sort (\<lambda>a b. score b - score a) (contentCandidates urs ls allMovies)) lmt"
  then show ?thesis
    using contentCandidates_is_Num[OF assms, of urs ls] set_ranked by fastforce
qed

lemma combined_is_Num:
  assumes "\<forall>c \<in> set cs. is_Num (score c)" "\<forall>k \<in> set ks. is_Num (score k)"
  shows "\<forall>e \<in> set (combineRecs cs ks). is_Num (score (snd e))"
proof (rule combineRecs_inv)
  have w: "is_Num n \<Longrightarrow> is_Num (n * Num a)" for n a
    by (cases n) (simp_all add: is_Num_def times_number_def)
  show "\<forall>c \<in> set cs. is_Num (score c * Num 0.6)"
    using assms(1) by (blast intro: w)
  show "\<forall>k \<in> set ks. is_Num (score k * Num 0.4)"
    using assms(2) by (blast intro: w)
  show "is_Num ((x + score k * Num 0.4) / Num 1.4)" if "is_Num x" "k \<in> set ks" for x k
  proof -
    from that assms(2) obtain a b where "x = Num a" "score k = Num b"
      by (auto simp: is_Num_iff)
    then show ?thesis
      by (simp add: is_Num_def times_number_def plus_number_def divide_number_def)
  qed
qed

lemma descending_hybrid:
  assumes "\<forall>m \<in> set allMovies. genre m \<noteq> []"
  shows "descending (generateHybridRecommendations db u allMovies lmt)"
proof -
  have "\<forall>r \<in> set (map snd (combineRecs
            (generateCollaborativeRecommendations db u allMovies \<lceil>real_of_int lmt * 0.6\<rceil>)
            (generateContentBasedRecommendations db u allMovies \<lceil>real_of_int lmt * 0.4\<rceil>))).
          is_Num (score r)"
    using combined_is_Num[OF collaborative_is_Num content_is_Num[OF assms]] by auto
  then show ?thesis
    unfolding generateHybridRecommendations_def Let_def by (rule descending_ranked)
qed

lemma stable_by_score:
  fixes xs :: "'r recommendation list"
  assumes "\<forall>r \<in> set xs. is_Num (score r)"
  shows "filter (\<lambda>r. score r = s) (js_sort (\<lambda>a b. score b - score a) xs)
       = filter (\<lambda>r. score r = s) xs"
proof -
  let ?k = "\<lambda>r :: 'r recommendation. - num_val (score r)"
  have eq: "(score r = s) = (is_Num s \<and> ?k r = - num_val s)" if "r \<in> set xs" for r
  proof -
    from that assms obtain x where "score r = Num x" by (auto simp: is_Num_iff)
    then show ?thesis by (cases s) (auto simp: is_Num_def num_val_def)
  qed
  have 1: "filter (\<lambda>r. score r = s) ys = filter (\<lambda>r. is_Num s \<and> ?k r = - num_val s) ys"
    if "set ys \<subseteq> set xs" for ys
    using that by (intro filter_cong refl eq) auto
  show ?thesis
  proof (cases "is_Num s")
    case True
    have "filter (\<lambda>r. score r = s) (sort_key ?k xs) = filter (\<lambda>r. ?k r = - num_val s) (sort_key ?k xs)"
      using 1[of "sort_key ?k xs"] True by simp
    also have "\<dots> = filter (\<lambda>r. ?k r = - num_val s) xs" by (rule sort_key_stable)
    also have "\<dots> = filter (\<lambda>r. score r = s) xs" using 1[of xs] True by simp
    finally show ?thesis by (simp add: sort_by_score[OF assms])
  next
    case False
    then show ?thesis using 1[of xs] 1[of "sort_key ?k xs"] by (simp add: sort_by_score[OF assms])
  qed
qed

lemma ranked_ties:
  fixes xs :: "'r recommendation list"
  assumes "\<forall>r \<in> set xs. is_Num (score r)"
  shows "prefix (filter (\<lambda>r. score r = s) (slice0 (js_sort (\<lambda>a b. score b - score a) xs) lmt))
           (filter (\<lambda>r. score r = s) xs)"
proof -
  obtain n where "slice0 (js_sort (\<lambda>a b. score b - score a) xs) lmt
                  = take n (js_sort (\<lambda>a b. score b - score a) xs)"
    using slice0_take by blast
  then have "prefix (slice0 (js_sort (\<lambda>a b. score b - score a) xs) lmt)
               (js_sort (\<lambda>a b. score b - score a) xs)"
    by (simp add: take_is_prefix)
  then have "prefix (filter (\<lambda>r. score r = s) (slice0 (js_sort (\<lambda>a b. score b - score a) xs) lmt))
               (filter (\<lambda>r. score r = s) (js_sort (\<lambda>a b. score b - score a) xs))"
    by (rule filter_mono_prefix)
  then show ?thesis by (simp only: stable_by_score[OF assms])
qed

lemma map_movie_contentCandidates:
  "map movie (filter P (contentCandidates urs ls allMovies))
     = filter (\<lambda>m. P \<lparr>movie = m, score = calculateContentSimilarity m ls,
                        reason = generateContentReason m ls\<rparr>)
         (filter (\<lambda>m. \<not> list_ex (\<lambda>r. movieId r = movie_id m) urs) allMovies)"
  by (simp add: contentCandidates_def filter_map comp_def)

lemma distinct_scores_popular: "distinct (map score (getPopularMovies allMovies lmt))"
proof -
  have "inj_on (\<lambda>i. Num (0.8 - real i * 0.05)) A" for A
    by (rule inj_onI) simp
  then show ?thesis
    unfolding map_score_popular by (simp add: distinct_map)
qed

lemma filter_distinct_key:
  assumes "distinct (map f xs)"
  shows "filter (\<lambda>x. f x = s) xs = [] \<or> (\<exists>x \<in> set xs. filter (\<lambda>x. f x = s) xs = [x])"
  using assms
proof (induction xs)
  case Nil
  show ?case by simp
next
  case (Cons a xs)
  show ?case
  proof (cases "f a = s")
    case True
    with Cons.prems have "\<forall>x \<in> set xs. f x \<noteq> s" by (auto simp: image_iff)
    then have "filter (\<lambda>x. f x = s) xs = []" by (simp add: filter_empty_conv)
    with True show ?thesis by simp
  next
    case False
    with Cons show ?thesis by auto
  qed
qed

lemma set_movie_popular: "movie ` set (getPopularMovies allMovies lmt) \<subseteq> set allMovies"
proof -
  have "set (map movie (getPopularMovies allMovies lmt)) \<subseteq> set (filter popular allMovies)"
    unfolding map_movie_popular using set_slice0 by (metis set_sort)
  then show ?thesis by auto
qed

lemma content_ties:
  assumes "\<forall>m \<in> set allMovies. genre m \<noteq> []"
  shows "subseq (map movie (filter (\<lambda>r. score r = s)
                   (generateContentBasedRecommendations db u allMovies lmt))) allMovies"
  using content_cases[of db u allMovies lmt]
proof (elim disjE exE conjE)
  assume p: "generateContentBasedRecommendations db u allMovies lmt = getPopularMovies allMovies lmt"
  from filter_distinct_key[OF distinct_scores_popular, of s allMovies lmt]
  show ?thesis
  proof
    assume "filter (\<lambda>x. score x = s) (getPopularMovies allMovies lmt) = []"
    with p show ?thesis by simp
  next
    assume "\<exists>x \<in> set (getPopularMovies allMovies lmt).
              filter (\<lambda>x. score x = s) (getPopularMovies allMovies lmt) = [x]"
    then obtain x where "x \<in> set (getPopularMovies allMovies lmt)"
      "filter (\<lambda>x. score x = s) (getPopularMovies allMovies lmt) = [x]" by blast
    with p set_movie_popular[of allMovies lmt] show ?thesis
      by (auto simp: subseq_singleton_left)
  qed
next
  fix urs ls
  assume r: "generateContentBasedRecommendations db u allMovies lmt
             = slice0 (js_sort (\<lambda>a b. score b - score a) (contentCandidates urs ls allMovies)) lmt"
  let ?P = "\<lambda>r :: string recommendation. score r = s"
  have "prefix (filter ?P (generateContentBasedRecommendations db u allMovies lmt))
          (filter ?P (contentCandidates urs ls allMovies))"
    unfolding r by (rule ranked_ties[OF contentCandidates_is_Num[OF assms]])
  then have "subseq (map movie (filter ?P (generateContentBasedRecommendations db u allMovies lmt)))
          (map movie (filter ?P (contentCandidates urs ls allMovies)))"
    by (intro subseq_map prefix_imp_subseq)
  also have "subseq (map movie (filter ?P (contentCandidates urs ls allMovies))) allMovies"
    unfolding map_movie_contentCandidates
    by (rule subseq_order.trans[OF subseq_filter_left subseq_filter_left])
  finally show ?thesis .
qed

lemma hybrid_ties:
  assumes "\<forall>m \<in> set allMovies. genre m \<noteq> []"
  shows "prefix (filter (\<lambda>r. score r = s) (generateHybridRecommendations db u allMovies lmt))
           (filter (\<lambda>r. score r = s) (map snd (combineRecs
              (generateCollaborativeRecommendations db u allMovies \<lceil>real_of_int lmt * 0.6\<rceil>)
              (generateContentBasedRecommendations db u allMovies \<lceil>real_of_int lmt * 0.4\<rceil>))))"
proof -
  have "\<forall>r \<in> set (map snd (combineRecs
            (generateCollaborativeRecommendations db u allMovies \<lceil>real_of_int lmt * 0.6\<rceil>)
            (generateContentBasedRecommendations db u allMovies \<lceil>real_of_int lmt * 0.4\<rceil>))).
          is_Num (score r)"
    using combined_is_Num[OF collaborative_is_Num content_is_Num[OF assms]] by auto
  then show ?thesis
    unfolding generateHybridRecommendations_def Let_def by (rule ranked_ties)
qed

lemma collaborative_ties:
  "generateCollaborativeRecommendations db u allMovies lmt = getPopularMovies allMovies lmt
   \<or> (\<exists>rs us. getAllRatings db = Some rs \<and> getAllUsers db = Some us
         \<and> prefix (filter (\<lambda>r. score r = s) (generateCollaborativeRecommendations db u allMovies lmt))
              (filter (\<lambda>r. score r = s)
                 (collaborativeCandidates u (findSimilarUsers u rs us) rs allMovies)))"
  using collaborative_cases[of db u allMovies lmt]
proof (elim disjE exE conjE)
  assume "generateCollaborativeRecommendations db u allMovies lmt = getPopularMovies allMovies lmt"
  then show ?thesis by simp
next
  fix rs us
  assume a: "getAllRatings db = Some rs" "getAllUsers db = Some us"
    and r: "generateCollaborativeRecommendations db u allMovies lmt
             = getRecommendationsFromSimilarUsers u (findSimilarUsers u rs us) rs allMovies lmt"
  have "prefix (filter (\<lambda>r. score r = s) (generateCollaborativeRecommendations db u allMovies lmt))
              (filter (\<lambda>r. score r = s)
                 (collaborativeCandidates u (findSimilarUsers u rs us) rs allMovies))"
    unfolding r getRecommendationsFromSimilarUsers_ranked
    by (rule ranked_ties[OF collaborativeCandidates_is_Num])
  with a show ?thesis by blast
qed

lemma content_tie_example:
  "generateContentBasedRecommendations db_lonely ''u1'' [movie_b, movie_a] 10
     = [\<lparr>movie = movie_b, score = Num 0.75,
         reason = ''Recommended because it shares sci-fi genre and same director as liked movies''\<rparr>,
        \<lparr>movie = movie_a, score = Num 0.75,
         reason = ''Recommended because it shares sci-fi genre and same director as liked movies''\<rparr>]"
  by (simp add: generateContentBasedRecommendations_def db_lonely_def movie1_def movie_a_def
      movie_b_def calculateContentSimilarity_def likedMovieSimilarity_def generateContentReason_def
      str_truthy_def rating_truthy_def Let_def js_sort_def slice0_def
      plus_number_def minus_number_def times_number_def divide_number_def)

lemma content_tie_example_rev:
  "generateContentBasedRecommendations db_lonely ''u1'' [movie_a, movie_b] 10
     = [\<lparr>movie = movie_a, score = Num 0.75,
         reason = ''Recommended because it shares sci-fi genre and same director as liked movies''\<rparr>,
        \<lparr>movie = movie_b, score = Num 0.75,
         reason = ''Recommended because it shares sci-fi genre and same director as liked movies''\<rparr>]"
  by (simp add: generateContentBasedRecommendations_def db_lonely_def movie1_def movie_a_def
      movie_b_def calculateContentSimilarity_def likedMovieSimilarity_def generateContentReason_def
      str_truthy_def rating_truthy_def Let_def js_sort_def slice0_def
      plus_number_def minus_number_def times_number_def divide_number_def)

lemma ma_less_mb: "''ma'' < ''mb''"
  by (simp add: less_char_def)

section \<open>The merge of the hybrid recommender\<close>

lemma map_of_addCollaborative:
  "map_of (addCollaborative acc c) = (map_of acc)(rid c \<mapsto> weightedCollaborative c)"
  by (simp add: addCollaborative_def update_conv' rid_def weightedCollaborative_def)

lemma map_of_addContentBased:
  "map_of (addContentBased acc k) =
     (map_of acc)(rid k \<mapsto>
        (case map_of acc (rid k) of
           Some ex \<Rightarrow> ex\<lparr>score := (score ex + score k * Num 0.4) / Num 1.4,
                         reason := reason ex @ '' + content similarity''\<rparr>
         | None \<Rightarrow> k\<lparr>score := score k * Num 0.4, reason := reason k @ '' (content-based)''\<rparr>))"
  by (simp add: addContentBased_def update_conv' rid_def split: option.splits)

lemma collaborative_untouched:
  "i \<notin> rid ` set cs \<Longrightarrow> map_of (foldl addCollaborative acc cs) i = map_of acc i"
  by (induction cs arbitrary: acc) (simp_all add: map_of_addCollaborative)

lemma collaborative_entry:
  assumes "distinct (map rid cs)" "c \<in> set cs"
  shows "map_of (foldl addCollaborative acc cs) (rid c) = Some (weightedCollaborative c)"
  using assms
proof (induction cs arbitrary: acc)
  case Nil
  then show ?case by simp
next
  case (Cons a cs)
  show ?case
  proof (cases "c = a")
    case True
    with Cons.prems have "rid c \<notin> rid ` set cs" by simp
    then show ?thesis
      using True by (simp add: collaborative_untouched map_of_addCollaborative)
  next
    case False
    with Cons show ?thesis by simp
  qed
qed

lemma content_untouched:
  "i \<notin> rid ` set ks \<Longrightarrow> map_of (foldl addContentBased acc ks) i = map_of acc i"
  by (induction ks arbitrary: acc) (simp_all add: map_of_addContentBased)

lemma content_entry:
  assumes "distinct (map rid ks)" "k \<in> set ks" "map_of acc (rid k) = Some ex"
  shows "map_of (foldl addContentBased acc ks) (rid k)
         = Some (ex\<lparr>score := (score ex + score k * Num 0.4) / Num 1.4,
                     reason := reason ex @ '' + content similarity''\<rparr>)"
  using assms
proof (induction ks arbitrary: acc)
  case Nil
  then show ?case by simp
next
  case (Cons a ks)
  show ?case
  proof (cases "k = a")
    case True
    with Cons.prems have "rid k \<notin> rid ` set ks" by simp
    then show ?thesis
      using True Cons.prems(3) by (simp add: content_untouched map_of_addContentBased)
  next
    case False
    with Cons.prems have k: "k \<in> set ks" and ne: "rid a \<noteq> rid k" by auto
    from ne Cons.prems(3) have "map_of (addContentBased acc a) (rid k) = Some ex"
      by (simp add: map_of_addContentBased)
    with Cons.IH[OF _ k] Cons.prems(1) show ?thesis by simp
  qed
qed

lemma combineRecs_both:
  assumes "distinct (map rid cs)" "distinct (map rid ks)" "c \<in> set cs" "k \<in> set ks"
    and "rid k = rid c"
  shows "map_of (combineRecs cs ks) (rid c) = Some (mergedBoth c k)"
proof -
  have "map_of (foldl addCollaborative [] cs) (rid k) = Some (weightedCollaborative c)"
    using collaborative_entry[OF assms(1,3)] assms(5) by simp
  from content_entry[OF assms(2,4) this] show ?thesis
    by (simp add: combineRecs_def assms(5) weightedCollaborative_def mergedBoth_def)
qed

text \<open>Each key of the merged map is the identifier of its value, and no key occurs twice.\<close>

lemma addCollaborative_keys:
  assumes "distinct (map fst acc)" "\<forall>e \<in> set acc. rid (snd e) = fst e"
  shows "distinct (map fst (addCollaborative acc c))
         \<and> (\<forall>e \<in> set (addCollaborative acc c). rid (snd e) = fst e)"
proof
  show "distinct (map fst (addCollaborative acc c))"
    using assms(1) by (simp add: addCollaborative_def distinct_update)
  show "\<forall>e \<in> set (addCollaborative acc c). rid (snd e) = fst e"
  proof
    fix e assume e: "e \<in> set (addCollaborative acc c)"
    obtain j v where jv: "e = (j, v)" by (cases e)
    from e have "(j = movie_id (movie c) \<and> v = c\<lparr>score := score c * Num 0.6,
                    reason := reason c @ '' (collaborative filtering)''\<rparr>) \<or> (j, v) \<in> set acc"
      unfolding addCollaborative_def jv by (blast dest: update_set_cases)
    with assms(2) jv show "rid (snd e) = fst e" by (auto simp: rid_def)
  qed
qed

lemma addContentBased_keys:
  assumes "distinct (map fst acc)" "\<forall>e \<in> set acc. rid (snd e) = fst e"
  shows "distinct (map fst (addContentBased acc k))
         \<and> (\<forall>e \<in> set (addContentBased acc k). rid (snd e) = fst e)"
proof
  show "distinct (map fst (addContentBased acc k))"
    using assms(1) by (simp add: addContentBased_def distinct_update split: option.splits)
  show "\<forall>e \<in> set (addContentBased acc k). rid (snd e) = fst e"
  proof
    fix e assume e: "e \<in> set (addContentBased acc k)"
    obtain j v where jv: "e = (j, v)" by (cases e)
    show "rid (snd e) = fst e"
    proof (cases "map_of acc (movie_id (movie k))")
      case None
      with e have "(j = movie_id (movie k) \<and> v = k\<lparr>score := score k * Num 0.4,
                      reason := reason k @ '' (content-based)''\<rparr>) \<or> (j, v) \<in> set acc"
        unfolding addContentBased_def jv by (auto dest: update_set_cases)
      with assms(2) jv show ?thesis by (auto simp: rid_def)
    next
      case (Some ex)
      then have "(movie_id (movie k), ex) \<in> set acc" by (rule map_of_SomeD)
      with assms(2) have ex: "rid ex = movie_id (movie k)" by force
      from Some e have "(j = movie_id (movie k)
                         \<and> v = ex\<lparr>score := (score ex + score k * Num 0.4) / Num 1.4,
                                   reason := reason ex @ '' + content similarity''\<rparr>)
                        \<or> (j, v) \<in> set acc"
        unfolding addContentBased_def jv by (auto dest: update_set_cases)
      with assms(2) jv ex show ?thesis by (auto simp: rid_def)
    qed
  qed
qed

lemma combineRecs_keys:
  "distinct (map fst (combineRecs cs ks)) \<and> (\<forall>e \<in> set (combineRecs cs ks). rid (snd e) = fst e)"
proof -
  have 1: "distinct (map fst (foldl addCollaborative acc xs))
           \<and> (\<forall>e \<in> set (foldl addCollaborative acc xs). rid (snd e) = fst e)"
    if "distinct (map fst acc)" "\<forall>e \<in> set acc. rid (snd e) = fst e" for acc xs
    using that
  proof (induction xs arbitrary: acc)
    case Nil
    then show ?case by simp
  next
    case (Cons x xs)
    from addCollaborative_keys[OF Cons.prems, of x]
    have "distinct (map fst (addCollaborative acc x))"
      "\<forall>e \<in> set (addCollaborative acc x). rid (snd e) = fst e" by blast+
    from Cons.IH[OF this] show ?case by simp
  qed
  have 2: "distinct (map fst (foldl addContentBased acc xs))
           \<and> (\<forall>e \<in> set (foldl addContentBased acc xs). rid (snd e) = fst e)"
    if "distinct (map fst acc)" "\<forall>e \<in> set acc. rid (snd e) = fst e" for acc xs
    using that
  proof (induction xs arbitrary: acc)
    case Nil
    then show ?case by simp
  next
    case (Cons x xs)
    from addContentBased_keys[OF Cons.prems, of x]
    have "distinct (map fst (addContentBased acc x))"
      "\<forall>e \<in> set (addContentBased acc x). rid (snd e) = fst e" by blast+
    from Cons.IH[OF this] show ?case by simp
  qed
  have "distinct (map fst (foldl addCollaborative [] cs))
        \<and> (\<forall>e \<in> set (foldl addCollaborative [] cs). rid (snd e) = fst e)"
    by (rule 1) simp_all
  then show ?thesis unfolding combineRecs_def by (intro 2) blast+
qed

lemma combineRecs_member:
  assumes "r \<in> set (map snd (combineRecs cs ks))"
  shows "map_of (combineRecs cs ks) (rid r) = Some r"
proof -
  from assms obtain j where j: "(j, r) \<in> set (combineRecs cs ks)" by auto
  with combineRecs_keys[of cs ks] have "rid r = j" by force
  with j combineRecs_keys[of cs ks] show ?thesis by (simp add: map_of_is_SomeI)
qed


section \<open>distinct identifiers\<close>

lemma distinct_map_slice0: "distinct (map f xs) \<Longrightarrow> distinct (map f (slice0 xs n))"
  by (auto simp: slice0_def take_map[symmetric] distinct_take)

lemma distinct_map_sort_key: "distinct (map f (sort_key k xs)) = distinct (map f xs)"
proof -
  have "mset (map f (sort_key k xs)) = mset (map f xs)" by simp
  then show ?thesis by (rule mset_eq_imp_distinct_iff)
qed

lemma distinct_map_js_sort: "distinct (map f (js_sort cmp xs)) = distinct (map f xs)"
proof -
  have "mset (map f (js_sort cmp xs)) = mset (map f xs)" by (simp add: mset_js_sort)
  then show ?thesis by (rule mset_eq_imp_distinct_iff)
qed

lemma distinct_popular:
  assumes "distinct (map movie_id allMovies)"
  shows "distinct (map rid (getPopularMovies allMovies lmt))"
proof -
  have "map rid (getPopularMovies allMovies lmt)
        = map movie_id (map movie (getPopularMovies allMovies lmt))"
    by (simp add: rid_def comp_def)
  also have "\<dots> = map movie_id (slice0 (sort_key (\<lambda>m. - quality m) (filter popular allMovies)) lmt)"
    by (simp only: map_movie_popular)
  finally show ?thesis
    using assms by (simp add: distinct_map_slice0 distinct_map_sort_key distinct_map_filter)
qed

lemma distinct_content:
  assumes "distinct (map movie_id allMovies)"
  shows "distinct (map rid (generateContentBasedRecommendations db u allMovies lmt))"
  using content_cases[of db u allMovies lmt]
proof (elim disjE exE conjE)
  assume "generateContentBasedRecommendations db u allMovies lmt = getPopularMovies allMovies lmt"
  then show ?thesis by (simp add: distinct_popular[OF assms])
next
  fix urs ls
  assume r: "generateContentBasedRecommendations db u allMovies lmt
             = slice0 (js_sort (\<lambda>a b. score b - score a) (contentCandidates urs ls allMovies)) lmt"
  have "map rid (contentCandidates urs ls allMovies)
        = map movie_id (filter (\<lambda>m. \<not> list_ex (\<lambda>r. movieId r = movie_id m) urs) allMovies)"
    by (simp add: contentCandidates_def rid_def comp_def)
  then have "distinct (map rid (contentCandidates urs ls allMovies))"
    using assms by (simp add: distinct_map_filter)
  then show ?thesis
    unfolding r by (simp add: distinct_map_slice0 distinct_map_js_sort)
qed

lemma addVote_keys: "distinct (map fst ms) \<Longrightarrow> distinct (map fst (addVote sim ms r))"
  by (simp add: addVote_def Let_def distinct_update)

lemma collectVotes_keys:
  "distinct (map fst ms) \<Longrightarrow> distinct (map fst (collectVotes w rs ms su))"
proof -
  have "distinct (map fst (foldl (addVote sim) ms xs))" if "distinct (map fst ms)" for sim xs ms
    using that by (induction xs arbitrary: ms) (simp_all add: addVote_keys)
  then show "distinct (map fst ms) \<Longrightarrow> distinct (map fst (collectVotes w rs ms su))"
    by (simp add: collectVotes_def Let_def)
qed

lemma movieScores_keys:
  "distinct (map fst ms) \<Longrightarrow> distinct (map fst (foldl (collectVotes w rs) ms sus))"
  by (induction sus arbitrary: ms) (simp_all add: collectVotes_keys)

lemma distinct_candidates_of_votes:
  fixes allMovies :: "movie list"
  defines "g \<equiv> (\<lambda>(mid, sc, cnt).
                        case find (\<lambda>m. movie_id m = mid) allMovies of
                          Some m \<Rightarrow> [\<lparr>movie = m, score = sc / Num (real cnt),
                                      reason = similarUsersReason cnt\<rparr>]
                        | None \<Rightarrow> [])"
  assumes "distinct (map fst ms)"
  shows "distinct (map rid (concat (map g ms)))"
proof -
  have g1: "map rid (g e) = [] \<or> map rid (g e) = [fst e]" for e
  proof -
    obtain mid sc cnt where e: "e = (mid, sc, cnt)" by (cases e)
    show ?thesis
    proof (cases "find (\<lambda>m. movie_id m = mid) allMovies")
      case None
      then show ?thesis by (simp add: g_def e)
    next
      case (Some m)
      then have "movie_id m = mid" by (auto simp: find_Some_iff)
      with Some show ?thesis by (simp add: g_def e rid_def)
    qed
  qed
  have sub: "set (map rid (concat (map g xs))) \<subseteq> fst ` set xs" for xs
  proof (induction xs)
    case Nil
    show ?case by simp
  next
    case (Cons e xs)
    from g1[of e] have "set (map rid (g e)) \<subseteq> {fst e}" by auto
    with Cons show ?case by auto
  qed
  from assms(2) show ?thesis
  proof (induction ms)
    case Nil
    show ?case by simp
  next
    case (Cons e ms)
    then have d: "distinct (map rid (concat (map g ms)))" and n: "fst e \<notin> fst ` set ms"
      by simp_all
    from n sub[of ms] have n': "fst e \<notin> set (map rid (concat (map g ms)))" by blast
    from g1[of e] show ?case
    proof
      assume "map rid (g e) = []"
      with d show ?thesis by simp
    next
      assume "map rid (g e) = [fst e]"
      with d n' show ?thesis by simp
    qed
  qed
qed

lemma distinct_collaborativeCandidates:
  "distinct (map rid (collaborativeCandidates t sus rs allMovies))"
  unfolding collaborativeCandidates_def Let_def
  by (rule distinct_candidates_of_votes) (simp add: movieScores_keys)

lemma distinct_collaborative:
  assumes "distinct (map movie_id allMovies)"
  shows "distinct (map rid (generateCollaborativeRecommendations db u allMovies lmt))"
  using collaborative_cases[of db u allMovies lmt]
proof (elim disjE exE conjE)
  assume "generateCollaborativeRecommendations db u allMovies lmt = getPopularMovies allMovies lmt"
  then show ?thesis by (simp add: distinct_popular[OF assms])
next
  fix rs us
  assume "generateCollaborativeRecommendations db u allMovies lmt
             = getRecommendationsFromSimilarUsers u (findSimilarUsers u rs us) rs allMovies lmt"
  then show ?thesis
    by (simp add: getRecommendationsFromSimilarUsers_ranked distinct_map_slice0
        distinct_map_js_sort distinct_collaborativeCandidates)
qed

lemma merged_entry:
  assumes "distinct (map movie_id allMovies)"
    and "c \<in> set (generateCollaborativeRecommendations db u allMovies \<lceil>real_of_int lmt * 0.6\<rceil>)"
    and "k \<in> set (generateContentBasedRecommendations db u allMovies \<lceil>real_of_int lmt * 0.4\<rceil>)"
    and "movie_id (movie k) = movie_id (movie c)"
  shows "map_of (combineRecs
                   (generateCollaborativeRecommendations db u allMovies \<lceil>real_of_int lmt * 0.6\<rceil>)
                   (generateContentBasedRecommendations db u allMovies \<lceil>real_of_int lmt * 0.4\<rceil>))
           (movie_id (movie c))
         = Some (mergedBoth c k)"
proof -
  have i: "rid k = rid c" using assms(4) by (simp add: rid_def)
  from combineRecs_both[OF distinct_collaborative[OF assms(1)] distinct_content[OF assms(1)]
      assms(2) assms(3) i]
  show ?thesis by (simp add: rid_def)
qed

lemma merged_output:
  assumes "distinct (map movie_id allMovies)"
    and "c \<in> set (generateCollaborativeRecommendations db u allMovies \<lceil>real_of_int lmt * 0.6\<rceil>)"
    and "k \<in> set (generateContentBasedRecommendations db u allMovies \<lceil>real_of_int lmt * 0.4\<rceil>)"
    and "movie_id (movie k) = movie_id (movie c)"
    and r: "r \<in> set (generateHybridRecommendations db u allMovies lmt)"
    and i: "movie_id (movie r) = movie_id (movie c)"
  shows "r = mergedBoth c k"
proof -
  let ?cs = "generateCollaborativeRecommendations db u allMovies \<lceil>real_of_int lmt * 0.6\<rceil>"
  let ?ks = "generateContentBasedRecommendations db u allMovies \<lceil>real_of_int lmt * 0.4\<rceil>"
  from r have "r \<in> set (map snd (combineRecs ?cs ?ks))"
    unfolding generateHybridRecommendations_def Let_def by (rule set_ranked[THEN subsetD])
  then have "map_of (combineRecs ?cs ?ks) (rid r) = Some r" by (rule combineRecs_member)
  with merged_entry[OF assms(1-4)] i show ?thesis by (simp add: rid_def)
qed

text \<open>
  Claim C2, as amended. In a catalog whose identifiers are distinct, an item that is in
  both the collaborative list and the content list has one entry in the merged map: the
  collaborative entry's item, justified by the collaborative reason followed by
  \<open> (collaborative filtering) + content similarity\<close>; the reason of the content entry is
  not part of it. Every entry of the hybrid output for that item has this item and this
  justification. (The score of the entry is not part of the statement.)
\<close>

theorem hybrid_consensus:
  assumes "distinct (map movie_id allMovies)"
    and "c \<in> set (generateCollaborativeRecommendations db u allMovies \<lceil>real_of_int lmt * 0.6\<rceil>)"
    and "k \<in> set (generateContentBasedRecommendations db u allMovies \<lceil>real_of_int lmt * 0.4\<rceil>)"
    and "movie_id (movie k) = movie_id (movie c)"
  shows "(\<exists>e. map_of (combineRecs
                   (generateCollaborativeRecommendations db u allMovies \<lceil>real_of_int lmt * 0.6\<rceil>)
                   (generateContentBasedRecommendations db u allMovies \<lceil>real_of_int lmt * 0.4\<rceil>))
                (movie_id (movie c)) = Some e
              \<and> movie e = movie c
              \<and> reason e = reason c @ '' (collaborative filtering) + content similarity'')
       \<and> (\<forall>r \<in> set (generateHybridRecommendations db u allMovies lmt).
             movie_id (movie r) = movie_id (movie c) \<longrightarrow>
               movie r = movie c
               \<and> reason r = reason c @ '' (collaborative filtering) + content similarity'')"
proof (intro conjI ballI impI)
  show "\<exists>e. map_of (combineRecs
                   (generateCollaborativeRecommendations db u allMovies \<lceil>real_of_int lmt * 0.6\<rceil>)
                   (generateContentBasedRecommendations db u allMovies \<lceil>real_of_int lmt * 0.4\<rceil>))
                (movie_id (movie c)) = Some e
              \<and> movie e = movie c
              \<and> reason e = reason c @ '' (collaborative filtering) + content similarity''"
    using merged_entry[OF assms] by (simp add: mergedBoth_def)
next
  fix r
  assume "r \<in> set (generateHybridRecommendations db u allMovies lmt)"
    "movie_id (movie r) = movie_id (movie c)"
  from merged_output[OF assms this]
  show "movie r = movie c" "reason r = reason c @ '' (collaborative filtering) + content similarity''"
    by (simp_all add: mergedBoth_def)
qed

lemma similarity_both:
  "calculateUserSimilarity (filter (\<lambda>r. userId r = ''u1'') both_ratings)
     (filter (\<lambda>r. userId r = ''u2'') both_ratings) = Num 1"
  by (simp add: calculateUserSimilarity_def both_ratings_def Let_def sqrt_quarter divide_number_def)

lemma neighbours_both:
  "findSimilarUsers ''u1'' both_ratings [user1, user2] = [\<lparr>user = user2, similarity = Num 1\<rparr>]"
  using similarity_both
  by (simp add: findSimilarUsers_def Let_def user1_def user2_def js_sort_def slice0_def)

lemma collaborative_both:
  "generateCollaborativeRecommendations db_both ''u1'' [movie1, movie2, movie_low] 6
     = [\<lparr>movie = movie_low, score = Num 5, reason = ''Recommended by 1 similar user''\<rparr>]"
proof -
  have f: "filter (\<lambda>r. userId r = ''u1'') both_ratings \<noteq> []" by (simp add: both_ratings_def)
  have "getRecommendationsFromSimilarUsers ''u1'' [\<lparr>user = user2, similarity = Num 1\<rparr>]
          both_ratings [movie1, movie2, movie_low] 6
        = [\<lparr>movie = movie_low, score = Num 5, reason = ''Recommended by 1 similar user''\<rparr>]"
    by (simp add: getRecommendationsFromSimilarUsers_def collectVotes_def addVote_def
        both_ratings_def user2_def movie1_def movie2_def movie_low_def Let_def
        similarUsersReason_def show_nat_1 js_sort_def slice0_def
        plus_number_def times_number_def divide_number_def)
  with f neighbours_both show ?thesis
    by (simp add: generateCollaborativeRecommendations_def db_both_def Let_def)
qed

lemma content_both:
  "generateContentBasedRecommendations db_both ''u1'' [movie1, movie2, movie_low] 4
     = [\<lparr>movie = movie_low, score = Num (11 / 40),
         reason = ''Recommended because it shares action genre''\<rparr>]"
  by (simp add: generateContentBasedRecommendations_def db_both_def both_ratings_def
      movie1_def movie2_def movie_low_def
      calculateContentSimilarity_def likedMovieSimilarity_def generateContentReason_def
      str_truthy_def rating_truthy_def Let_def js_sort_def slice0_def
      plus_number_def minus_number_def times_number_def divide_number_def)

lemma hybrid_both:
  "generateHybridRecommendations db_both ''u1'' [movie1, movie2, movie_low] 10
     = [\<lparr>movie = movie_low, score = Num (311 / 140),
         reason = ''Recommended by 1 similar user (collaborative filtering) + content similarity''\<rparr>]"
proof -
  have c6: "\<lceil>real_of_int 10 * 0.6\<rceil> = (6::int)" by simp
  have c4: "\<lceil>real_of_int 10 * 0.4\<rceil> = (4::int)" by simp
  show ?thesis
    unfolding generateHybridRecommendations_def Let_def c6 c4 collaborative_both content_both
    by (simp add: combineRecs_def addCollaborative_def addContentBased_def movie_low_def
        js_sort_def slice0_def plus_number_def times_number_def divide_number_def)
qed

text \<open>
  The claim as stated fails. For the one item of both lists the justification is not the
  two reasons joined, and the score is \<open>311/140\<close>, which is neither
  \<open>(5 * 0.6 + 11/40 * 0.4) / 1.0 = 311/100\<close> nor a boost: the collaborative entry alone
  would have scored \<open>5 * 0.6 = 3\<close>.
\<close>

theorem hybrid_consensus_counterexample:
  "generateCollaborativeRecommendations db_both ''u1'' [movie1, movie2, movie_low] \<lceil>real_of_int 10 * 0.6\<rceil>
     = [\<lparr>movie = movie_low, score = Num 5, reason = ''Recommended by 1 similar user''\<rparr>]
   \<and> generateContentBasedRecommendations db_both ''u1'' [movie1, movie2, movie_low] \<lceil>real_of_int 10 * 0.4\<rceil>
     = [\<lparr>movie = movie_low, score = Num (11 / 40),
         reason = ''Recommended because it shares action genre''\<rparr>]
   \<and> generateHybridRecommendations db_both ''u1'' [movie1, movie2, movie_low] 10
     = [\<lparr>movie = movie_low, score = Num (311 / 140),
         reason = ''Recommended by 1 similar user (collaborative filtering) + content similarity''\<rparr>]
   \<and> ''Recommended by 1 similar user (collaborative filtering) + content similarity''
       \<noteq> ''Recommended by 1 similar user'' @ ''Recommended because it shares action genre''
   \<and> (Num 5 * Num 0.6 + Num (11 / 40) * Num 0.4) / Num 1.0 = Num (311 / 100)
   \<and> Num (311 / 140) \<noteq> Num (311 / 100)
   \<and> Num 5 * Num 0.6 = Num 3
   \<and> num_gt (Num 3) (Num (311 / 140))"
proof -
  have c6: "\<lceil>real_of_int 10 * 0.6\<rceil> = (6::int)" by simp
  have c4: "\<lceil>real_of_int 10 * 0.4\<rceil> = (4::int)" by simp
  show ?thesis
    unfolding c6 c4 collaborative_both content_both hybrid_both
    by (simp add: plus_number_def times_number_def divide_number_def)
qed

theorem hybrid_consensus_witness:
  "distinct (map movie_id [movie1, movie2, movie_low])
   \<and> generateCollaborativeRecommendations db_both ''u1'' [movie1, movie2, movie_low] \<lceil>real_of_int 10 * 0.6\<rceil>
     = [\<lparr>movie = movie_low, score = Num 5, reason = ''Recommended by 1 similar user''\<rparr>]
   \<and> generateContentBasedRecommendations db_both ''u1'' [movie1, movie2, movie_low] \<lceil>real_of_int 10 * 0.4\<rceil>
     = [\<lparr>movie = movie_low, score = Num (11 / 40),
         reason = ''Recommended because it shares action genre''\<rparr>]
   \<and> map (\<lambda>r. (movie r, reason r))
         (generateHybridRecommendations db_both ''u1'' [movie1, movie2, movie_low] 10)
     = [(movie_low,
         ''Recommended by 1 similar user (collaborative filtering) + content similarity'')]"
proof -
  have c6: "\<lceil>real_of_int 10 * 0.6\<rceil> = (6::int)" by simp
  have c4: "\<lceil>real_of_int 10 * 0.4\<rceil> = (4::int)" by simp
  have d: "distinct (map movie_id [movie1, movie2, movie_low])"
    by (simp add: movie1_def movie2_def movie_low_def)
  let ?c = "\<lparr>movie = movie_low, score = Num 5, reason = ''Recommended by 1 similar user''\<rparr>"
  let ?k = "\<lparr>movie = movie_low, score = Num (11 / 40),
             reason = ''Recommended because it shares action genre''\<rparr>"
  have c: "?c \<in> set (generateCollaborativeRecommendations db_both ''u1'' [movie1, movie2, movie_low]
                        \<lceil>real_of_int 10 * 0.6\<rceil>)"
    unfolding c6 collaborative_both by simp
  have k: "?k \<in> set (generateContentBasedRecommendations db_both ''u1'' [movie1, movie2, movie_low]
                        \<lceil>real_of_int 10 * 0.4\<rceil>)"
    unfolding c4 content_both by simp
  have i: "movie_id (movie ?k) = movie_id (movie ?c)" by simp
  from hybrid_consensus[OF d c k i] d hybrid_both
  show ?thesis
    unfolding c6 c4 collaborative_both content_both by simp
qed

section \<open>Verification: the order of equal scores\<close>

lemma firstOccurrences_Nil [simp]: "firstOccurrences [] = []"
  by (simp add: firstOccurrences_def)

lemma firstOccurrences_snoc:
  "firstOccurrences (xs @ [x]) = (if x \<in> set xs then firstOccurrences xs else firstOccurrences xs @ [x])"
  by (simp add: firstOccurrences_def)

lemma set_firstOccurrences [simp]: "set (firstOccurrences xs) = set xs"
  by (simp add: firstOccurrences_def)

lemma distinct_firstOccurrences [simp]: "distinct (firstOccurrences xs)"
  by (simp add: firstOccurrences_def)

lemma firstOccurrences_distinct: "distinct xs \<Longrightarrow> firstOccurrences xs = xs"
  by (simp add: firstOccurrences_def distinct_remdups_id)

lemma firstOccurrences_append_distinct:
  assumes "distinct xs" "distinct ys"
  shows "firstOccurrences (xs @ ys) = xs @ filter (\<lambda>y. y \<notin> set xs) ys"
  using assms(2)
proof (induction ys rule: rev_induct)
  case Nil
  show ?case by (simp add: firstOccurrences_distinct[OF assms(1)])
next
  case (snoc y ys)
  then have IH: "firstOccurrences (xs @ ys) = xs @ filter (\<lambda>y. y \<notin> set xs) ys" by simp
  from snoc.prems have "y \<notin> set ys" by simp
  with IH show ?case
    using firstOccurrences_snoc[of "xs @ ys" y] by auto
qed

text \<open>
  A fold whose step puts a new key last and leaves a present key in its place lists
  the keys in the order of their first occurrence.
\<close>

lemma keys_foldl:
  assumes step: "\<And>acc x. map fst (step acc x)
                   = (if key x \<in> set (map fst acc) then map fst acc else map fst acc @ [key x])"
    and "map fst acc = firstOccurrences zs"
  shows "map fst (foldl step acc xs) = firstOccurrences (zs @ map key xs)"
proof (induction xs rule: rev_induct)
  case Nil
  show ?case by (simp add: assms(2))
next
  case (snoc x xs)
  have "map fst (foldl step acc (xs @ [x])) = map fst (step (foldl step acc xs) x)" by simp
  also have "\<dots> = (if key x \<in> set (zs @ map key xs) then firstOccurrences (zs @ map key xs)
                     else firstOccurrences (zs @ map key xs) @ [key x])"
    unfolding step snoc.IH by simp
  also have "\<dots> = firstOccurrences ((zs @ map key xs) @ [key x])"
    by (simp only: firstOccurrences_snoc)
  finally show ?case by simp
qed

lemma keys_addVote:
  "map fst (addVote sim ms r)
     = (if movieId r \<in> set (map fst ms) then map fst ms else map fst ms @ [movieId r])"
  by (simp add: addVote_def Let_def update_keys)

lemma keys_collectVotes:
  assumes "map fst ms = firstOccurrences zs"
  shows "map fst (collectVotes W rs ms su)
         = firstOccurrences (zs @ map movieId
             (filter (\<lambda>r. userId r = user_id (user su) \<and> liked r \<and> 4 \<le> stars r \<and> movieId r \<notin> W) rs))"
  unfolding collectVotes_def Let_def
  by (rule keys_foldl[OF keys_addVote assms])

lemma keys_movieScores:
  assumes "map fst ms = firstOccurrences zs"
  shows "map fst (foldl (collectVotes W rs) ms sims)
         = firstOccurrences (zs @ map movieId (concat (map
             (\<lambda>su. filter (\<lambda>r. userId r = user_id (user su) \<and> liked r \<and> 4 \<le> stars r
                                \<and> movieId r \<notin> W) rs) sims)))"
  using assms
proof (induction sims arbitrary: ms zs)
  case Nil
  then show ?case by simp
next
  case (Cons su sims)
  from Cons.IH[OF keys_collectVotes[OF Cons.prems, of W rs su]]
  show ?case by simp
qed

lemma watched_iff:
  "movieId r \<notin> set (map movieId (filter (\<lambda>r. userId r = u) rs))
     \<longleftrightarrow> \<not> list_ex (\<lambda>t. userId t = u \<and> movieId t = movieId r) rs"
  by (force simp: list_ex_iff image_iff)

lemma keys_votes:
  "map fst (foldl (collectVotes (set (map movieId (filter (\<lambda>r. userId r = u) rs))) rs) [] sims)
     = firstOccurrences (map movieId (votingRatings u sims rs))"
proof -
  have "map fst ([] :: (string \<times> number \<times> nat) list) = firstOccurrences []" by simp
  from keys_movieScores[OF this, of "set (map movieId (filter (\<lambda>r. userId r = u) rs))" rs sims]
  show ?thesis
    unfolding votingRatings_def by (simp only: append_Nil watched_iff)
qed

lemma rid_candidates:
  "map rid (concat (map (\<lambda>(mid, sc, cnt).
                        case find (\<lambda>m. movie_id m = mid) allMovies of
                          Some m \<Rightarrow> [\<lparr>movie = m, score = sc / Num (real cnt),
                                      reason = similarUsersReason cnt\<rparr>]
                        | None \<Rightarrow> [])
                   ms))
     = filter (\<lambda>i. list_ex (\<lambda>m. movie_id m = i) allMovies) (map fst ms)"
proof (induction ms)
  case Nil
  show ?case by simp
next
  case (Cons e ms)
  obtain mid sc cnt where e: "e = (mid, sc, cnt)" by (cases e) auto
  show ?case
  proof (cases "find (\<lambda>m. movie_id m = mid) allMovies")
    case None
    then have "\<not> list_ex (\<lambda>m. movie_id m = mid) allMovies"
      by (simp add: find_None_iff list_ex_iff)
    with None Cons.IH e show ?thesis by simp
  next
    case (Some m)
    then have "movie_id m = mid" "m \<in> set allMovies"
      by (auto simp: find_Some_iff)
    then have "movie_id m = mid" "list_ex (\<lambda>m. movie_id m = mid) allMovies"
      by (auto simp: list_ex_iff)
    with Some Cons.IH e show ?thesis by (simp add: rid_def)
  qed
qed

lemma rid_collaborativeCandidates:
  "map rid (collaborativeCandidates u sims rs allMovies)
     = filter (\<lambda>i. list_ex (\<lambda>m. movie_id m = i) allMovies)
         (firstOccurrences (map movieId (votingRatings u sims rs)))"
  unfolding collaborativeCandidates_def Let_def rid_candidates keys_votes ..


lemma keys_addCollaborative:
  "map fst (addCollaborative acc r)
     = (if rid r \<in> set (map fst acc) then map fst acc else map fst acc @ [rid r])"
  by (simp add: addCollaborative_def update_keys rid_def)

lemma keys_addContentBased:
  "map fst (addContentBased acc r)
     = (if rid r \<in> set (map fst acc) then map fst acc else map fst acc @ [rid r])"
  by (simp add: addContentBased_def update_keys rid_def split: option.splits)

lemma keys_combineRecs:
  "map fst (combineRecs cs ks) = firstOccurrences (map rid cs @ map rid ks)"
proof -
  have "map fst ([] :: (string \<times> string recommendation) list) = firstOccurrences []" by simp
  from keys_foldl[of addCollaborative rid, OF keys_addCollaborative this, of cs]
  have "map fst (foldl addCollaborative [] cs) = firstOccurrences (map rid cs)" by simp
  from keys_foldl[of addContentBased rid, OF keys_addContentBased this, of ks]
  show ?thesis by (simp add: combineRecs_def)
qed

lemma rid_combineRecs:
  "map rid (map snd (combineRecs cs ks)) = firstOccurrences (map rid cs @ map rid ks)"
proof -
  have "map rid (map snd (combineRecs cs ks)) = map fst (combineRecs cs ks)"
    using combineRecs_keys[of cs ks] by (intro nth_equalityI) (simp_all add: nth_mem)
  then show ?thesis by (simp only: keys_combineRecs)
qed

lemma subseq_ties:
  assumes "prefix (filter P out) (filter P cands)" "map f cands = filter Q ys"
  shows "subseq (map f (filter P out)) ys"
proof -
  have "subseq (map f (filter P out)) (map f (filter P cands))"
    using assms(1) by (intro subseq_map prefix_imp_subseq)
  also have "subseq (map f (filter P cands)) (map f cands)"
    by (intro subseq_map subseq_filter_left)
  also have "subseq (map f cands) ys"
    unfolding assms(2) by (rule subseq_filter_left)
  finally show ?thesis .
qed

lemma collaborative_order:
  "(generateCollaborativeRecommendations db u allMovies lmt = getPopularMovies allMovies lmt
      \<and> length (filter (\<lambda>r. score r = s) (generateCollaborativeRecommendations db u allMovies lmt)) \<le> 1)
   \<or> (\<exists>rs us. getAllRatings db = Some rs \<and> getAllUsers db = Some us
         \<and> prefix (filter (\<lambda>r. score r = s) (generateCollaborativeRecommendations db u allMovies lmt))
              (filter (\<lambda>r. score r = s)
                 (collaborativeCandidates u (findSimilarUsers u rs us) rs allMovies))
         \<and> map rid (collaborativeCandidates u (findSimilarUsers u rs us) rs allMovies)
              = filter (\<lambda>i. list_ex (\<lambda>m. movie_id m = i) allMovies)
                  (firstOccurrences (map movieId (votingRatings u (findSimilarUsers u rs us) rs)))
         \<and> subseq (map rid (filter (\<lambda>r. score r = s)
                               (generateCollaborativeRecommendations db u allMovies lmt)))
              (firstOccurrences (map movieId (votingRatings u (findSimilarUsers u rs us) rs))))"
  using collaborative_ties[of db u allMovies lmt s]
proof (elim disjE exE conjE)
  assume p: "generateCollaborativeRecommendations db u allMovies lmt = getPopularMovies allMovies lmt"
  from filter_distinct_key[OF distinct_scores_popular, of s allMovies lmt]
  have "length (filter (\<lambda>r. score r = s) (getPopularMovies allMovies lmt)) \<le> 1" by auto
  with p show ?thesis by simp
next
  fix rs us
  assume a: "getAllRatings db = Some rs" "getAllUsers db = Some us"
    and pre: "prefix (filter (\<lambda>r. score r = s) (generateCollaborativeRecommendations db u allMovies lmt))
              (filter (\<lambda>r. score r = s)
                 (collaborativeCandidates u (findSimilarUsers u rs us) rs allMovies))"
  note ids = rid_collaborativeCandidates[of u "findSimilarUsers u rs us" rs allMovies]
  from subseq_ties[OF pre ids] a pre ids show ?thesis by blast
qed

text \<open>
  Claim C7, as amended. When every catalog movie has a genre (so that no score is NaN),
  the results of the collaborative, the content and the hybrid recommender are in
  descending order of score. Items of equal score are not ordered by identifier: the sort
  is stable, so they keep the order of the candidates, and of the candidates of one
  score the result holds the first ones. The candidates of the content recommender are
  in catalog order. Those of the collaborative recommender are in the order of the
  first vote for each movie, the votes taken neighbour after neighbour and, for one
  neighbour, in the order of the ratings (in its fallback branch no two items have the
  same score). Those of the hybrid recommender are the items of the collaborative list
  in its order, followed by the items that only the content list has, in its order.
  The ranking step itself orders any list of candidates with numeric scores in this way,
  whatever the scores are.
\<close>

theorem ranked_descending_stable:
  assumes "\<forall>m \<in> set allMovies. genre m \<noteq> []"
  shows "descending (generateCollaborativeRecommendations db u allMovies lmt)
       \<and> descending (generateContentBasedRecommendations db u allMovies lmt)
       \<and> descending (generateHybridRecommendations db u allMovies lmt)
       \<and> subseq (map movie (filter (\<lambda>r. score r = s)
                    (generateContentBasedRecommendations db u allMovies lmt))) allMovies
       \<and> ((generateCollaborativeRecommendations db u allMovies lmt = getPopularMovies allMovies lmt
             \<and> length (filter (\<lambda>r. score r = s)
                   (generateCollaborativeRecommendations db u allMovies lmt)) \<le> 1)
           \<or> (\<exists>rs us. getAllRatings db = Some rs \<and> getAllUsers db = Some us
               \<and> prefix (filter (\<lambda>r. score r = s)
                            (generateCollaborativeRecommendations db u allMovies lmt))
                    (filter (\<lambda>r. score r = s)
                       (collaborativeCandidates u (findSimilarUsers u rs us) rs allMovies))
               \<and> map rid (collaborativeCandidates u (findSimilarUsers u rs us) rs allMovies)
                    = filter (\<lambda>i. list_ex (\<lambda>m. movie_id m = i) allMovies)
                        (firstOccurrences
                           (map movieId (votingRatings u (findSimilarUsers u rs us) rs)))
               \<and> subseq (map rid (filter (\<lambda>r. score r = s)
                                     (generateCollaborativeRecommendations db u allMovies lmt)))
                    (firstOccurrences
                       (map movieId (votingRatings u (findSimilarUsers u rs us) rs)))))
       \<and> prefix (filter (\<lambda>r. score r = s) (generateHybridRecommendations db u allMovies lmt))
           (filter (\<lambda>r. score r = s) (map snd (combineRecs
              (generateCollaborativeRecommendations db u allMovies \<lceil>real_of_int lmt * 0.6\<rceil>)
              (generateContentBasedRecommendations db u allMovies \<lceil>real_of_int lmt * 0.4\<rceil>))))
       \<and> map rid (map snd (combineRecs
              (generateCollaborativeRecommendations db u allMovies \<lceil>real_of_int lmt * 0.6\<rceil>)
              (generateContentBasedRecommendations db u allMovies \<lceil>real_of_int lmt * 0.4\<rceil>)))
           = firstOccurrences
               (map rid (generateCollaborativeRecommendations db u allMovies \<lceil>real_of_int lmt * 0.6\<rceil>)
                @ map rid (generateContentBasedRecommendations db u allMovies \<lceil>real_of_int lmt * 0.4\<rceil>))
       \<and> subseq (map rid (filter (\<lambda>r. score r = s)
                             (generateHybridRecommendations db u allMovies lmt)))
           (firstOccurrences
               (map rid (generateCollaborativeRecommendations db u allMovies \<lceil>real_of_int lmt * 0.6\<rceil>)
                @ map rid (generateContentBasedRecommendations db u allMovies \<lceil>real_of_int lmt * 0.4\<rceil>)))
       \<and> (\<forall>xs :: string recommendation list. (\<forall>r \<in> set xs. is_Num (score r)) \<longrightarrow>
             descending (slice0 (js_sort (\<lambda>a b. score b - score a) xs) lmt)
             \<and> prefix (filter (\<lambda>r. score r = s)
                          (slice0 (js_sort (\<lambda>a b. score b - score a) xs) lmt))
                  (filter (\<lambda>r. score r = s) xs))"
proof (intro conjI)
  show "\<forall>xs :: string recommendation list. (\<forall>r \<in> set xs. is_Num (score r)) \<longrightarrow>
             descending (slice0 (js_sort (\<lambda>a b. score b - score a) xs) lmt)
             \<and> prefix (filter (\<lambda>r. score r = s)
                          (slice0 (js_sort (\<lambda>a b. score b - score a) xs) lmt))
                  (filter (\<lambda>r. score r = s) xs)"
    by (intro allI impI conjI descending_ranked ranked_ties)
  show "descending (generateCollaborativeRecommendations db u allMovies lmt)"
    by (rule descending_collaborative)
  show "descending (generateContentBasedRecommendations db u allMovies lmt)"
    by (rule descending_content[OF assms])
  show "descending (generateHybridRecommendations db u allMovies lmt)"
    by (rule descending_hybrid[OF assms])
  show "subseq (map movie (filter (\<lambda>r. score r = s)
                    (generateContentBasedRecommendations db u allMovies lmt))) allMovies"
    by (rule content_ties[OF assms])
  show "(generateCollaborativeRecommendations db u allMovies lmt = getPopularMovies allMovies lmt
             \<and> length (filter (\<lambda>r. score r = s)
                   (generateCollaborativeRecommendations db u allMovies lmt)) \<le> 1)
           \<or> (\<exists>rs us. getAllRatings db = Some rs \<and> getAllUsers db = Some us
               \<and> prefix (filter (\<lambda>r. score r = s)
                            (generateCollaborativeRecommendations db u allMovies lmt))
                    (filter (\<lambda>r. score r = s)
                       (collaborativeCandidates u (findSimilarUsers u rs us) rs allMovies))
               \<and> map rid (collaborativeCandidates u (findSimilarUsers u rs us) rs allMovies)
                    = filter (\<lambda>i. list_ex (\<lambda>m. movie_id m = i) allMovies)
                        (firstOccurrences
                           (map movieId (votingRatings u (findSimilarUsers u rs us) rs)))
               \<and> subseq (map rid (filter (\<lambda>r. score r = s)
                                     (generateCollaborativeRecommendations db u allMovies lmt)))
                    (firstOccurrences
                       (map movieId (votingRatings u (findSimilarUsers u rs us) rs))))"
    by (rule collaborative_order)
  show pre: "prefix (filter (\<lambda>r. score r = s) (generateHybridRecommendations db u allMovies lmt))
           (filter (\<lambda>r. score r = s) (map snd (combineRecs
              (generateCollaborativeRecommendations db u allMovies \<lceil>real_of_int lmt * 0.6\<rceil>)
              (generateContentBasedRecommendations db u allMovies \<lceil>real_of_int lmt * 0.4\<rceil>))))"
    by (rule hybrid_ties[OF assms])
  show ids: "map rid (map snd (combineRecs
              (generateCollaborativeRecommendations db u allMovies \<lceil>real_of_int lmt * 0.6\<rceil>)
              (generateContentBasedRecommendations db u allMovies \<lceil>real_of_int lmt * 0.4\<rceil>)))
           = firstOccurrences
               (map rid (generateCollaborativeRecommendations db u allMovies \<lceil>real_of_int lmt * 0.6\<rceil>)
                @ map rid (generateContentBasedRecommendations db u allMovies \<lceil>real_of_int lmt * 0.4\<rceil>))"
    by (rule rid_combineRecs)
  have "map rid (map snd (combineRecs
              (generateCollaborativeRecommendations db u allMovies \<lceil>real_of_int lmt * 0.6\<rceil>)
              (generateContentBasedRecommendations db u allMovies \<lceil>real_of_int lmt * 0.4\<rceil>)))
        = filter (\<lambda>i. True) (firstOccurrences
               (map rid (generateCollaborativeRecommendations db u allMovies \<lceil>real_of_int lmt * 0.6\<rceil>)
                @ map rid (generateContentBasedRecommendations db u allMovies \<lceil>real_of_int lmt * 0.4\<rceil>)))"
    using ids by simp
  from subseq_ties[OF pre this]
  show "subseq (map rid (filter (\<lambda>r. score r = s)
                             (generateHybridRecommendations db u allMovies lmt)))
           (firstOccurrences
               (map rid (generateCollaborativeRecommendations db u allMovies \<lceil>real_of_int lmt * 0.6\<rceil>)
                @ map rid (generateContentBasedRecommendations db u allMovies \<lceil>real_of_int lmt * 0.4\<rceil>)))" .
qed

lemma similarity_tie:
  "calculateUserSimilarity (filter (\<lambda>r. userId r = ''u1'') tie_ratings)
     (filter (\<lambda>r. userId r = ''u2'') tie_ratings) = Num 1"
  by (simp add: calculateUserSimilarity_def tie_ratings_def Let_def sqrt_quarter divide_number_def)

lemma neighbours_tie:
  "findSimilarUsers ''u1'' tie_ratings [user1, user2] = [\<lparr>user = user2, similarity = Num 1\<rparr>]"
  using similarity_tie
  by (simp add: findSimilarUsers_def Let_def user1_def user2_def js_sort_def slice0_def)

lemma votes_tie:
  "firstOccurrences (map movieId
     (votingRatings ''u1'' (findSimilarUsers ''u1'' tie_ratings [user1, user2]) tie_ratings))
   = [''mb'', ''ma'']"
  unfolding neighbours_tie
  by (simp add: votingRatings_def tie_ratings_def user2_def firstOccurrences_def)

lemma collaborative_tie:
  assumes "2 \<le> lmt"
  shows "generateCollaborativeRecommendations db_tie ''u1'' [movie1, movie2, movie_a, movie_b] lmt
     = [\<lparr>movie = movie_b, score = Num 5, reason = ''Recommended by 1 similar user''\<rparr>,
        \<lparr>movie = movie_a, score = Num 5, reason = ''Recommended by 1 similar user''\<rparr>]"
proof -
  have f: "filter (\<lambda>r. userId r = ''u1'') tie_ratings \<noteq> []" by (simp add: tie_ratings_def)
  have t: "take (nat lmt) [a, b] = [a, b]" for a b :: "string recommendation"
    using assms by simp
  have "getRecommendationsFromSimilarUsers ''u1'' [\<lparr>user = user2, similarity = Num 1\<rparr>]
          tie_ratings [movie1, movie2, movie_a, movie_b] lmt
        = [\<lparr>movie = movie_b, score = Num 5, reason = ''Recommended by 1 similar user''\<rparr>,
           \<lparr>movie = movie_a, score = Num 5, reason = ''Recommended by 1 similar user''\<rparr>]"
    using assms
    by (simp add: getRecommendationsFromSimilarUsers_def collectVotes_def addVote_def
        tie_ratings_def user2_def movie1_def movie2_def movie_a_def movie_b_def Let_def
        similarUsersReason_def show_nat_1 js_sort_def slice0_def t
        plus_number_def minus_number_def times_number_def divide_number_def)
  with f neighbours_tie show ?thesis
    by (simp add: generateCollaborativeRecommendations_def db_tie_def Let_def)
qed

lemma content_tie:
  assumes "2 \<le> lmt"
  shows "generateContentBasedRecommendations db_tie ''u1'' [movie1, movie2, movie_a, movie_b] lmt
     = [\<lparr>movie = movie_a, score = Num 0.875,
         reason = ''Recommended because it shares sci-fi genre and same director as liked movies''\<rparr>,
        \<lparr>movie = movie_b, score = Num 0.875,
         reason = ''Recommended because it shares sci-fi genre and same director as liked movies''\<rparr>]"
proof -
  have t: "take (nat lmt) [a, b] = [a, b]" for a b :: "string recommendation"
    using assms by simp
  show ?thesis
    using assms
    by (simp add: generateContentBasedRecommendations_def db_tie_def tie_ratings_def
      movie1_def movie2_def movie_a_def movie_b_def
      calculateContentSimilarity_def likedMovieSimilarity_def generateContentReason_def
      str_truthy_def rating_truthy_def Let_def js_sort_def slice0_def t
      plus_number_def minus_number_def times_number_def divide_number_def)
qed

lemma hybrid_tie:
  "generateHybridRecommendations db_tie ''u1'' [movie1, movie2, movie_a, movie_b] 10
     = [\<lparr>movie = movie_b, score = (Num 5 * Num 0.6 + Num 0.875 * Num 0.4) / Num 1.4,
         reason = ''Recommended by 1 similar user (collaborative filtering) + content similarity''\<rparr>,
        \<lparr>movie = movie_a, score = (Num 5 * Num 0.6 + Num 0.875 * Num 0.4) / Num 1.4,
         reason = ''Recommended by 1 similar user (collaborative filtering) + content similarity''\<rparr>]"
proof -
  have c6: "\<lceil>real_of_int 10 * 0.6\<rceil> = (6::int)" by simp
  have c4: "\<lceil>real_of_int 10 * 0.4\<rceil> = (4::int)" by simp
  have l: "(2::int) \<le> 6" "(2::int) \<le> 4" by simp_all
  show ?thesis
    unfolding generateHybridRecommendations_def Let_def c6 c4
      collaborative_tie[OF l(1)] content_tie[OF l(2)]
    by (simp add: combineRecs_def addCollaborative_def addContentBased_def movie_a_def movie_b_def
        js_sort_def slice0_def plus_number_def minus_number_def times_number_def divide_number_def)
qed

theorem ranked_descending_stable_witness:
  "list_all (\<lambda>m. genre m \<noteq> []) [movie1, movie2, movie_a, movie_b]
   \<and> generateCollaborativeRecommendations db_tie ''u1'' [movie1, movie2, movie_a, movie_b] 10
     = [\<lparr>movie = movie_b, score = Num 5, reason = ''Recommended by 1 similar user''\<rparr>,
        \<lparr>movie = movie_a, score = Num 5, reason = ''Recommended by 1 similar user''\<rparr>]
   \<and> generateContentBasedRecommendations db_tie ''u1'' [movie1, movie2, movie_a, movie_b] 10
     = [\<lparr>movie = movie_a, score = Num 0.875,
         reason = ''Recommended because it shares sci-fi genre and same director as liked movies''\<rparr>,
        \<lparr>movie = movie_b, score = Num 0.875,
         reason = ''Recommended because it shares sci-fi genre and same director as liked movies''\<rparr>]
   \<and> map (\<lambda>r. (rid r, score r))
         (generateHybridRecommendations db_tie ''u1'' [movie1, movie2, movie_a, movie_b] 10)
     = [(''mb'', (Num 5 * Num 0.6 + Num 0.875 * Num 0.4) / Num 1.4),
        (''ma'', (Num 5 * Num 0.6 + Num 0.875 * Num 0.4) / Num 1.4)]
   \<and> descending (generateCollaborativeRecommendations db_tie ''u1'' [movie1, movie2, movie_a, movie_b] 10)
   \<and> descending (generateContentBasedRecommendations db_tie ''u1'' [movie1, movie2, movie_a, movie_b] 10)
   \<and> descending (generateHybridRecommendations db_tie ''u1'' [movie1, movie2, movie_a, movie_b] 10)
   \<and> subseq [movie_a, movie_b] [movie1, movie2, movie_a, movie_b]
   \<and> firstOccurrences (map movieId
         (votingRatings ''u1'' (findSimilarUsers ''u1'' tie_ratings [user1, user2]) tie_ratings))
       = [''mb'', ''ma'']
   \<and> subseq (map rid (filter (\<lambda>r. score r = Num 5)
         (generateCollaborativeRecommendations db_tie ''u1'' [movie1, movie2, movie_a, movie_b] 10)))
        [''mb'', ''ma'']
   \<and> subseq (map rid (filter (\<lambda>r. score r = (Num 5 * Num 0.6 + Num 0.875 * Num 0.4) / Num 1.4)
         (generateHybridRecommendations db_tie ''u1'' [movie1, movie2, movie_a, movie_b] 10)))
        (firstOccurrences ([''mb'', ''ma''] @ [''ma'', ''mb'']))
   \<and> firstOccurrences ([''mb'', ''ma''] @ [''ma'', ''mb'']) = [''mb'', ''ma'']"
proof -
  let ?C = "[movie1, movie2, movie_a, movie_b]"
  let ?S = "(Num 5 * Num 0.6 + Num 0.875 * Num 0.4) / Num 1.4"
  have g: "\<forall>m \<in> set ?C. genre m \<noteq> []"
    by (simp add: movie1_def movie2_def movie_a_def movie_b_def)
  have c6: "\<lceil>real_of_int 10 * 0.6\<rceil> = (6::int)" by simp
  have c4: "\<lceil>real_of_int 10 * 0.4\<rceil> = (4::int)" by simp
  have l: "(2::int) \<le> 10" "(2::int) \<le> 6" "(2::int) \<le> 4" by simp_all
  have ia: "rid \<lparr>movie = movie_a, score = x, reason = y\<rparr> = ''ma''" for x y
    by (simp add: rid_def movie_a_def)
  have ib: "rid \<lparr>movie = movie_b, score = x, reason = y\<rparr> = ''mb''" for x y
    by (simp add: rid_def movie_b_def)
  note T5 = ranked_descending_stable[OF g, of db_tie "''u1''" 10 "Num 5"]
  note TS = ranked_descending_stable[OF g, of db_tie "''u1''" 10 ?S]
  note T8 = ranked_descending_stable[OF g, of db_tie "''u1''" 10 "Num 0.875"]
  have d1: "descending (generateCollaborativeRecommendations db_tie ''u1'' ?C 10)"
    by (rule T5[THEN conjunct1])
  have d2: "descending (generateContentBasedRecommendations db_tie ''u1'' ?C 10)"
    by (rule T5[THEN conjunct2, THEN conjunct1])
  have d3: "descending (generateHybridRecommendations db_tie ''u1'' ?C 10)"
    by (rule T5[THEN conjunct2, THEN conjunct2, THEN conjunct1])
  have s1: "subseq [movie_a, movie_b] ?C"
    using T8[THEN conjunct2, THEN conjunct2, THEN conjunct2, THEN conjunct1]
    unfolding content_tie[OF l(1)] by simp
  have db: "getAllRatings db_tie = Some tie_ratings" "getAllUsers db_tie = Some [user1, user2]"
    by (simp_all add: db_tie_def)
  have s2: "subseq (map rid (filter (\<lambda>r. score r = Num 5)
              (generateCollaborativeRecommendations db_tie ''u1'' ?C 10))) [''mb'', ''ma'']"
    using T5[THEN conjunct2, THEN conjunct2, THEN conjunct2, THEN conjunct2, THEN conjunct1]
  proof (elim disjE exE conjE)
    assume "length (filter (\<lambda>r. score r = Num 5)
              (generateCollaborativeRecommendations db_tie ''u1'' ?C 10)) \<le> 1"
    then show ?thesis unfolding collaborative_tie[OF l(1)] by simp
  next
    fix rs us
    assume "getAllRatings db_tie = Some rs" "getAllUsers db_tie = Some us"
      and "subseq (map rid (filter (\<lambda>r. score r = Num 5)
              (generateCollaborativeRecommendations db_tie ''u1'' ?C 10)))
            (firstOccurrences (map movieId (votingRatings ''u1'' (findSimilarUsers ''u1'' rs us) rs)))"
    with db show ?thesis by (simp add: votes_tie)
  qed
  have s3: "subseq (map rid (filter (\<lambda>r. score r = ?S)
              (generateHybridRecommendations db_tie ''u1'' ?C 10)))
            (firstOccurrences ([''mb'', ''ma''] @ [''ma'', ''mb'']))"
    using TS[THEN conjunct2, THEN conjunct2, THEN conjunct2, THEN conjunct2, THEN conjunct2,
             THEN conjunct2, THEN conjunct2, THEN conjunct1]
    unfolding c6 c4 collaborative_tie[OF l(2)] content_tie[OF l(3)]
    by (simp only: list.map ia ib)
  have f: "firstOccurrences ([''mb'', ''ma''] @ [''ma'', ''mb'']) = [''mb'', ''ma'']"
    by (simp add: firstOccurrences_def)
  have h: "map (\<lambda>r. (rid r, score r)) (generateHybridRecommendations db_tie ''u1'' ?C 10)
            = [(''mb'', ?S), (''ma'', ?S)]"
    unfolding hybrid_tie by (simp only: list.map ia ib recommendation.simps)
  have g': "list_all (\<lambda>m. genre m \<noteq> []) ?C" using g by (simp add: list_all_iff)
  from g' collaborative_tie[OF l(1)] content_tie[OF l(1)] h d1 d2 d3 s1 votes_tie s2 s3 f
  show ?thesis by (intro conjI)
qed

text \<open>
  The claim as stated fails: of two movies with the same score the content recommender
  returns \<open>mb\<close> before \<open>ma\<close> when the catalog lists them so, and \<open>ma\<close> before \<open>mb\<close> when
  the catalog lists them the other way; the collaborative recommender returns \<open>mb\<close>
  before \<open>ma\<close> because the neighbour rated \<open>mb\<close> first.
\<close>

theorem ranked_descending_stable_counterexample:
  "map (\<lambda>r. (movie_id (movie r), score r))
       (generateContentBasedRecommendations db_lonely ''u1'' [movie_b, movie_a] 10)
     = [(''mb'', Num 0.75), (''ma'', Num 0.75)]
   \<and> ''ma'' < ''mb''
   \<and> map (\<lambda>r. (movie_id (movie r), score r))
       (generateContentBasedRecommendations db_lonely ''u1'' [movie_a, movie_b] 10)
     = [(''ma'', Num 0.75), (''mb'', Num 0.75)]
   \<and> map (\<lambda>r. (movie_id (movie r), score r))
       (generateCollaborativeRecommendations db_tie ''u1'' [movie1, movie2, movie_a, movie_b] 10)
     = [(''mb'', Num 5), (''ma'', Num 5)]"
proof -
  have ia: "movie_id movie_a = ''ma''" by (simp add: movie_a_def)
  have ib: "movie_id movie_b = ''mb''" by (simp add: movie_b_def)
  have l: "(2::int) \<le> 10" by simp
  show ?thesis
    unfolding content_tie_example content_tie_example_rev collaborative_tie[OF l]
    using ma_less_mb by (simp add: ia ib)
qed

section \<open>The similarities of the examples in binary64\<close>

text \<open>
  The neighbours of the examples above have similarity \<open>1\<close> in binary64 as in exact
  arithmetic: every intermediate value of these computations is a double.
\<close>

lemma fl_9_2: "fl (9 / 2) = Num (9 / 2)"
  by (rule fl_val[where e = "2" and k = 5066549580791808]) (simp_all add: pow2_def)

lemma fl_quarter: "fl (1 / 4) = Num (1 / 4)"
  by (rule fl_val[where e = "-2" and k = 4503599627370496]) (simp_all add: pow2_def)

lemma similarity64_pair:
  "calculateUserSimilarity64 (filter (\<lambda>r. userId r = ''u1'') pair_ratings)
     (filter (\<lambda>r. userId r = ''u2'') pair_ratings) = Num 1"
  by (simp add: calculateUserSimilarity64_def pair_ratings_def Let_def
      dadd_def dsub_def dmul_def ddiv_def dsqrt_def rounded_def
      plus_number_def minus_number_def times_number_def divide_number_def
      fl_numeral fl_9_2 fl_half fl_quarter sqrt_quarter)

lemma similarity64_both:
  "calculateUserSimilarity64 (filter (\<lambda>r. userId r = ''u1'') both_ratings)
     (filter (\<lambda>r. userId r = ''u2'') both_ratings) = Num 1"
  by (simp add: calculateUserSimilarity64_def both_ratings_def Let_def
      dadd_def dsub_def dmul_def ddiv_def dsqrt_def rounded_def
      plus_number_def minus_number_def times_number_def divide_number_def
      fl_numeral fl_81_2 fl_half fl_quarter sqrt_quarter)

lemma similarity64_tie:
  "calculateUserSimilarity64 (filter (\<lambda>r. userId r = ''u1'') tie_ratings)
     (filter (\<lambda>r. userId r = ''u2'') tie_ratings) = Num 1"
  by (simp add: calculateUserSimilarity64_def tie_ratings_def Let_def
      dadd_def dsub_def dmul_def ddiv_def dsqrt_def rounded_def
      plus_number_def minus_number_def times_number_def divide_number_def
      fl_numeral fl_81_2 fl_half fl_quarter sqrt_quarter)

end
